theory Spec2Isabelle
  imports Main "HOL-Library.Word" "HOL-Library.Char_ord"
begin

unbundle bit_operations_syntax

section \<open>The OPL line parser of libosmium (opl\_parser\_functions.hpp)\<close>

text \<open>
  A line is the byte string in front of its terminating NUL; a cursor (\<open>const char*\<close>)
  is an index into the line, the start of the line being index 0. Reading at the
  end of the line, or behind it, gives the NUL byte.
  The range tests of the source (\<open>'0'..'9'\<close>, \<open>'a'..'f'\<close>, \<open>'A'..'F'\<close>) lie
  within ASCII, so they have the same outcome for signed and for unsigned \<open>char\<close>;
  the order on \<open>char\<close> used here is the unsigned one.
\<close>

definition NUL :: char where
  "NUL = CHR 0x00"

definition TAB :: char where
  "TAB = CHR 0x09"

definition peek :: "string \<Rightarrow> nat \<Rightarrow> char" where
  "peek s i = (if i < length s then s ! i else NUL)"

subsection \<open>struct opl\_error\<close>

text \<open>
  \<open>uint64_t line, column\<close> are natural numbers here: a line number is copied, and a
  column is the distance of two cursors of one line, so neither wraps.
  \<open>data\<close> is the cursor given to the constructor, \<open>None\<close> for \<open>nullptr\<close>.
\<close>

record opl_error =
  line :: nat
  column :: nat
  data :: "nat option"
  msg :: string

definition opl_error :: "string \<Rightarrow> nat option \<Rightarrow> opl_error" where
  "opl_error what d = \<lparr>line = 0, column = 0, data = d, msg = ''OPL error: '' @ what\<rparr>"

text \<open>\<open>std::to_string\<close> on an unsigned integer: its decimal digits.\<close>

fun to_string :: "nat \<Rightarrow> string" where
  "to_string n =
     (if n < 10 then [char_of (48 + n)]
      else to_string (n div 10) @ [char_of (48 + n mod 10)])"

declare to_string.simps [simp del]

definition set_pos :: "nat \<Rightarrow> nat \<Rightarrow> opl_error \<Rightarrow> opl_error" where
  "set_pos l col e =
     e\<lparr>line := l, column := col,
       msg := msg e @ '' on line '' @ to_string l @ '' column '' @ to_string col\<rparr>"

subsection \<open>Scalar scanners\<close>

text \<open>The \<open>do ... while\<close> of \<open>opl_parse_space\<close>.\<close>

function opl_parse_space_loop :: "string \<Rightarrow> nat \<Rightarrow> nat" where
  "opl_parse_space_loop s i =
     (let j = Suc i in
      if peek s j = CHR '' '' \<or> peek s j = TAB then opl_parse_space_loop s j else j)"
  by pat_completeness auto
termination
  by (relation "measure (\<lambda>(s, i). length s - i)")
     (auto simp: peek_def NUL_def TAB_def split: if_splits)

declare opl_parse_space_loop.simps [simp del]

definition opl_parse_space :: "string \<Rightarrow> nat \<Rightarrow> opl_error + nat" where
  "opl_parse_space s i =
     (if peek s i \<noteq> CHR '' '' \<and> peek s i \<noteq> TAB
      then Inl (opl_error ''expected space or tab character'' (Some i))
      else Inr (opl_parse_space_loop s i))"

definition opl_non_empty :: "string \<Rightarrow> nat \<Rightarrow> bool" where
  "opl_non_empty s i = (peek s i \<noteq> NUL \<and> peek s i \<noteq> CHR '' '' \<and> peek s i \<noteq> TAB)"

function opl_skip_section :: "string \<Rightarrow> nat \<Rightarrow> nat" where
  "opl_skip_section s i = (if opl_non_empty s i then opl_skip_section s (Suc i) else i)"
  by pat_completeness auto
termination
  by (relation "measure (\<lambda>(s, i). length s - i)")
     (auto simp: opl_non_empty_def peek_def split: if_splits)

declare opl_skip_section.simps [simp del]

text \<open>
  Modelled from the spec: \<open>append_codepoint_as_utf8\<close> of string\_util.hpp, which is
  not among the sources. The spec says that the accumulated value is encoded as
  UTF-8, 1 to 4 bytes for a Unicode scalar value; this is the standard encoding,
  the 4-byte form taken for every value from \<open>0x10000\<close> on.
\<close>

definition append_codepoint_as_utf8 :: "32 word \<Rightarrow> string" where
  "append_codepoint_as_utf8 cp =
     (let n = unat cp in
      if n < 0x80 then [char_of n]
      else if n < 0x800 then [char_of (0xC0 + n div 0x40), char_of (0x80 + n mod 0x40)]
      else if n < 0x10000 then
        [char_of (0xE0 + n div 0x1000), char_of (0x80 + n div 0x40 mod 0x40),
         char_of (0x80 + n mod 0x40)]
      else
        [char_of (0xF0 + n div 0x40000), char_of (0x80 + n div 0x1000 mod 0x40),
         char_of (0x80 + n div 0x40 mod 0x40), char_of (0x80 + n mod 0x40)])"

definition max_length :: int where
  "max_length = 4 * 2"

text \<open>
  The \<open>while (++length <= max_length)\<close> loop of \<open>opl_parse_escaped\<close>; \<open>len\<close> is
  the value of \<open>length\<close> before the increment of the loop test. \<open>value\<close> is a
  \<open>uint32_t\<close>: the shift drops the bits above bit 31.
\<close>

function opl_parse_escaped_loop ::
  "string \<Rightarrow> nat \<Rightarrow> 32 word \<Rightarrow> int \<Rightarrow> string \<Rightarrow> opl_error + (nat \<times> string)" where
  "opl_parse_escaped_loop s i val len result =
     (if len + 1 \<le> max_length then
        (if peek s i = NUL then Inl (opl_error ''eol'' (Some i))
         else if peek s i = CHR ''%'' then Inr (Suc i, result @ append_codepoint_as_utf8 val)
         else
           (let c = peek s i; v = push_bit 4 val in
            if CHR ''0'' \<le> c \<and> c \<le> CHR ''9'' then
              opl_parse_escaped_loop s (Suc i)
                (v + of_nat (of_char c - of_char CHR ''0'')) (len + 1) result
            else if CHR ''a'' \<le> c \<and> c \<le> CHR ''f'' then
              opl_parse_escaped_loop s (Suc i)
                (v + of_nat (of_char c - of_char CHR ''a'' + 10)) (len + 1) result
            else if CHR ''A'' \<le> c \<and> c \<le> CHR ''F'' then
              opl_parse_escaped_loop s (Suc i)
                (v + of_nat (of_char c - of_char CHR ''A'' + 10)) (len + 1) result
            else Inl (opl_error ''not a hex char'' (Some i))))
      else Inl (opl_error ''hex escape too long'' (Some i)))"
  by pat_completeness auto
termination
  by (relation "measure (\<lambda>(s, i, val, len, result). nat (max_length - len))") auto

declare opl_parse_escaped_loop.simps [simp del]

definition opl_parse_escaped :: "string \<Rightarrow> nat \<Rightarrow> string \<Rightarrow> opl_error + (nat \<times> string)" where
  "opl_parse_escaped s i result = opl_parse_escaped_loop s i 0 0 result"

lemma opl_parse_escaped_loop_mono:
  "opl_parse_escaped_loop s i val len result = Inr (j, r) \<Longrightarrow> i < j \<and> j \<le> length s"
proof (induction s i val len result rule: opl_parse_escaped_loop.induct)
  case (1 s i val len result)
  note step = opl_parse_escaped_loop.simps [of s i val len result]
  from "1.prems" have ne: "peek s i \<noteq> NUL" and le: "len + 1 \<le> max_length"
    unfolding step by (auto split: if_splits)
  from ne have lt: "i < length s"
    by (auto simp: peek_def split: if_splits)
  show ?case
  proof (cases "peek s i = CHR ''%''")
    case True
    with "1.prems" ne le lt show ?thesis
      unfolding step by simp
  next
    case False
    with "1.prems" ne le obtain v where "opl_parse_escaped_loop s (Suc i) v (len + 1) result = Inr (j, r)"
      unfolding step by (simp add: Let_def split: if_splits)
    then have "Suc i < j \<and> j \<le> length s"
      using "1.IH" ne le False "1.prems" unfolding step
      by (simp add: Let_def split: if_splits)
    then show ?thesis by simp
  qed
qed

lemma opl_parse_escaped_mono:
  "opl_parse_escaped s i result = Inr (j, r) \<Longrightarrow> i < j \<and> j \<le> length s"
  unfolding opl_parse_escaped_def by (rule opl_parse_escaped_loop_mono)

text \<open>
  \<open>opl_parse_string\<close>: \<open>result\<close> is the caller's string, to which the bytes are
  appended; the cursor is returned with it.
\<close>

function opl_parse_string :: "string \<Rightarrow> nat \<Rightarrow> string \<Rightarrow> opl_error + (nat \<times> string)" where
  "opl_parse_string s i result =
     (if peek s i = NUL \<or> peek s i = CHR '' '' \<or> peek s i = TAB
         \<or> peek s i = CHR '','' \<or> peek s i = CHR ''=''
      then Inr (i, result)
      else if peek s i = CHR ''%'' then
        (case opl_parse_escaped s (Suc i) result of
           Inl e \<Rightarrow> Inl e
         | Inr (j, r) \<Rightarrow> opl_parse_string s j r)
      else opl_parse_string s (Suc i) (result @ [peek s i]))"
  by pat_completeness auto
termination
proof (relation "measure (\<lambda>(s, i, result). length s - i)", goal_cases)
  case 1
  show ?case by simp
next
  case (2 s i result x2 j r)
  then show ?case
    using opl_parse_escaped_mono [of s "Suc i" result j r] by auto
next
  case (3 s i result)
  then show ?case
    by (auto simp: peek_def split: if_splits)
qed

declare opl_parse_string.simps [simp del]

lemma opl_parse_string_mono:
  "opl_parse_string s i result = Inr (j, r) \<Longrightarrow> i \<le> j"
proof (induction s i result rule: opl_parse_string.induct)
  case (1 s i result)
  note step = opl_parse_string.simps [of s i result]
  show ?case
  proof (cases "peek s i = NUL \<or> peek s i = CHR '' '' \<or> peek s i = TAB
         \<or> peek s i = CHR '','' \<or> peek s i = CHR ''=''")
    case True
    with "1.prems" show ?thesis unfolding step by simp
  next
    case stop: False
    show ?thesis
    proof (cases "peek s i = CHR ''%''")
      case True
      with stop "1.prems" obtain k r' where
        esc: "opl_parse_escaped s (Suc i) result = Inr (k, r')" and
        rest: "opl_parse_string s k r' = Inr (j, r)"
        unfolding step by (auto split: sum.splits)
      from "1.IH"(1) [OF stop True esc refl rest] opl_parse_escaped_mono [OF esc]
      show ?thesis by simp
    next
      case False
      with stop "1.prems" have "opl_parse_string s (Suc i) (result @ [peek s i]) = Inr (j, r)"
        unfolding step by simp
      from "1.IH"(2) [OF stop False this] show ?thesis by simp
    qed
  qed
qed

subsection \<open>Integers\<close>

text \<open>
  The integer types of osmium/osm/types.hpp, which is not among the sources, are a
  parameter: a type \<open>T\<close> is its signedness and its width, from which
  \<open>std::numeric_limits<T>\<close> follows.
\<close>

datatype int_type = Signed_int nat | Unsigned_int nat

fun numeric_min :: "int_type \<Rightarrow> int" where
  "numeric_min (Signed_int b) = - (2 ^ (b - 1))"
| "numeric_min (Unsigned_int b) = 0"

fun numeric_max :: "int_type \<Rightarrow> int" where
  "numeric_max (Signed_int b) = 2 ^ (b - 1) - 1"
| "numeric_max (Unsigned_int b) = 2 ^ b - 1"

text \<open>
  The two range tests of \<open>opl_parse_int\<close> compare the \<open>int64_t value\<close> with a
  limit of \<open>T\<close>. By the usual arithmetic conversions of C++ the comparison is
  made in \<open>T\<close> if \<open>T\<close> is unsigned and at least 64 bits wide, the value being
  converted to \<open>T\<close> first; for every other \<open>T\<close> it is made in a signed type
  that holds both operands unchanged.
\<close>

fun usual_conversion :: "int_type \<Rightarrow> int \<Rightarrow> int" where
  "usual_conversion (Signed_int b) v = v"
| "usual_conversion (Unsigned_int b) v = (if 64 \<le> b then take_bit b v else v)"

text \<open>Whether every value of \<open>T\<close> is a value of \<open>int64_t\<close>.\<close>

definition fits_int64 :: "int_type \<Rightarrow> bool" where
  "fits_int64 T = (- (2 ^ 63) \<le> numeric_min T \<and> numeric_max T \<le> 2 ^ 63 - 1)"

text \<open>The conversion \<open>T(value)\<close>.\<close>

fun int_cast :: "int_type \<Rightarrow> int \<Rightarrow> int" where
  "int_cast (Signed_int b) v = signed_take_bit (b - 1) v"
| "int_cast (Unsigned_int b) v = take_bit b v"

definition max_int_len :: int where
  "max_int_len = 16"

text \<open>
  The digit loop of \<open>opl_parse_int\<close>. The accumulator is the \<open>int64_t value\<close>, a
  64-bit word read as two's complement; \<open>n\<close> is the \<open>int\<close> counter. The loop
  returns the accumulator, the cursor and the counter.
\<close>

function opl_parse_int_loop ::
  "string \<Rightarrow> nat \<Rightarrow> 64 word \<Rightarrow> int \<Rightarrow> opl_error + (64 word \<times> nat \<times> int)" where
  "opl_parse_int_loop s i val n =
     (if CHR ''0'' \<le> peek s i \<and> peek s i \<le> CHR ''9'' then
        (if n - 1 = 0 then Inl (opl_error ''integer too long'' (Some i))
         else opl_parse_int_loop s (Suc i)
                (val * 10 + of_nat (of_char (peek s i) - of_char CHR ''0'')) (n - 1))
      else Inr (val, i, n))"
  by pat_completeness auto
termination
  by (relation "measure (\<lambda>(s, i, val, n). length s - i)")
     (auto simp: peek_def NUL_def less_eq_char_def split: if_splits)

declare opl_parse_int_loop.simps [simp del]

definition opl_parse_int :: "int_type \<Rightarrow> string \<Rightarrow> nat \<Rightarrow> opl_error + (int \<times> nat)" where
  "opl_parse_int T s i =
     (if peek s i = NUL then Inl (opl_error ''expected integer'' (Some i))
      else
        (let negative = (peek s i = CHR ''-'');
             i1 = (if negative then Suc i else i)
         in case opl_parse_int_loop s i1 0 max_int_len of
              Inl e \<Rightarrow> Inl e
            | Inr (val, j, n) \<Rightarrow>
                if n = max_int_len then Inl (opl_error ''expected integer'' (Some j))
                else if negative then
                  (let val' = - val in
                   if usual_conversion T (sint val') < numeric_min T
                   then Inl (opl_error ''integer too long'' (Some j))
                   else Inr (int_cast T (sint val'), j))
                else
                  (if usual_conversion T (sint val) > numeric_max T
                   then Inl (opl_error ''integer too long'' (Some j))
                   else Inr (int_cast T (sint val), j))))"

lemma opl_parse_int_loop_mono:
  "opl_parse_int_loop s i val n = Inr (w, j, m) \<Longrightarrow> i \<le> j"
proof (induction s i val n rule: opl_parse_int_loop.induct)
  case (1 s i val n)
  then show ?case
    unfolding opl_parse_int_loop.simps [of s i val n]
    by (fastforce split: if_splits)
qed

lemma opl_parse_int_mono:
  "opl_parse_int T s i = Inr (v, j) \<Longrightarrow> i \<le> j"
  unfolding opl_parse_int_def
  by (auto simp: Let_def split: if_splits sum.splits dest!: opl_parse_int_loop_mono)

definition opl_parse_visible :: "string \<Rightarrow> nat \<Rightarrow> opl_error + (bool \<times> nat)" where
  "opl_parse_visible s i =
     (if peek s i = CHR ''V'' then Inr (True, Suc i)
      else if peek s i = CHR ''D'' then Inr (False, Suc i)
      else Inl (opl_error ''invalid visible flag'' (Some i)))"

definition opl_parse_char :: "string \<Rightarrow> nat \<Rightarrow> char \<Rightarrow> opl_error + nat" where
  "opl_parse_char s i c =
     (if peek s i = c then Inr (Suc i)
      else Inl (opl_error (''expected '' @ [CHR 0x27] @ [c] @ [CHR 0x27]) (Some i)))"

subsection \<open>The parts of libosmium outside this file\<close>

text \<open>
  \<open>osmium::Timestamp\<close>: a default-constructed timestamp, or one constructed from
  the text at the cursor, of which the parser consumes 20 bytes.
\<close>

datatype timestamp = Timestamp_default | Timestamp string

text \<open>\<open>osmium::Location\<close> with its two \<open>int32_t\<close> coordinates.\<close>

record location =
  m_x :: int
  m_y :: int

record box =
  bottom_left :: location
  top_right :: location

text \<open>
  What the parser uses of the headers that are not among the sources is a parameter
  \<open>X\<close> of the model:
  \<^item> the integer types of osmium/osm/types.hpp;
  \<^item> \<open>timestamp_valid\<close>: whether the constructor \<open>osmium::Timestamp{const char*}\<close>
  accepts the text at the cursor (it throws \<open>std::invalid_argument\<close> otherwise);
  \<^item> \<open>str_to_coordinate\<close>: the scanner behind \<open>Location::set_lon_partial\<close> and
  \<open>Location::set_lat_partial\<close>, which gives the coordinate and the number of bytes
  it consumed, or fails; following the spec, its failure is a positional
  \<open>opl_error\<close>;
  \<^item> \<open>undefined_coordinate\<close>: the default sentinel of a coordinate;
  \<^item> \<open>valid\<close>: \<open>Location::valid()\<close>.
\<close>

record ext =
  object_id_type :: int_type
  changeset_id_type :: int_type
  object_version_type :: int_type
  user_id_type :: int_type
  num_changes_type :: int_type
  num_comments_type :: int_type
  timestamp_valid :: "string \<Rightarrow> bool"
  str_to_coordinate :: "string \<Rightarrow> nat \<Rightarrow> opl_error + (int \<times> nat)"
  undefined_coordinate :: int
  valid :: "location \<Rightarrow> bool"

definition Location :: "ext \<Rightarrow> location" where
  "Location X = \<lparr>m_x = undefined_coordinate X, m_y = undefined_coordinate X\<rparr>"

definition Box :: "ext \<Rightarrow> box" where
  "Box X = \<lparr>bottom_left = Location X, top_right = Location X\<rparr>"

definition set_lon_partial ::
  "ext \<Rightarrow> string \<Rightarrow> nat \<Rightarrow> location \<Rightarrow> opl_error + (nat \<times> location)" where
  "set_lon_partial X s i loc =
     (case str_to_coordinate X s i of
        Inl e \<Rightarrow> Inl e
      | Inr (v, n) \<Rightarrow> Inr (i + n, loc\<lparr>m_x := v\<rparr>))"

definition set_lat_partial ::
  "ext \<Rightarrow> string \<Rightarrow> nat \<Rightarrow> location \<Rightarrow> opl_error + (nat \<times> location)" where
  "set_lat_partial X s i loc =
     (case str_to_coordinate X s i of
        Inl e \<Rightarrow> Inl e
      | Inr (v, n) \<Rightarrow> Inr (i + n, loc\<lparr>m_y := v\<rparr>))"

text \<open>
  Modelled from the spec: \<open>osmium::char_to_item_type\<close> of osmium/osm/item\_type.hpp,
  which is not among the sources. The parser only asks whether the type is node,
  way or relation, which the spec gives to the bytes \<open>n\<close>, \<open>w\<close> and \<open>r\<close>.
\<close>

datatype item_type = undefined_item | node | way | relation

definition char_to_item_type :: "char \<Rightarrow> item_type" where
  "char_to_item_type c =
     (if c = CHR ''n'' then node
      else if c = CHR ''w'' then way
      else if c = CHR ''r'' then relation
      else undefined_item)"

text \<open>
  Modelled from the spec: \<open>osmium::osm_entity_bits::type\<close>, a bitset over the
  four entity kinds; \<open>read_types & osmium::osm_entity_bits::node\<close> is membership.
\<close>

datatype entity_bit = node_bit | way_bit | relation_bit | changeset_bit

definition opl_parse_id :: "ext \<Rightarrow> string \<Rightarrow> nat \<Rightarrow> opl_error + (int \<times> nat)" where
  "opl_parse_id X s i = opl_parse_int (object_id_type X) s i"

definition opl_parse_changeset_id :: "ext \<Rightarrow> string \<Rightarrow> nat \<Rightarrow> opl_error + (int \<times> nat)" where
  "opl_parse_changeset_id X s i = opl_parse_int (changeset_id_type X) s i"

definition opl_parse_version :: "ext \<Rightarrow> string \<Rightarrow> nat \<Rightarrow> opl_error + (int \<times> nat)" where
  "opl_parse_version X s i = opl_parse_int (object_version_type X) s i"

definition opl_parse_uid :: "ext \<Rightarrow> string \<Rightarrow> nat \<Rightarrow> opl_error + (int \<times> nat)" where
  "opl_parse_uid X s i = opl_parse_int (user_id_type X) s i"

definition opl_parse_timestamp ::
  "ext \<Rightarrow> string \<Rightarrow> nat \<Rightarrow> opl_error + (timestamp \<times> nat)" where
  "opl_parse_timestamp X s i =
     (if peek s i = NUL \<or> peek s i = CHR '' '' \<or> peek s i = TAB
      then Inr (Timestamp_default, i)
      else if timestamp_valid X (drop i s)
      then Inr (Timestamp (take 20 (drop i s)), i + 20)
      else Inl (opl_error ''can not parse timestamp'' (Some i)))"

subsection \<open>The entity sink\<close>

text \<open>
  The buffer and the builders of libosmium are outside this file. The sink is what
  the parser does to it: the calls made on the builders since the last commit, in
  order, and the entities committed so far, each the calls it was built with.
  A builder's constructor is a call of its own.
\<close>

datatype builder_call =
    NodeBuilder | WayBuilder | RelationBuilder | ChangesetBuilder
  | TagListBuilder | WayNodeListBuilder | RelationMemberListBuilder
  | set_id int | set_version int | set_visible bool | set_changeset int
  | set_timestamp timestamp | set_uid int | set_user string
  | set_location location | set_bounds box
  | set_num_changes int | set_created_at timestamp | set_closed_at timestamp
  | set_num_comments int
  | add_tag string string
  | add_node_ref int "location option"
  | add_member item_type int string

record buffer =
  committed :: "builder_call list list"
  written :: "builder_call list"

definition call :: "builder_call \<Rightarrow> buffer \<Rightarrow> buffer" where
  "call c buf = buf\<lparr>written := written buf @ [c]\<rparr>"

definition commit :: "buffer \<Rightarrow> buffer" where
  "commit buf = buf\<lparr>committed := committed buf @ [written buf], written := []\<rparr>"

subsection \<open>Sub-grammar parsers\<close>

text \<open>
  A parser that writes to the sink returns the sink with its result; when it throws,
  the sink is returned with the error, as the throw leaves it behind.
\<close>

function opl_parse_tags_loop ::
  "string \<Rightarrow> nat \<Rightarrow> buffer \<Rightarrow> (opl_error \<times> buffer) + buffer" where
  "opl_parse_tags_loop s i buf =
     (case opl_parse_string s i [] of
        Inl e \<Rightarrow> Inl (e, buf)
      | Inr (i1, key) \<Rightarrow>
     (case opl_parse_char s i1 CHR ''='' of
        Inl e \<Rightarrow> Inl (e, buf)
      | Inr i2 \<Rightarrow>
     (case opl_parse_string s i2 [] of
        Inl e \<Rightarrow> Inl (e, buf)
      | Inr (i3, val) \<Rightarrow>
          (let buf' = call (add_tag key val) buf in
           if peek s i3 = CHR '' '' \<or> peek s i3 = TAB \<or> peek s i3 = NUL then Inr buf'
           else
             (case opl_parse_char s i3 CHR '','' of
                Inl e \<Rightarrow> Inl (e, buf')
              | Inr i4 \<Rightarrow> opl_parse_tags_loop s i4 buf')))))"
  by pat_completeness auto
termination
proof (relation "measure (\<lambda>(s, i, buf). length s - i)", goal_cases)
  case 1
  show ?case by simp
next
  case (2 s i buf x2 i1 key i2 x2a i3 val buf' i4)
  from 2(1,2) have "i \<le> i1"
    using opl_parse_string_mono [of s i "[]" i1 key] by simp
  moreover from 2(3) have "i2 = Suc i1" "i1 < length s"
    by (auto simp: opl_parse_char_def peek_def NUL_def split: if_splits)
  moreover from 2(4,5) have "i2 \<le> i3"
    using opl_parse_string_mono [of s i2 "[]" i3 val] by simp
  moreover from 2 have "i4 = Suc i3"
    by (auto simp: opl_parse_char_def split: if_splits)
  ultimately show ?case by simp
qed

declare opl_parse_tags_loop.simps [simp del]

definition opl_parse_tags :: "string \<Rightarrow> nat \<Rightarrow> buffer \<Rightarrow> (opl_error \<times> buffer) + buffer" where
  "opl_parse_tags s i buf = opl_parse_tags_loop s i (call TagListBuilder buf)"

lemma opl_parse_char_mono: "opl_parse_char s i c = Inr j \<Longrightarrow> j = Suc i"
  by (auto simp: opl_parse_char_def split: if_splits)

lemma set_lon_partial_mono: "set_lon_partial X s i l = Inr (j, l') \<Longrightarrow> i \<le> j"
  by (auto simp: set_lon_partial_def split: sum.splits)

lemma set_lat_partial_mono: "set_lat_partial X s i l = Inr (j, l') \<Longrightarrow> i \<le> j"
  by (auto simp: set_lat_partial_def split: sum.splits)

text \<open>
  The optional inline location of a way node: \<open>x\<close> and a longitude, then
  possibly \<open>y\<close> and a latitude.
\<close>

definition way_node_location ::
  "ext \<Rightarrow> string \<Rightarrow> nat \<Rightarrow> opl_error + (nat \<times> location)" where
  "way_node_location X s i =
     (if peek s i = CHR ''x'' then
        (case set_lon_partial X s (Suc i) (Location X) of
           Inl e \<Rightarrow> Inl e
         | Inr (j, l) \<Rightarrow>
             if peek s j = CHR ''y'' then set_lat_partial X s (Suc j) l else Inr (j, l))
      else Inr (i, Location X))"

lemma way_node_location_mono: "way_node_location X s i = Inr (j, l) \<Longrightarrow> i \<le> j"
  by (auto simp: way_node_location_def split: if_splits sum.splits
      dest!: set_lon_partial_mono set_lat_partial_mono)

text \<open>The \<open>while (s < e)\<close> loop of \<open>opl_parse_way_nodes\<close>.\<close>

function opl_parse_way_nodes_loop ::
  "ext \<Rightarrow> string \<Rightarrow> nat \<Rightarrow> nat \<Rightarrow> buffer \<Rightarrow> (opl_error \<times> buffer) + buffer" where
  "opl_parse_way_nodes_loop X s i e buf =
     (if i < e then
        (case opl_parse_char s i CHR ''n'' of
           Inl er \<Rightarrow> Inl (er, buf)
         | Inr i1 \<Rightarrow>
             if i1 = e then Inl (opl_error ''expected integer'' (Some i1), buf)
             else
               (case opl_parse_id X s i1 of
                  Inl er \<Rightarrow> Inl (er, buf)
                | Inr (ref, i2) \<Rightarrow>
                    if i2 = e then Inr (call (add_node_ref ref None) buf)
                    else
                      (case way_node_location X s i2 of
                         Inl er \<Rightarrow> Inl (er, buf)
                       | Inr (i3, l) \<Rightarrow>
                           (let buf' = call (add_node_ref ref (Some l)) buf in
                            if i3 = e then Inr buf'
                            else
                              (case opl_parse_char s i3 CHR '','' of
                                 Inl er \<Rightarrow> Inl (er, buf')
                               | Inr i4 \<Rightarrow> opl_parse_way_nodes_loop X s i4 e buf')))))
      else Inr buf)"
  by pat_completeness auto
termination
proof (relation "measure (\<lambda>(X, s, i, e, buf). e - i)", goal_cases)
  case 1
  show ?case by simp
next
  case (2 X s i e buf i1 x2 ref i2 x2a i3 l buf' i4)
  from 2(2) have "i1 = Suc i" by (rule opl_parse_char_mono)
  moreover from 2(4,5) have "i1 \<le> i2"
    using opl_parse_int_mono [of "object_id_type X" s i1 ref i2] by (simp add: opl_parse_id_def)
  moreover from 2(7,8) have "i2 \<le> i3"
    using way_node_location_mono [of X s i2 i3 l] by simp
  moreover from 2 have "i4 = Suc i3" by (auto dest: opl_parse_char_mono)
  ultimately show ?case using 2(1) by simp
qed

declare opl_parse_way_nodes_loop.simps [simp del]

definition opl_parse_way_nodes ::
  "ext \<Rightarrow> string \<Rightarrow> nat \<Rightarrow> nat \<Rightarrow> buffer \<Rightarrow> (opl_error \<times> buffer) + buffer" where
  "opl_parse_way_nodes X s i e buf =
     (if i = e then Inr buf
      else opl_parse_way_nodes_loop X s i e (call WayNodeListBuilder buf))"

text \<open>The \<open>while (s < e)\<close> loop of \<open>opl_parse_relation_members\<close>.\<close>

function opl_parse_relation_members_loop ::
  "ext \<Rightarrow> string \<Rightarrow> nat \<Rightarrow> nat \<Rightarrow> buffer \<Rightarrow> (opl_error \<times> buffer) + buffer" where
  "opl_parse_relation_members_loop X s i e buf =
     (if i < e then
        (let type = char_to_item_type (peek s i) in
         if type \<noteq> node \<and> type \<noteq> way \<and> type \<noteq> relation
         then Inl (opl_error ''unknown object type'' (Some i), buf)
         else
           (let i1 = Suc i in
            if i1 = e then Inl (opl_error ''expected integer'' (Some i1), buf)
            else
              (case opl_parse_id X s i1 of
                 Inl er \<Rightarrow> Inl (er, buf)
               | Inr (ref, i2) \<Rightarrow>
              (case opl_parse_char s i2 CHR ''@'' of
                 Inl er \<Rightarrow> Inl (er, buf)
               | Inr i3 \<Rightarrow>
                   if i3 = e then Inr (call (add_member type ref []) buf)
                   else
                     (case opl_parse_string s i3 [] of
                        Inl er \<Rightarrow> Inl (er, buf)
                      | Inr (i4, role) \<Rightarrow>
                          (let buf' = call (add_member type ref role) buf in
                           if i4 = e then Inr buf'
                           else
                             (case opl_parse_char s i4 CHR '','' of
                                Inl er \<Rightarrow> Inl (er, buf')
                              | Inr i5 \<Rightarrow>
                                  opl_parse_relation_members_loop X s i5 e buf')))))))
      else Inr buf)"
  by pat_completeness auto
termination
proof (relation "measure (\<lambda>(X, s, i, e, buf). e - i)", goal_cases)
  case 1
  show ?case by simp
next
  case (2 X s i e buf type i1 x2 ref i2 i3 x2a i4 role buf' i5)
  from 2 have "i1 = Suc i" by simp
  moreover from 2 have "i1 \<le> i2"
    using opl_parse_int_mono [of "object_id_type X" s i1 ref i2] by (simp add: opl_parse_id_def)
  moreover from 2 have "i3 = Suc i2" by (auto dest: opl_parse_char_mono)
  moreover from 2 have "i3 \<le> i4"
    using opl_parse_string_mono [of s i3 "[]" i4 role] by simp
  moreover from 2 have "i5 = Suc i4" by (auto dest: opl_parse_char_mono)
  ultimately show ?case using 2(1) by simp
qed

declare opl_parse_relation_members_loop.simps [simp del]

definition opl_parse_relation_members ::
  "ext \<Rightarrow> string \<Rightarrow> nat \<Rightarrow> nat \<Rightarrow> buffer \<Rightarrow> (opl_error \<times> buffer) + buffer" where
  "opl_parse_relation_members X s i e buf =
     (if i = e then Inr buf
      else opl_parse_relation_members_loop X s i e (call RelationMemberListBuilder buf))"

subsection \<open>Entity parsers\<close>

text \<open>
  The local variables of an entity parser, with the sink: the state of its
  attribute loop. The node, way and relation parsers share the variables of
  \<open>object_state\<close>; the changeset parser shares \<open>common_state\<close> with them.
\<close>

record common_state =
  tags_begin :: "nat option"
  has_uid :: bool
  has_user :: bool
  has_tags :: bool
  user :: string
  buf :: buffer

record object_state = common_state +
  has_version :: bool
  has_visible :: bool
  has_changeset_id :: bool
  has_timestamp :: bool

record node_state = object_state +
  has_lon :: bool
  has_lat :: bool
  loc :: location

record way_state = object_state +
  nodes_begin :: "nat option"
  nodes_end :: "nat option"
  has_nodes :: bool

record relation_state = object_state +
  members_begin :: "nat option"
  members_end :: "nat option"
  has_members :: bool

record changeset_state = common_state +
  has_num_changes :: bool
  has_created_at :: bool
  has_closed_at :: bool
  has_num_comments :: bool
  has_min_x :: bool
  has_min_y :: bool
  has_max_x :: bool
  has_max_y :: bool
  bbox :: box

text \<open>
  The local variables as an entity parser declares them, with the sink as it is
  when the attribute loop begins.
\<close>

definition node_locals :: "ext \<Rightarrow> buffer \<Rightarrow> node_state" where
  "node_locals X b =
     \<lparr>tags_begin = None, has_uid = False, has_user = False, has_tags = False,
      user = [], buf = b,
      has_version = False, has_visible = False, has_changeset_id = False,
      has_timestamp = False,
      has_lon = False, has_lat = False, loc = Location X\<rparr>"

definition way_locals :: "buffer \<Rightarrow> way_state" where
  "way_locals b =
     \<lparr>tags_begin = None, has_uid = False, has_user = False, has_tags = False,
      user = [], buf = b,
      has_version = False, has_visible = False, has_changeset_id = False,
      has_timestamp = False,
      nodes_begin = None, nodes_end = None, has_nodes = False\<rparr>"

definition relation_locals :: "buffer \<Rightarrow> relation_state" where
  "relation_locals b =
     \<lparr>tags_begin = None, has_uid = False, has_user = False, has_tags = False,
      user = [], buf = b,
      has_version = False, has_visible = False, has_changeset_id = False,
      has_timestamp = False,
      members_begin = None, members_end = None, has_members = False\<rparr>"

definition changeset_locals :: "ext \<Rightarrow> buffer \<Rightarrow> changeset_state" where
  "changeset_locals X b =
     \<lparr>tags_begin = None, has_uid = False, has_user = False, has_tags = False,
      user = [], buf = b,
      has_num_changes = False, has_created_at = False, has_closed_at = False,
      has_num_comments = False,
      has_min_x = False, has_min_y = False, has_max_x = False,
      has_max_y = False, bbox = Box X\<rparr>"

text \<open>
  The cases \<open>v\<close>, \<open>d\<close>, \<open>c\<close>, \<open>t\<close>, \<open>i\<close>, \<open>u\<close> and \<open>T\<close> of the
  \<open>switch\<close>, which the node, way and relation parsers repeat word for word;
  \<open>None\<close> for another letter. \<open>i\<close> is the cursor behind the letter.
\<close>

definition object_attribute ::
  "ext \<Rightarrow> string \<Rightarrow> char \<Rightarrow> nat \<Rightarrow> 'a object_state_scheme
     \<Rightarrow> (opl_error + (nat \<times> 'a object_state_scheme)) option" where
  "object_attribute X s c i st =
     (if c = CHR ''v'' then Some
        (if has_version st then Inl (opl_error ''Duplicate attribute: version (v)'' None)
         else
           (case opl_parse_version X s i of
              Inl e \<Rightarrow> Inl e
            | Inr (v, j) \<Rightarrow>
                Inr (j, st\<lparr>has_version := True, buf := call (set_version v) (buf st)\<rparr>)))
      else if c = CHR ''d'' then Some
        (if has_visible st then Inl (opl_error ''Duplicate attribute: visible (d)'' None)
         else
           (case opl_parse_visible s i of
              Inl e \<Rightarrow> Inl e
            | Inr (v, j) \<Rightarrow>
                Inr (j, st\<lparr>has_visible := True, buf := call (set_visible v) (buf st)\<rparr>)))
      else if c = CHR ''c'' then Some
        (if has_changeset_id st
         then Inl (opl_error ''Duplicate attribute: changeset_id (c)'' None)
         else
           (case opl_parse_changeset_id X s i of
              Inl e \<Rightarrow> Inl e
            | Inr (v, j) \<Rightarrow>
                Inr (j, st\<lparr>has_changeset_id := True, buf := call (set_changeset v) (buf st)\<rparr>)))
      else if c = CHR ''t'' then Some
        (if has_timestamp st then Inl (opl_error ''Duplicate attribute: timestamp (t)'' None)
         else
           (case opl_parse_timestamp X s i of
              Inl e \<Rightarrow> Inl e
            | Inr (v, j) \<Rightarrow>
                Inr (j, st\<lparr>has_timestamp := True, buf := call (set_timestamp v) (buf st)\<rparr>)))
      else if c = CHR ''i'' then Some
        (if has_uid st then Inl (opl_error ''Duplicate attribute: uid (i)'' None)
         else
           (case opl_parse_uid X s i of
              Inl e \<Rightarrow> Inl e
            | Inr (v, j) \<Rightarrow>
                Inr (j, st\<lparr>has_uid := True, buf := call (set_uid v) (buf st)\<rparr>)))
      else if c = CHR ''u'' then Some
        (if has_user st then Inl (opl_error ''Duplicate attribute: user (u)'' None)
         else
           (case opl_parse_string s i (user st) of
              Inl e \<Rightarrow> Inl e
            | Inr (j, r) \<Rightarrow> Inr (j, st\<lparr>has_user := True, user := r\<rparr>)))
      else if c = CHR ''T'' then Some
        (if has_tags st then Inl (opl_error ''Duplicate attribute: tags (T)'' None)
         else if opl_non_empty s i
         then Inr (opl_skip_section s i, st\<lparr>has_tags := True, tags_begin := Some i\<rparr>)
         else Inr (i, st\<lparr>has_tags := True\<rparr>))
      else None)"

text \<open>The \<open>switch\<close> of \<open>opl_parse_node\<close>.\<close>

definition node_attribute ::
  "ext \<Rightarrow> string \<Rightarrow> char \<Rightarrow> nat \<Rightarrow> node_state \<Rightarrow> opl_error + (nat \<times> node_state)" where
  "node_attribute X s c i st =
     (case object_attribute X s c i st of
        Some r \<Rightarrow> r
      | None \<Rightarrow>
          if c = CHR ''x'' then
            (if has_lon st then Inl (opl_error ''Duplicate attribute: lon (x)'' None)
             else if opl_non_empty s i then
               (case set_lon_partial X s i (loc st) of
                  Inl e \<Rightarrow> Inl e
                | Inr (j, l) \<Rightarrow> Inr (j, st\<lparr>has_lon := True, loc := l\<rparr>))
             else Inr (i, st\<lparr>has_lon := True\<rparr>))
          else if c = CHR ''y'' then
            (if has_lat st then Inl (opl_error ''Duplicate attribute: lat (y)'' None)
             else if opl_non_empty s i then
               (case set_lat_partial X s i (loc st) of
                  Inl e \<Rightarrow> Inl e
                | Inr (j, l) \<Rightarrow> Inr (j, st\<lparr>has_lat := True, loc := l\<rparr>))
             else Inr (i, st\<lparr>has_lat := True\<rparr>))
          else Inl (opl_error ''unknown attribute'' (Some (i - 1))))"

text \<open>The \<open>switch\<close> of \<open>opl_parse_way\<close>.\<close>

definition way_attribute ::
  "ext \<Rightarrow> string \<Rightarrow> char \<Rightarrow> nat \<Rightarrow> way_state \<Rightarrow> opl_error + (nat \<times> way_state)" where
  "way_attribute X s c i st =
     (case object_attribute X s c i st of
        Some r \<Rightarrow> r
      | None \<Rightarrow>
          if c = CHR ''N'' then
            (if has_nodes st then Inl (opl_error ''Duplicate attribute: nodes (N)'' None)
             else
               (let j = opl_skip_section s i in
                Inr (j, st\<lparr>has_nodes := True, nodes_begin := Some i, nodes_end := Some j\<rparr>)))
          else Inl (opl_error ''unknown attribute'' (Some (i - 1))))"

text \<open>The \<open>switch\<close> of \<open>opl_parse_relation\<close>.\<close>

definition relation_attribute ::
  "ext \<Rightarrow> string \<Rightarrow> char \<Rightarrow> nat \<Rightarrow> relation_state
     \<Rightarrow> opl_error + (nat \<times> relation_state)" where
  "relation_attribute X s c i st =
     (case object_attribute X s c i st of
        Some r \<Rightarrow> r
      | None \<Rightarrow>
          if c = CHR ''M'' then
            (if has_members st then Inl (opl_error ''Duplicate attribute: members (M)'' None)
             else
               (let j = opl_skip_section s i in
                Inr (j, st\<lparr>has_members := True, members_begin := Some i,
                             members_end := Some j\<rparr>)))
          else Inl (opl_error ''unknown attribute'' (Some (i - 1))))"

text \<open>The \<open>switch\<close> of \<open>opl_parse_changeset\<close>.\<close>

definition changeset_attribute ::
  "ext \<Rightarrow> string \<Rightarrow> char \<Rightarrow> nat \<Rightarrow> changeset_state
     \<Rightarrow> opl_error + (nat \<times> changeset_state)" where
  "changeset_attribute X s c i st =
     (if c = CHR ''k'' then
        (if has_num_changes st
         then Inl (opl_error ''Duplicate attribute: num_changes (k)'' None)
         else
           (case opl_parse_int (num_changes_type X) s i of
              Inl e \<Rightarrow> Inl e
            | Inr (v, j) \<Rightarrow>
                Inr (j, st\<lparr>has_num_changes := True,
                             buf := call (set_num_changes v) (buf st)\<rparr>)))
      else if c = CHR ''s'' then
        (if has_created_at st
         then Inl (opl_error ''Duplicate attribute: created_at (s)'' None)
         else
           (case opl_parse_timestamp X s i of
              Inl e \<Rightarrow> Inl e
            | Inr (v, j) \<Rightarrow>
                Inr (j, st\<lparr>has_created_at := True,
                             buf := call (set_created_at v) (buf st)\<rparr>)))
      else if c = CHR ''e'' then
        (if has_closed_at st
         then Inl (opl_error ''Duplicate attribute: closed_at (e)'' None)
         else
           (case opl_parse_timestamp X s i of
              Inl e \<Rightarrow> Inl e
            | Inr (v, j) \<Rightarrow>
                Inr (j, st\<lparr>has_closed_at := True,
                             buf := call (set_closed_at v) (buf st)\<rparr>)))
      else if c = CHR ''d'' then
        (if has_num_comments st
         then Inl (opl_error ''Duplicate attribute: num_comments (d)'' None)
         else
           (case opl_parse_int (num_comments_type X) s i of
              Inl e \<Rightarrow> Inl e
            | Inr (v, j) \<Rightarrow>
                Inr (j, st\<lparr>has_num_comments := True,
                             buf := call (set_num_comments v) (buf st)\<rparr>)))
      else if c = CHR ''i'' then
        (if has_uid st then Inl (opl_error ''Duplicate attribute: uid (i)'' None)
         else
           (case opl_parse_uid X s i of
              Inl e \<Rightarrow> Inl e
            | Inr (v, j) \<Rightarrow>
                Inr (j, st\<lparr>has_uid := True, buf := call (set_uid v) (buf st)\<rparr>)))
      else if c = CHR ''u'' then
        (if has_user st then Inl (opl_error ''Duplicate attribute: user (u)'' None)
         else
           (case opl_parse_string s i (user st) of
              Inl e \<Rightarrow> Inl e
            | Inr (j, r) \<Rightarrow> Inr (j, st\<lparr>has_user := True, user := r\<rparr>)))
      else if c = CHR ''x'' then
        (if has_min_x st then Inl (opl_error ''Duplicate attribute: min_x (x)'' None)
         else if opl_non_empty s i then
           (case set_lon_partial X s i (bottom_left (bbox st)) of
              Inl e \<Rightarrow> Inl e
            | Inr (j, l) \<Rightarrow>
                Inr (j, st\<lparr>has_min_x := True, bbox := (bbox st)\<lparr>bottom_left := l\<rparr>\<rparr>))
         else Inr (i, st\<lparr>has_min_x := True\<rparr>))
      else if c = CHR ''y'' then
        (if has_min_y st then Inl (opl_error ''Duplicate attribute: min_y (y)'' None)
         else if opl_non_empty s i then
           (case set_lat_partial X s i (bottom_left (bbox st)) of
              Inl e \<Rightarrow> Inl e
            | Inr (j, l) \<Rightarrow>
                Inr (j, st\<lparr>has_min_y := True, bbox := (bbox st)\<lparr>bottom_left := l\<rparr>\<rparr>))
         else Inr (i, st\<lparr>has_min_y := True\<rparr>))
      else if c = CHR ''X'' then
        (if has_max_x st then Inl (opl_error ''Duplicate attribute: max_x (X)'' None)
         else if opl_non_empty s i then
           (case set_lon_partial X s i (top_right (bbox st)) of
              Inl e \<Rightarrow> Inl e
            | Inr (j, l) \<Rightarrow>
                Inr (j, st\<lparr>has_max_x := True, bbox := (bbox st)\<lparr>top_right := l\<rparr>\<rparr>))
         else Inr (i, st\<lparr>has_max_x := True\<rparr>))
      else if c = CHR ''Y'' then
        (if has_max_y st then Inl (opl_error ''Duplicate attribute: max_y (Y)'' None)
         else if opl_non_empty s i then
           (case set_lat_partial X s i (top_right (bbox st)) of
              Inl e \<Rightarrow> Inl e
            | Inr (j, l) \<Rightarrow>
                Inr (j, st\<lparr>has_max_y := True, bbox := (bbox st)\<lparr>top_right := l\<rparr>\<rparr>))
         else Inr (i, st\<lparr>has_max_y := True\<rparr>))
      else if c = CHR ''T'' then
        (if has_tags st then Inl (opl_error ''Duplicate attribute: tags (T)'' None)
         else if opl_non_empty s i
         then Inr (opl_skip_section s i, st\<lparr>has_tags := True, tags_begin := Some i\<rparr>)
         else Inr (i, st\<lparr>has_tags := True\<rparr>))
      else Inl (opl_error ''unknown attribute'' (Some (i - 1))))"

lemma opl_skip_section_mono: "i \<le> opl_skip_section s i"
proof (induction s i rule: opl_skip_section.induct)
  case (1 s i)
  then show ?case
    unfolding opl_skip_section.simps [of s i] by (auto split: if_splits)
qed

lemma opl_parse_visible_mono: "opl_parse_visible s i = Inr (v, j) \<Longrightarrow> i \<le> j"
  by (auto simp: opl_parse_visible_def split: if_splits)

lemma opl_parse_timestamp_mono: "opl_parse_timestamp X s i = Inr (v, j) \<Longrightarrow> i \<le> j"
  by (auto simp: opl_parse_timestamp_def split: if_splits)

lemmas scanner_mono =
  opl_parse_int_mono opl_parse_visible_mono opl_parse_timestamp_mono
  opl_parse_string_mono set_lon_partial_mono set_lat_partial_mono

lemma object_attribute_mono:
  "object_attribute X s c i st = Some (Inr (j, st')) \<Longrightarrow> i \<le> j"
  unfolding object_attribute_def opl_parse_version_def opl_parse_changeset_id_def
    opl_parse_uid_def
  by (auto split: if_splits sum.splits dest: scanner_mono simp: opl_skip_section_mono)

lemma node_attribute_mono: "node_attribute X s c i st = Inr (j, st') \<Longrightarrow> i \<le> j"
  unfolding node_attribute_def
  by (auto split: if_splits sum.splits option.splits
      dest: scanner_mono object_attribute_mono)

lemma way_attribute_mono: "way_attribute X s c i st = Inr (j, st') \<Longrightarrow> i \<le> j"
  unfolding way_attribute_def
  by (auto split: if_splits sum.splits option.splits simp: Let_def opl_skip_section_mono
      dest: object_attribute_mono)

lemma relation_attribute_mono: "relation_attribute X s c i st = Inr (j, st') \<Longrightarrow> i \<le> j"
  unfolding relation_attribute_def
  by (auto split: if_splits sum.splits option.splits simp: Let_def opl_skip_section_mono
      dest: object_attribute_mono)

lemma changeset_attribute_mono: "changeset_attribute X s c i st = Inr (j, st') \<Longrightarrow> i \<le> j"
  unfolding changeset_attribute_def opl_parse_uid_def
  by (auto split: if_splits sum.splits dest: scanner_mono simp: opl_skip_section_mono)

lemma opl_parse_space_loop_mono: "i < opl_parse_space_loop s i"
proof (induction s i rule: opl_parse_space_loop.induct)
  case (1 s i)
  then show ?case
    unfolding opl_parse_space_loop.simps [of s i]
    by (auto simp: Let_def split: if_splits)
qed

lemma opl_parse_space_mono: "opl_parse_space s i = Inr j \<Longrightarrow> i < j"
  by (auto simp: opl_parse_space_def opl_parse_space_loop_mono split: if_splits)

lemma peek_less: "peek s i \<noteq> NUL \<Longrightarrow> i < length s"
  by (auto simp: peek_def split: if_splits)

text \<open>
  In every case of a \<open>switch\<close> the call on the builder is the last action, behind
  the scanner that can throw; so a throw inside an iteration of the attribute loop
  leaves the sink as it was when the iteration began.
\<close>

text \<open>The \<open>while (**data)\<close> loop of \<open>opl_parse_node\<close>.\<close>

function opl_parse_node_loop ::
  "ext \<Rightarrow> string \<Rightarrow> nat \<Rightarrow> node_state \<Rightarrow> (opl_error \<times> buffer) + (nat \<times> node_state)" where
  "opl_parse_node_loop X s i st =
     (if peek s i \<noteq> NUL then
        (case opl_parse_space s i of
           Inl e \<Rightarrow> Inl (e, buf st)
         | Inr j \<Rightarrow>
             (let c = peek s j in
              if c = NUL then Inr (j, st)
              else
                (case node_attribute X s c (Suc j) st of
                   Inl e \<Rightarrow> Inl (e, buf st)
                 | Inr (k, st') \<Rightarrow> opl_parse_node_loop X s k st')))
      else Inr (i, st))"
  by pat_completeness auto
termination
proof (relation "measure (\<lambda>(X, s, i, st). length s - i)", goal_cases)
  case 1
  show ?case by simp
next
  case (2 X s i st j c x2 k st')
  from 2(1) have "i < length s" by (rule peek_less)
  moreover from 2(2) have "i < j" by (rule opl_parse_space_mono)
  moreover from 2 have "Suc j \<le> k" by (auto dest: node_attribute_mono)
  ultimately show ?case by simp
qed

declare opl_parse_node_loop.simps [simp del]

definition opl_parse_node ::
  "ext \<Rightarrow> string \<Rightarrow> nat \<Rightarrow> buffer \<Rightarrow> (opl_error \<times> buffer) + (nat \<times> buffer)" where
  "opl_parse_node X s i b =
     (let b0 = call NodeBuilder b in
      case opl_parse_id X s i of
        Inl e \<Rightarrow> Inl (e, b0)
      | Inr (v, i1) \<Rightarrow>
          (case opl_parse_node_loop X s i1
                  (node_locals X (call (set_id v) b0)) of
             Inl eb \<Rightarrow> Inl eb
           | Inr (i2, st) \<Rightarrow>
               (let b1 = (if valid X (loc st) then call (set_location (loc st)) (buf st)
                          else buf st);
                    b2 = call (set_user (user st)) b1
                in case tags_begin st of
                     None \<Rightarrow> Inr (i2, b2)
                   | Some t \<Rightarrow>
                       (case opl_parse_tags s t b2 of
                          Inl eb \<Rightarrow> Inl eb
                        | Inr b3 \<Rightarrow> Inr (i2, b3)))))"

text \<open>The \<open>while (**data)\<close> loop of \<open>opl_parse_way\<close>.\<close>

function opl_parse_way_loop ::
  "ext \<Rightarrow> string \<Rightarrow> nat \<Rightarrow> way_state \<Rightarrow> (opl_error \<times> buffer) + (nat \<times> way_state)" where
  "opl_parse_way_loop X s i st =
     (if peek s i \<noteq> NUL then
        (case opl_parse_space s i of
           Inl e \<Rightarrow> Inl (e, buf st)
         | Inr j \<Rightarrow>
             (let c = peek s j in
              if c = NUL then Inr (j, st)
              else
                (case way_attribute X s c (Suc j) st of
                   Inl e \<Rightarrow> Inl (e, buf st)
                 | Inr (k, st') \<Rightarrow> opl_parse_way_loop X s k st')))
      else Inr (i, st))"
  by pat_completeness auto
termination
proof (relation "measure (\<lambda>(X, s, i, st). length s - i)", goal_cases)
  case 1
  show ?case by simp
next
  case (2 X s i st j c x2 k st')
  from 2(1) have "i < length s" by (rule peek_less)
  moreover from 2(2) have "i < j" by (rule opl_parse_space_mono)
  moreover from 2 have "Suc j \<le> k" by (auto dest: way_attribute_mono)
  ultimately show ?case by simp
qed

declare opl_parse_way_loop.simps [simp del]

text \<open>
  \<open>nodes_begin\<close> and \<open>nodes_end\<close> are set together: either both are null, and
  then \<open>opl_parse_way_nodes\<close> returns at once since they are equal, or both point
  into the line.
\<close>

definition opl_parse_way ::
  "ext \<Rightarrow> string \<Rightarrow> nat \<Rightarrow> buffer \<Rightarrow> (opl_error \<times> buffer) + (nat \<times> buffer)" where
  "opl_parse_way X s i b =
     (let b0 = call WayBuilder b in
      case opl_parse_id X s i of
        Inl e \<Rightarrow> Inl (e, b0)
      | Inr (v, i1) \<Rightarrow>
          (case opl_parse_way_loop X s i1
                  (way_locals (call (set_id v) b0)) of
             Inl eb \<Rightarrow> Inl eb
           | Inr (i2, st) \<Rightarrow>
               (let b1 = call (set_user (user st)) (buf st) in
                case (case tags_begin st of
                        None \<Rightarrow> Inr b1
                      | Some t \<Rightarrow> opl_parse_tags s t b1) of
                  Inl eb \<Rightarrow> Inl eb
                | Inr b2 \<Rightarrow>
                    (case (nodes_begin st, nodes_end st) of
                       (Some nb, Some ne) \<Rightarrow>
                         (case opl_parse_way_nodes X s nb ne b2 of
                            Inl eb \<Rightarrow> Inl eb
                          | Inr b3 \<Rightarrow> Inr (i2, b3))
                     | _ \<Rightarrow> Inr (i2, b2)))))"

text \<open>The \<open>while (**data)\<close> loop of \<open>opl_parse_relation\<close>.\<close>

function opl_parse_relation_loop ::
  "ext \<Rightarrow> string \<Rightarrow> nat \<Rightarrow> relation_state \<Rightarrow> (opl_error \<times> buffer) + (nat \<times> relation_state)" where
  "opl_parse_relation_loop X s i st =
     (if peek s i \<noteq> NUL then
        (case opl_parse_space s i of
           Inl e \<Rightarrow> Inl (e, buf st)
         | Inr j \<Rightarrow>
             (let c = peek s j in
              if c = NUL then Inr (j, st)
              else
                (case relation_attribute X s c (Suc j) st of
                   Inl e \<Rightarrow> Inl (e, buf st)
                 | Inr (k, st') \<Rightarrow> opl_parse_relation_loop X s k st')))
      else Inr (i, st))"
  by pat_completeness auto
termination
proof (relation "measure (\<lambda>(X, s, i, st). length s - i)", goal_cases)
  case 1
  show ?case by simp
next
  case (2 X s i st j c x2 k st')
  from 2(1) have "i < length s" by (rule peek_less)
  moreover from 2(2) have "i < j" by (rule opl_parse_space_mono)
  moreover from 2 have "Suc j \<le> k" by (auto dest: relation_attribute_mono)
  ultimately show ?case by simp
qed

declare opl_parse_relation_loop.simps [simp del]

definition opl_parse_relation ::
  "ext \<Rightarrow> string \<Rightarrow> nat \<Rightarrow> buffer \<Rightarrow> (opl_error \<times> buffer) + (nat \<times> buffer)" where
  "opl_parse_relation X s i b =
     (let b0 = call RelationBuilder b in
      case opl_parse_id X s i of
        Inl e \<Rightarrow> Inl (e, b0)
      | Inr (v, i1) \<Rightarrow>
          (case opl_parse_relation_loop X s i1
                  (relation_locals (call (set_id v) b0)) of
             Inl eb \<Rightarrow> Inl eb
           | Inr (i2, st) \<Rightarrow>
               (let b1 = call (set_user (user st)) (buf st) in
                case (case tags_begin st of
                        None \<Rightarrow> Inr b1
                      | Some t \<Rightarrow> opl_parse_tags s t b1) of
                  Inl eb \<Rightarrow> Inl eb
                | Inr b2 \<Rightarrow>
                    if members_begin st \<noteq> members_end st then
                      (case (members_begin st, members_end st) of
                         (Some mb, Some me) \<Rightarrow>
                           (case opl_parse_relation_members X s mb me b2 of
                              Inl eb \<Rightarrow> Inl eb
                            | Inr b3 \<Rightarrow> Inr (i2, b3))
                       | _ \<Rightarrow> Inr (i2, b2))
                    else Inr (i2, b2))))"

text \<open>The \<open>while (**data)\<close> loop of \<open>opl_parse_changeset\<close>.\<close>

function opl_parse_changeset_loop ::
  "ext \<Rightarrow> string \<Rightarrow> nat \<Rightarrow> changeset_state \<Rightarrow> (opl_error \<times> buffer) + (nat \<times> changeset_state)" where
  "opl_parse_changeset_loop X s i st =
     (if peek s i \<noteq> NUL then
        (case opl_parse_space s i of
           Inl e \<Rightarrow> Inl (e, buf st)
         | Inr j \<Rightarrow>
             (let c = peek s j in
              if c = NUL then Inr (j, st)
              else
                (case changeset_attribute X s c (Suc j) st of
                   Inl e \<Rightarrow> Inl (e, buf st)
                 | Inr (k, st') \<Rightarrow> opl_parse_changeset_loop X s k st')))
      else Inr (i, st))"
  by pat_completeness auto
termination
proof (relation "measure (\<lambda>(X, s, i, st). length s - i)", goal_cases)
  case 1
  show ?case by simp
next
  case (2 X s i st j c x2 k st')
  from 2(1) have "i < length s" by (rule peek_less)
  moreover from 2(2) have "i < j" by (rule opl_parse_space_mono)
  moreover from 2 have "Suc j \<le> k" by (auto dest: changeset_attribute_mono)
  ultimately show ?case by simp
qed

declare opl_parse_changeset_loop.simps [simp del]

definition opl_parse_changeset ::
  "ext \<Rightarrow> string \<Rightarrow> nat \<Rightarrow> buffer \<Rightarrow> (opl_error \<times> buffer) + (nat \<times> buffer)" where
  "opl_parse_changeset X s i b =
     (let b0 = call ChangesetBuilder b in
      case opl_parse_changeset_id X s i of
        Inl e \<Rightarrow> Inl (e, b0)
      | Inr (v, i1) \<Rightarrow>
          (case opl_parse_changeset_loop X s i1
                  (changeset_locals X (call (set_id v) b0)) of
             Inl eb \<Rightarrow> Inl eb
           | Inr (i2, st) \<Rightarrow>
               (let b1 = call (set_bounds (bbox st)) (buf st);
                    b2 = call (set_user (user st)) b1
                in case tags_begin st of
                     None \<Rightarrow> Inr (i2, b2)
                   | Some t \<Rightarrow>
                       (case opl_parse_tags s t b2 of
                          Inl eb \<Rightarrow> Inl eb
                        | Inr b3 \<Rightarrow> Inr (i2, b3)))))"

subsection \<open>The line dispatcher\<close>

text \<open>
  The \<open>try\<close> block of \<open>opl_parse_line\<close> with the \<open>return false\<close> behind it:
  the result is the returned flag, or the \<open>opl_error\<close> as it was thrown.
  The cursor \<open>data\<close> starts at \<open>start_of_line\<close>, which is index 0.
\<close>

definition opl_parse_line_try ::
  "ext \<Rightarrow> string \<Rightarrow> buffer \<Rightarrow> entity_bit set \<Rightarrow> (opl_error \<times> buffer) + (bool \<times> buffer)" where
  "opl_parse_line_try X s buffer read_types =
     (let c = peek s 0 in
      if c = NUL then Inr (False, buffer)
      else if c = CHR ''#'' then Inr (False, buffer)
      else if c = CHR ''n'' then
        (if node_bit \<in> read_types then
           (case opl_parse_node X s (Suc 0) buffer of
              Inl eb \<Rightarrow> Inl eb
            | Inr (i, b) \<Rightarrow> Inr (True, commit b))
         else Inr (False, buffer))
      else if c = CHR ''w'' then
        (if way_bit \<in> read_types then
           (case opl_parse_way X s (Suc 0) buffer of
              Inl eb \<Rightarrow> Inl eb
            | Inr (i, b) \<Rightarrow> Inr (True, commit b))
         else Inr (False, buffer))
      else if c = CHR ''r'' then
        (if relation_bit \<in> read_types then
           (case opl_parse_relation X s (Suc 0) buffer of
              Inl eb \<Rightarrow> Inl eb
            | Inr (i, b) \<Rightarrow> Inr (True, commit b))
         else Inr (False, buffer))
      else if c = CHR ''c'' then
        (if changeset_bit \<in> read_types then
           (case opl_parse_changeset X s (Suc 0) buffer of
              Inl eb \<Rightarrow> Inl eb
            | Inr (i, b) \<Rightarrow> Inr (True, commit b))
         else Inr (False, buffer))
      else Inl (opl_error ''unknown type'' (Some 0), buffer))"

text \<open>
  \<open>opl_parse_line\<close>: the \<open>catch\<close> clause sets the position of the error and throws
  it again.
\<close>

definition opl_parse_line ::
  "ext \<Rightarrow> nat \<Rightarrow> string \<Rightarrow> buffer \<Rightarrow> entity_bit set
     \<Rightarrow> (opl_error \<times> buffer) + (bool \<times> buffer)" where
  "opl_parse_line X line_count s buffer read_types =
     (case opl_parse_line_try X s buffer read_types of
        Inl (e, b) \<Rightarrow>
          Inl (set_pos line_count (case data e of Some d \<Rightarrow> d - 0 | None \<Rightarrow> 0) e, b)
      | Inr r \<Rightarrow> Inr r)"

subsection \<open>An instance of the parts outside this file\<close>

text \<open>The value of a run of decimal digits.\<close>

definition is_digit :: "char \<Rightarrow> bool" where
  "is_digit c = (CHR ''0'' \<le> c \<and> c \<le> CHR ''9'')"

definition decimal :: "string \<Rightarrow> nat" where
  "decimal ds = foldl (\<lambda>a c. 10 * a + (of_char c - of_char CHR ''0'')) 0 ds"

text \<open>
  Modelled from the spec: a timestamp is exactly 20 ASCII bytes in ISO-8601 form
  with a \<open>Z\<close>, as in \<open>2016-03-04T12:34:56Z\<close>.
\<close>

definition iso_timestamp :: "string \<Rightarrow> bool" where
  "iso_timestamp t =
     (20 \<le> length t
      \<and> list_all is_digit (take 4 t) \<and> t ! 4 = CHR ''-''
      \<and> list_all is_digit (take 2 (drop 5 t)) \<and> t ! 7 = CHR ''-''
      \<and> list_all is_digit (take 2 (drop 8 t)) \<and> t ! 10 = CHR ''T''
      \<and> list_all is_digit (take 2 (drop 11 t)) \<and> t ! 13 = CHR '':''
      \<and> list_all is_digit (take 2 (drop 14 t)) \<and> t ! 16 = CHR '':''
      \<and> list_all is_digit (take 2 (drop 17 t)) \<and> t ! 19 = CHR ''Z'')"

text \<open>
  Modelled from the spec: a coordinate is a signed decimal with up to seven
  fractional digits, scaled by \<open>10\<^sup>7\<close> into a fixed-point integer; the scanner
  consumes the sign and the digits, and a malformed number is a positional failure.
\<close>

definition decimal_coordinate :: "string \<Rightarrow> nat \<Rightarrow> opl_error + (int \<times> nat)" where
  "decimal_coordinate s i =
     (let negative = (peek s i = CHR ''-'');
          i1 = (if negative then Suc i else i);
          whole = takeWhile is_digit (drop i1 s);
          i2 = i1 + length whole;
          frac = (if peek s i2 = CHR ''.'' then takeWhile is_digit (drop (Suc i2) s) else []);
          i3 = (if peek s i2 = CHR ''.'' then Suc i2 + length frac else i2);
          v = int (decimal whole * 10 ^ 7 + decimal frac * 10 ^ (7 - length frac))
      in if whole = [] then Inl (opl_error ''wrong format for coordinate'' (Some i1))
         else if 7 < length frac
         then Inl (opl_error ''wrong format for coordinate'' (Some (Suc i2 + 7)))
         else Inr (if negative then - v else v, i3 - i))"

text \<open>
  Modelled from the spec: the object id is a signed 64-bit integer; version, user id,
  changeset id and the two counters are small unsigned integers, 32 bits wide
  here; a location is valid if both coordinates are present; the default sentinel
  of a coordinate, whose value the spec leaves open, is the largest \<open>int32_t\<close>.
\<close>

definition osmium_ext :: ext where
  "osmium_ext =
     \<lparr>object_id_type = Signed_int 64,
      changeset_id_type = Unsigned_int 32,
      object_version_type = Unsigned_int 32,
      user_id_type = Unsigned_int 32,
      num_changes_type = Unsigned_int 32,
      num_comments_type = Unsigned_int 32,
      timestamp_valid = iso_timestamp,
      str_to_coordinate = decimal_coordinate,
      undefined_coordinate = 2147483647,
      valid = (\<lambda>l. m_x l \<noteq> 2147483647 \<and> m_y l \<noteq> 2147483647)\<rparr>"

definition empty_buffer :: buffer where
  "empty_buffer = \<lparr>committed = [], written = []\<rparr>"

subsection \<open>The attribute letters and their flags\<close>

text \<open>
  The error a \<open>switch\<close> throws when it meets a letter whose flag is set, and, for
  each entity parser, the flag and the name that its \<open>switch\<close> gives to a letter.
\<close>

definition duplicate_attribute :: "string \<Rightarrow> char \<Rightarrow> opl_error" where
  "duplicate_attribute name c =
     opl_error (''Duplicate attribute: '' @ name @ '' ('' @ [c] @ '')'') None"

definition object_flag ::
  "char \<Rightarrow> (('a object_state_scheme \<Rightarrow> bool) \<times> string) option" where
  "object_flag c =
     (if c = CHR ''v'' then Some (has_version, ''version'')
      else if c = CHR ''d'' then Some (has_visible, ''visible'')
      else if c = CHR ''c'' then Some (has_changeset_id, ''changeset_id'')
      else if c = CHR ''t'' then Some (has_timestamp, ''timestamp'')
      else if c = CHR ''i'' then Some (has_uid, ''uid'')
      else if c = CHR ''u'' then Some (has_user, ''user'')
      else if c = CHR ''T'' then Some (has_tags, ''tags'')
      else None)"

definition node_flag :: "char \<Rightarrow> ((node_state \<Rightarrow> bool) \<times> string) option" where
  "node_flag c =
     (if c = CHR ''x'' then Some (has_lon, ''lon'')
      else if c = CHR ''y'' then Some (has_lat, ''lat'')
      else object_flag c)"

definition way_flag :: "char \<Rightarrow> ((way_state \<Rightarrow> bool) \<times> string) option" where
  "way_flag c = (if c = CHR ''N'' then Some (has_nodes, ''nodes'') else object_flag c)"

definition relation_flag :: "char \<Rightarrow> ((relation_state \<Rightarrow> bool) \<times> string) option" where
  "relation_flag c = (if c = CHR ''M'' then Some (has_members, ''members'') else object_flag c)"

definition changeset_flag :: "char \<Rightarrow> ((changeset_state \<Rightarrow> bool) \<times> string) option" where
  "changeset_flag c =
     (if c = CHR ''k'' then Some (has_num_changes, ''num_changes'')
      else if c = CHR ''s'' then Some (has_created_at, ''created_at'')
      else if c = CHR ''e'' then Some (has_closed_at, ''closed_at'')
      else if c = CHR ''d'' then Some (has_num_comments, ''num_comments'')
      else if c = CHR ''i'' then Some (has_uid, ''uid'')
      else if c = CHR ''u'' then Some (has_user, ''user'')
      else if c = CHR ''x'' then Some (has_min_x, ''min_x'')
      else if c = CHR ''y'' then Some (has_min_y, ''min_y'')
      else if c = CHR ''X'' then Some (has_max_x, ''max_x'')
      else if c = CHR ''Y'' then Some (has_max_y, ''max_y'')
      else if c = CHR ''T'' then Some (has_tags, ''tags'')
      else None)"

subsection \<open>The attributes read by an entity parser\<close>

text \<open>
  \<open>scanned attribute s i st cs k st'\<close>: from the cursor \<open>i\<close> and the locals
  \<open>st\<close>, the \<open>while (**data)\<close> loop of an entity parser whose \<open>switch\<close> is
  \<open>attribute\<close> runs through attributes with the letters \<open>cs\<close>, each after
  white space and none of them failing, and then stands at the cursor \<open>k\<close>
  with the locals \<open>st'\<close>.
\<close>

inductive scanned ::
  "(char \<Rightarrow> nat \<Rightarrow> 'st \<Rightarrow> opl_error + (nat \<times> 'st)) \<Rightarrow> string
     \<Rightarrow> nat \<Rightarrow> 'st \<Rightarrow> char list \<Rightarrow> nat \<Rightarrow> 'st \<Rightarrow> bool"
  for attribute :: "char \<Rightarrow> nat \<Rightarrow> 'st \<Rightarrow> opl_error + (nat \<times> 'st)" and s :: string where
  scanned_none: "scanned attribute s i st [] i st"
| scanned_more:
    "peek s i \<noteq> NUL \<Longrightarrow> opl_parse_space s i = Inr j \<Longrightarrow> peek s j \<noteq> NUL \<Longrightarrow>
     attribute (peek s j) (Suc j) st = Inr (k, st') \<Longrightarrow>
     scanned attribute s k st' cs k' st'' \<Longrightarrow>
     scanned attribute s i st (peek s j # cs) k' st''"

code_pred scanned .

subsection \<open>The calls that set a position\<close>

text \<open>
  The calls \<open>set_location\<close> and \<open>set_bounds\<close> among the calls written to the
  sink since the last commit.
\<close>

fun is_position_call :: "builder_call \<Rightarrow> bool" where
  "is_position_call (set_location l) = True"
| "is_position_call (set_bounds bx) = True"
| "is_position_call c = False"

definition position_calls :: "buffer \<Rightarrow> builder_call list" where
  "position_calls b = filter is_position_call (written b)"

subsection \<open>Runs of hexadecimal digits\<close>

text \<open>
  The hexadecimal digits that \<open>opl_parse_escaped\<close> accepts, the value it adds for
  a digit, and the number that a run of digits names.
\<close>

definition is_hex :: "char \<Rightarrow> bool" where
  "is_hex c =
     (CHR ''0'' \<le> c \<and> c \<le> CHR ''9'' \<or> CHR ''a'' \<le> c \<and> c \<le> CHR ''f''
      \<or> CHR ''A'' \<le> c \<and> c \<le> CHR ''F'')"

definition hex_value :: "char \<Rightarrow> nat" where
  "hex_value c =
     (if CHR ''0'' \<le> c \<and> c \<le> CHR ''9'' then of_char c - of_char CHR ''0''
      else if CHR ''a'' \<le> c \<and> c \<le> CHR ''f'' then of_char c - of_char CHR ''a'' + 10
      else of_char c - of_char CHR ''A'' + 10)"

definition hexadecimal :: "string \<Rightarrow> nat" where
  "hexadecimal ds = foldl (\<lambda>a c. 16 * a + hex_value c) 0 ds"

subsection \<open>Strings and their escaped encoding\<close>

text \<open>
  The bytes at which \<open>opl_parse_string\<close> stops, and the bytes it copies.
\<close>

definition terminator :: "char \<Rightarrow> bool" where
  "terminator c =
     (c = NUL \<or> c = CHR '' '' \<or> c = TAB \<or> c = CHR '','' \<or> c = CHR ''='')"

definition plain :: "char \<Rightarrow> bool" where
  "plain c = (\<not> terminator c \<and> c \<noteq> CHR ''%'')"

text \<open>
  Modelled from the spec: the OPL-escaped encoding of a Unicode string, which the
  writer of the format produces and which is not among the sources. A string is
  its code points. Following the spec, NUL, tab, space, \<open>%\<close>, \<open>,\<close> and
  \<open>=\<close> are reserved; a code point is written either as its UTF-8 bytes, if it
  is not reserved, or as \<open>%HEX%\<close>, \<open>HEX\<close> being 1 to 8 hexadecimal digits
  that name it, in either case of the letters and with any number of leading
  zeros. An encoding is the list of its pieces, one for each code point, and
  \<open>opl_encoding ps u\<close> says that \<open>ps\<close> is an encoding of the string \<open>u\<close>.
  The string itself is the UTF-8 encoding of its code points.
\<close>

datatype escaped = Verbatim nat | Percent string

definition reserved :: "nat \<Rightarrow> bool" where
  "reserved cp = (cp \<in> {0, 9, 32, 37, 44, 61})"

fun codepoint :: "escaped \<Rightarrow> nat" where
  "codepoint (Verbatim cp) = cp"
| "codepoint (Percent ds) = hexadecimal ds"

fun escaped_ok :: "escaped \<Rightarrow> bool" where
  "escaped_ok (Verbatim cp) = (cp < 0x110000 \<and> \<not> reserved cp)"
| "escaped_ok (Percent ds) =
     (1 \<le> length ds \<and> length ds \<le> 8 \<and> list_all is_hex ds \<and> hexadecimal ds < 0x110000)"

fun escaped_bytes :: "escaped \<Rightarrow> string" where
  "escaped_bytes (Verbatim cp) = append_codepoint_as_utf8 (of_nat cp)"
| "escaped_bytes (Percent ds) = CHR ''%'' # ds @ ''%''"

definition opl_escaped :: "escaped list \<Rightarrow> string" where
  "opl_escaped ps = concat (map escaped_bytes ps)"

definition opl_encoding :: "escaped list \<Rightarrow> nat list \<Rightarrow> bool" where
  "opl_encoding ps u = (list_all escaped_ok ps \<and> map codepoint ps = u)"

text \<open>The number of hexadecimal digits of a piece.\<close>

fun hex_length :: "escaped \<Rightarrow> nat" where
  "hex_length (Verbatim cp) = 0"
| "hex_length (Percent ds) = length ds"

definition utf8_string :: "nat list \<Rightarrow> string" where
  "utf8_string u = concat (map (\<lambda>cp. append_codepoint_as_utf8 (of_nat cp)) u)"

section \<open>Properties\<close>

subsection \<open>What a line commits\<close>

lemma to_string_0: "to_string 0 = ''0''"
  by (simp add: to_string.simps char_of_eq_iff)

lemma committed_call [simp]: "committed (call c b) = committed b"
  by (simp add: call_def)

lemma buf_locals [simp]:
  "buf (node_locals X b) = b" "buf (way_locals b) = b"
  "buf (relation_locals b) = b" "buf (changeset_locals X b) = b"
  by (simp_all add: node_locals_def way_locals_def relation_locals_def changeset_locals_def)

lemma opl_parse_tags_loop_committed:
  "(opl_parse_tags_loop s i b = Inl (e, b') \<longrightarrow> committed b' = committed b) \<and>
   (opl_parse_tags_loop s i b = Inr b' \<longrightarrow> committed b' = committed b)"
proof (induction s i b rule: opl_parse_tags_loop.induct)
  case (1 s i buf)
  note IH = 1 [OF _ refl _ _ refl refl]
  show ?case
    unfolding opl_parse_tags_loop.simps [of s i buf]
    using IH by (auto split: sum.splits simp: Let_def)
qed

lemma opl_parse_tags_committed:
  "(opl_parse_tags s i b = Inl (e, b') \<longrightarrow> committed b' = committed b) \<and>
   (opl_parse_tags s i b = Inr b' \<longrightarrow> committed b' = committed b)"
  using opl_parse_tags_loop_committed [of s i "call TagListBuilder b" e b']
  by (simp add: opl_parse_tags_def)

lemma opl_parse_way_nodes_loop_committed:
  "(opl_parse_way_nodes_loop X s i en b = Inl (e, b') \<longrightarrow> committed b' = committed b) \<and>
   (opl_parse_way_nodes_loop X s i en b = Inr b' \<longrightarrow> committed b' = committed b)"
proof (induction X s i en b rule: opl_parse_way_nodes_loop.induct)
  case (1 X s i en buf)
  note IH = 1 [OF _ _ _ _ refl _ _ refl refl]
  show ?case
    unfolding opl_parse_way_nodes_loop.simps [of X s i en buf]
    using IH by (auto split: sum.splits simp: Let_def)
qed

lemma opl_parse_way_nodes_committed:
  "(opl_parse_way_nodes X s i en b = Inl (e, b') \<longrightarrow> committed b' = committed b) \<and>
   (opl_parse_way_nodes X s i en b = Inr b' \<longrightarrow> committed b' = committed b)"
  using opl_parse_way_nodes_loop_committed [of X s i en "call WayNodeListBuilder b" e b']
  by (simp add: opl_parse_way_nodes_def)

lemma opl_parse_relation_members_loop_committed:
  "(opl_parse_relation_members_loop X s i en b = Inl (e, b') \<longrightarrow> committed b' = committed b) \<and>
   (opl_parse_relation_members_loop X s i en b = Inr b' \<longrightarrow> committed b' = committed b)"
proof (induction X s i en b rule: opl_parse_relation_members_loop.induct)
  case (1 X s i en buf)
  note IH = 1 [OF _ refl _ refl _ _ refl _ _ _ refl refl]
  show ?case
    unfolding opl_parse_relation_members_loop.simps [of X s i en buf]
    using IH by (auto split: sum.splits simp: Let_def)
qed

lemma opl_parse_relation_members_committed:
  "(opl_parse_relation_members X s i en b = Inl (e, b') \<longrightarrow> committed b' = committed b) \<and>
   (opl_parse_relation_members X s i en b = Inr b' \<longrightarrow> committed b' = committed b)"
  using opl_parse_relation_members_loop_committed
          [of X s i en "call RelationMemberListBuilder b" e b']
  by (simp add: opl_parse_relation_members_def)

lemma object_attribute_committed:
  "object_attribute X s c i st = Some (Inr (j, st')) \<Longrightarrow>
     committed (buf st') = committed (buf st)"
  unfolding object_attribute_def
  by (auto split: if_splits sum.splits)

lemma node_attribute_committed:
  "node_attribute X s c i st = Inr (j, st') \<Longrightarrow> committed (buf st') = committed (buf st)"
  unfolding node_attribute_def
  by (auto split: if_splits sum.splits option.splits dest: object_attribute_committed)

lemma way_attribute_committed:
  "way_attribute X s c i st = Inr (j, st') \<Longrightarrow> committed (buf st') = committed (buf st)"
  unfolding way_attribute_def
  by (auto split: if_splits sum.splits option.splits simp: Let_def
      dest: object_attribute_committed)

lemma relation_attribute_committed:
  "relation_attribute X s c i st = Inr (j, st') \<Longrightarrow> committed (buf st') = committed (buf st)"
  unfolding relation_attribute_def
  by (auto split: if_splits sum.splits option.splits simp: Let_def
      dest: object_attribute_committed)

lemma changeset_attribute_committed:
  "changeset_attribute X s c i st = Inr (j, st') \<Longrightarrow> committed (buf st') = committed (buf st)"
  unfolding changeset_attribute_def
  by (auto split: if_splits sum.splits)

lemma opl_parse_node_loop_committed:
  "(opl_parse_node_loop X s i st = Inl (e, b') \<longrightarrow> committed b' = committed (buf st)) \<and>
   (opl_parse_node_loop X s i st = Inr (j, st') \<longrightarrow> committed (buf st') = committed (buf st))"
proof (induction X s i st rule: opl_parse_node_loop.induct)
  case (1 X s i st)
  note IH = 1 [OF _ _ refl _ _ refl]
  show ?case
    unfolding opl_parse_node_loop.simps [of X s i st]
    using IH by (auto split: sum.splits simp: Let_def dest: node_attribute_committed)
qed

lemma opl_parse_way_loop_committed:
  "(opl_parse_way_loop X s i st = Inl (e, b') \<longrightarrow> committed b' = committed (buf st)) \<and>
   (opl_parse_way_loop X s i st = Inr (j, st') \<longrightarrow> committed (buf st') = committed (buf st))"
proof (induction X s i st rule: opl_parse_way_loop.induct)
  case (1 X s i st)
  note IH = 1 [OF _ _ refl _ _ refl]
  show ?case
    unfolding opl_parse_way_loop.simps [of X s i st]
    using IH by (auto split: sum.splits simp: Let_def dest: way_attribute_committed)
qed

lemma opl_parse_relation_loop_committed:
  "(opl_parse_relation_loop X s i st = Inl (e, b') \<longrightarrow> committed b' = committed (buf st)) \<and>
   (opl_parse_relation_loop X s i st = Inr (j, st') \<longrightarrow> committed (buf st') = committed (buf st))"
proof (induction X s i st rule: opl_parse_relation_loop.induct)
  case (1 X s i st)
  note IH = 1 [OF _ _ refl _ _ refl]
  show ?case
    unfolding opl_parse_relation_loop.simps [of X s i st]
    using IH by (auto split: sum.splits simp: Let_def dest: relation_attribute_committed)
qed

lemma opl_parse_changeset_loop_committed:
  "(opl_parse_changeset_loop X s i st = Inl (e, b') \<longrightarrow> committed b' = committed (buf st)) \<and>
   (opl_parse_changeset_loop X s i st = Inr (j, st') \<longrightarrow> committed (buf st') = committed (buf st))"
proof (induction X s i st rule: opl_parse_changeset_loop.induct)
  case (1 X s i st)
  note IH = 1 [OF _ _ refl _ _ refl]
  show ?case
    unfolding opl_parse_changeset_loop.simps [of X s i st]
    using IH by (auto split: sum.splits simp: Let_def dest: changeset_attribute_committed)
qed

lemma opl_parse_node_committed:
  "(opl_parse_node X s i b = Inl (e, b') \<longrightarrow> committed b' = committed b) \<and>
   (opl_parse_node X s i b = Inr (j, b') \<longrightarrow> committed b' = committed b)"
proof -
  have "committed b' = committed b"
    if "opl_parse_node X s i b = Inl (e, b') \<or> opl_parse_node X s i b = Inr (j, b')"
    using that unfolding opl_parse_node_def Let_def
    by (auto split: sum.splits prod.splits option.splits if_splits
        dest!: opl_parse_node_loop_committed [THEN conjunct1, rule_format]
               opl_parse_node_loop_committed [THEN conjunct2, rule_format]
               opl_parse_tags_committed [THEN conjunct1, rule_format]
               opl_parse_tags_committed [THEN conjunct2, rule_format])
  then show ?thesis by blast
qed

lemma opl_parse_way_committed:
  "(opl_parse_way X s i b = Inl (e, b') \<longrightarrow> committed b' = committed b) \<and>
   (opl_parse_way X s i b = Inr (j, b') \<longrightarrow> committed b' = committed b)"
proof -
  have "committed b' = committed b"
    if "opl_parse_way X s i b = Inl (e, b') \<or> opl_parse_way X s i b = Inr (j, b')"
    using that unfolding opl_parse_way_def Let_def
    by (auto split: sum.splits prod.splits option.splits if_splits
        dest!: opl_parse_way_loop_committed [THEN conjunct1, rule_format]
               opl_parse_way_loop_committed [THEN conjunct2, rule_format]
               opl_parse_tags_committed [THEN conjunct1, rule_format]
               opl_parse_tags_committed [THEN conjunct2, rule_format]
               opl_parse_way_nodes_committed [THEN conjunct1, rule_format]
               opl_parse_way_nodes_committed [THEN conjunct2, rule_format])
  then show ?thesis by blast
qed

lemma opl_parse_relation_committed:
  "(opl_parse_relation X s i b = Inl (e, b') \<longrightarrow> committed b' = committed b) \<and>
   (opl_parse_relation X s i b = Inr (j, b') \<longrightarrow> committed b' = committed b)"
proof -
  have "committed b' = committed b"
    if "opl_parse_relation X s i b = Inl (e, b') \<or> opl_parse_relation X s i b = Inr (j, b')"
    using that unfolding opl_parse_relation_def Let_def
    by (auto split: sum.splits prod.splits option.splits if_splits
        dest!: opl_parse_relation_loop_committed [THEN conjunct1, rule_format]
               opl_parse_relation_loop_committed [THEN conjunct2, rule_format]
               opl_parse_tags_committed [THEN conjunct1, rule_format]
               opl_parse_tags_committed [THEN conjunct2, rule_format]
               opl_parse_relation_members_committed [THEN conjunct1, rule_format]
               opl_parse_relation_members_committed [THEN conjunct2, rule_format])
  then show ?thesis by blast
qed

lemma opl_parse_changeset_committed:
  "(opl_parse_changeset X s i b = Inl (e, b') \<longrightarrow> committed b' = committed b) \<and>
   (opl_parse_changeset X s i b = Inr (j, b') \<longrightarrow> committed b' = committed b)"
proof -
  have "committed b' = committed b"
    if "opl_parse_changeset X s i b = Inl (e, b') \<or> opl_parse_changeset X s i b = Inr (j, b')"
    using that unfolding opl_parse_changeset_def Let_def
    by (auto split: sum.splits prod.splits option.splits if_splits
        dest!: opl_parse_changeset_loop_committed [THEN conjunct1, rule_format]
               opl_parse_changeset_loop_committed [THEN conjunct2, rule_format]
               opl_parse_tags_committed [THEN conjunct1, rule_format]
               opl_parse_tags_committed [THEN conjunct2, rule_format])
  then show ?thesis by blast
qed

lemmas entity_committed =
  opl_parse_node_committed opl_parse_way_committed
  opl_parse_relation_committed opl_parse_changeset_committed

lemma opl_parse_line_try_true:
  "opl_parse_line_try X s b rt = Inr (True, b') \<Longrightarrow>
     \<exists>entity. committed b' = committed b @ [entity] \<and> written b' = []"
  unfolding opl_parse_line_try_def Let_def commit_def
  by (auto split: if_splits sum.splits
      dest!: entity_committed [THEN conjunct2, rule_format])

lemma opl_parse_line_try_false:
  "opl_parse_line_try X s b rt = Inr (False, b') \<Longrightarrow> b' = b"
  unfolding opl_parse_line_try_def Let_def
  by (auto split: if_splits sum.splits)

lemma opl_parse_line_try_throw:
  "opl_parse_line_try X s b rt = Inl (e, b') \<Longrightarrow> committed b' = committed b"
  unfolding opl_parse_line_try_def Let_def
  by (auto split: if_splits sum.splits
      dest!: entity_committed [THEN conjunct1, rule_format])

text \<open>
  C1. For every line, \<open>opl_parse_line\<close> commits exactly one entity to the sink when
  it returns true, leaves the sink as it was when it returns false, and commits
  nothing when it throws an \<open>opl_error\<close>: what the sink holds as committed is then
  what it held before, so no partial entity is committed.
\<close>

theorem opl_parse_line_commits:
  "(opl_parse_line X line_count s b read_types = Inr (True, b')
      \<longrightarrow> (\<exists>entity. committed b' = committed b @ [entity]))
   \<and> (opl_parse_line X line_count s b read_types = Inr (False, b') \<longrightarrow> b' = b)
   \<and> (opl_parse_line X line_count s b read_types = Inl (e, b')
      \<longrightarrow> committed b' = committed b)"
proof (intro conjI impI)
  assume "opl_parse_line X line_count s b read_types = Inr (True, b')"
  then have "opl_parse_line_try X s b read_types = Inr (True, b')"
    unfolding opl_parse_line_def by (simp split: sum.splits prod.splits)
  from opl_parse_line_try_true [OF this]
  show "\<exists>entity. committed b' = committed b @ [entity]" by blast
next
  assume "opl_parse_line X line_count s b read_types = Inr (False, b')"
  then have "opl_parse_line_try X s b read_types = Inr (False, b')"
    unfolding opl_parse_line_def by (simp split: sum.splits prod.splits)
  then show "b' = b" by (rule opl_parse_line_try_false)
next
  assume "opl_parse_line X line_count s b read_types = Inl (e, b')"
  then obtain e' where "opl_parse_line_try X s b read_types = Inl (e', b')"
    unfolding opl_parse_line_def by (auto split: sum.splits prod.splits)
  then show "committed b' = committed b" by (rule opl_parse_line_try_throw)
qed

theorem opl_parse_line_commits_witness:
  "opl_parse_line osmium_ext 7 ''n1 v1'' empty_buffer {node_bit}
     = Inr (True, \<lparr>committed = [[NodeBuilder, set_id 1, set_version 1, set_user []]],
                  written = []\<rparr>)
   \<and> (\<exists>entity. [[NodeBuilder, set_id 1, set_version 1, set_user []]]
         = committed empty_buffer @ [entity])
   \<and> opl_parse_line osmium_ext 7 ''w1 v1'' empty_buffer {node_bit} = Inr (False, empty_buffer)
   \<and> opl_parse_line osmium_ext 7 ''n1 v1 v2'' empty_buffer {node_bit}
     = Inl (\<lparr>line = 7, column = 0, data = None,
             msg = ''OPL error: Duplicate attribute: version (v) on line 7 column 0''\<rparr>,
           \<lparr>committed = [], written = [NodeBuilder, set_id 1, set_version 1]\<rparr>)
   \<and> committed \<lparr>committed = [], written = [NodeBuilder, set_id 1, set_version 1]\<rparr>
     = committed empty_buffer"
proof -
  have t: "opl_parse_line osmium_ext 7 ''n1 v1'' empty_buffer {node_bit}
     = Inr (True, \<lparr>committed = [[NodeBuilder, set_id 1, set_version 1, set_user []]],
                  written = []\<rparr>)"
    by code_simp
  have f: "opl_parse_line osmium_ext 7 ''w1 v1'' empty_buffer {node_bit}
     = Inr (False, empty_buffer)"
    by code_simp
  have x: "opl_parse_line osmium_ext 7 ''n1 v1 v2'' empty_buffer {node_bit}
     = Inl (\<lparr>line = 7, column = 0, data = None,
             msg = ''OPL error: Duplicate attribute: version (v) on line 7 column 0''\<rparr>,
           \<lparr>committed = [], written = [NodeBuilder, set_id 1, set_version 1]\<rparr>)"
    by code_simp
  from t f x
    opl_parse_line_commits [where X = osmium_ext and line_count = 7 and s = "''n1 v1''"
      and b = empty_buffer and read_types = "{node_bit}"
      and b' = "\<lparr>committed = [[NodeBuilder, set_id 1, set_version 1, set_user []]],
                written = []\<rparr>"]
    opl_parse_line_commits [where X = osmium_ext and line_count = 7 and s = "''n1 v1 v2''"
      and b = empty_buffer and read_types = "{node_bit}"
      and e = "\<lparr>line = 7, column = 0, data = None,
        msg = ''OPL error: Duplicate attribute: version (v) on line 7 column 0''\<rparr>"
      and b' = "\<lparr>committed = [], written = [NodeBuilder, set_id 1, set_version 1]\<rparr>"]
  show ?thesis by simp
qed

subsection \<open>The first byte of a line\<close>

text \<open>
  C6. A line whose first byte is NUL (the empty line) or \<open>#\<close> makes
  \<open>opl_parse_line\<close> return false, with the sink untouched and no error; a line
  whose first byte is none of \<open>n\<close>, \<open>w\<close>, \<open>r\<close>, \<open>c\<close>, \<open>#\<close> and NUL makes it
  fail with the message \<open>unknown type\<close> at column 0 of the given line.
\<close>

theorem opl_parse_line_prefix:
  "(peek s 0 = NUL \<or> peek s 0 = CHR ''#''
      \<longrightarrow> opl_parse_line X line_count s b read_types = Inr (False, b))
   \<and> (peek s 0 \<notin> {CHR ''n'', CHR ''w'', CHR ''r'', CHR ''c'', CHR ''#'', NUL}
      \<longrightarrow> (\<exists>e. opl_parse_line X line_count s b read_types = Inl (e, b)
             \<and> msg e = ''OPL error: unknown type on line '' @ to_string line_count
                        @ '' column 0''
             \<and> line e = line_count \<and> column e = 0))"
  by (auto simp: opl_parse_line_def opl_parse_line_try_def Let_def set_pos_def opl_error_def
      to_string_0)

theorem opl_parse_line_prefix_witness:
  "opl_parse_line osmium_ext 7 ''# n1'' empty_buffer {node_bit} = Inr (False, empty_buffer)
   \<and> opl_parse_line osmium_ext 7 [] empty_buffer {node_bit} = Inr (False, empty_buffer)
   \<and> (\<exists>e. opl_parse_line osmium_ext 7 ''x1 v1'' empty_buffer {node_bit} = Inl (e, empty_buffer)
          \<and> msg e = ''OPL error: unknown type on line 7 column 0''
          \<and> line e = 7 \<and> column e = 0)"
proof -
  have "to_string 7 = ''7''"
    by code_simp
  then show ?thesis
    using opl_parse_line_prefix [of "''# n1''" osmium_ext 7 empty_buffer "{node_bit}"]
      opl_parse_line_prefix [of "[]" osmium_ext 7 empty_buffer "{node_bit}"]
      opl_parse_line_prefix [of "''x1 v1''" osmium_ext 7 empty_buffer "{node_bit}"]
    by (simp add: peek_def NUL_def)
qed

subsection \<open>Duplicate attributes\<close>

lemma node_flag_cases:
  "node_flag c = Some (flag, name) \<Longrightarrow>
     c = CHR ''x'' \<and> flag = has_lon \<and> name = ''lon''
   \<or> c = CHR ''y'' \<and> flag = has_lat \<and> name = ''lat''
   \<or> c = CHR ''v'' \<and> flag = has_version \<and> name = ''version''
   \<or> c = CHR ''d'' \<and> flag = has_visible \<and> name = ''visible''
   \<or> c = CHR ''c'' \<and> flag = has_changeset_id \<and> name = ''changeset_id''
   \<or> c = CHR ''t'' \<and> flag = has_timestamp \<and> name = ''timestamp''
   \<or> c = CHR ''i'' \<and> flag = has_uid \<and> name = ''uid''
   \<or> c = CHR ''u'' \<and> flag = has_user \<and> name = ''user''
   \<or> c = CHR ''T'' \<and> flag = has_tags \<and> name = ''tags''"
  unfolding node_flag_def object_flag_def
  by (simp split: if_splits)

lemma node_attribute_duplicate:
  assumes "node_flag c = Some (flag, name)" and "flag st"
  shows "node_attribute X s c i st = Inl (duplicate_attribute name c)"
  using node_flag_cases [OF assms(1)] assms(2)
  by (elim disjE conjE; simp add: node_attribute_def object_attribute_def duplicate_attribute_def)

lemma node_attribute_flags:
  "node_attribute X s c i st = Inr (j, st') \<Longrightarrow>
     (has_lon st' \<longleftrightarrow> has_lon st \<or> c = CHR ''x'')
   \<and> (has_lat st' \<longleftrightarrow> has_lat st \<or> c = CHR ''y'')
   \<and> (has_version st' \<longleftrightarrow> has_version st \<or> c = CHR ''v'')
   \<and> (has_visible st' \<longleftrightarrow> has_visible st \<or> c = CHR ''d'')
   \<and> (has_changeset_id st' \<longleftrightarrow> has_changeset_id st \<or> c = CHR ''c'')
   \<and> (has_timestamp st' \<longleftrightarrow> has_timestamp st \<or> c = CHR ''t'')
   \<and> (has_uid st' \<longleftrightarrow> has_uid st \<or> c = CHR ''i'')
   \<and> (has_user st' \<longleftrightarrow> has_user st \<or> c = CHR ''u'')
   \<and> (has_tags st' \<longleftrightarrow> has_tags st \<or> c = CHR ''T'')"
  unfolding node_attribute_def object_attribute_def
  by (auto split: if_splits sum.splits option.splits simp: Let_def)

lemma node_attribute_flag:
  assumes "node_flag c' = Some (flag, name)" and "node_attribute X s c i st = Inr (j, st')"
    and "c = c' \<or> flag st"
  shows "flag st'"
  using node_flag_cases [OF assms(1)] node_attribute_flags [OF assms(2)] assms(3)
  by (elim disjE conjE; simp)

lemma opl_parse_node_loop_duplicate:
  assumes "node_flag (peek s j) = Some (flag, name)" and "flag st"
    and "peek s i \<noteq> NUL" and "opl_parse_space s i = Inr j"
  shows "opl_parse_node_loop X s i st = Inl (duplicate_attribute name (peek s j), buf st)"
proof -
  from assms(1) have "peek s j \<noteq> NUL"
    using node_flag_cases [OF assms(1)] by (auto simp: NUL_def)
  with assms(3,4) node_attribute_duplicate [OF assms(1,2), of X s "Suc j"]
  show ?thesis
    unfolding opl_parse_node_loop.simps [of X s i st] by (simp add: Let_def)
qed

lemma way_flag_cases:
  "way_flag c = Some (flag, name) \<Longrightarrow>
     c = CHR ''N'' \<and> flag = has_nodes \<and> name = ''nodes''
   \<or> c = CHR ''v'' \<and> flag = has_version \<and> name = ''version''
   \<or> c = CHR ''d'' \<and> flag = has_visible \<and> name = ''visible''
   \<or> c = CHR ''c'' \<and> flag = has_changeset_id \<and> name = ''changeset_id''
   \<or> c = CHR ''t'' \<and> flag = has_timestamp \<and> name = ''timestamp''
   \<or> c = CHR ''i'' \<and> flag = has_uid \<and> name = ''uid''
   \<or> c = CHR ''u'' \<and> flag = has_user \<and> name = ''user''
   \<or> c = CHR ''T'' \<and> flag = has_tags \<and> name = ''tags''"
  unfolding way_flag_def object_flag_def
  by (simp split: if_splits)

lemma way_attribute_duplicate:
  assumes "way_flag c = Some (flag, name)" and "flag st"
  shows "way_attribute X s c i st = Inl (duplicate_attribute name c)"
  using way_flag_cases [OF assms(1)] assms(2)
  by (elim disjE conjE; simp add: way_attribute_def object_attribute_def duplicate_attribute_def)

lemma way_attribute_flags:
  "way_attribute X s c i st = Inr (j, st') \<Longrightarrow>
     (has_nodes st' \<longleftrightarrow> has_nodes st \<or> c = CHR ''N'')
   \<and> (has_version st' \<longleftrightarrow> has_version st \<or> c = CHR ''v'')
   \<and> (has_visible st' \<longleftrightarrow> has_visible st \<or> c = CHR ''d'')
   \<and> (has_changeset_id st' \<longleftrightarrow> has_changeset_id st \<or> c = CHR ''c'')
   \<and> (has_timestamp st' \<longleftrightarrow> has_timestamp st \<or> c = CHR ''t'')
   \<and> (has_uid st' \<longleftrightarrow> has_uid st \<or> c = CHR ''i'')
   \<and> (has_user st' \<longleftrightarrow> has_user st \<or> c = CHR ''u'')
   \<and> (has_tags st' \<longleftrightarrow> has_tags st \<or> c = CHR ''T'')"
  unfolding way_attribute_def object_attribute_def
  by (auto split: if_splits sum.splits option.splits simp: Let_def)

lemma way_attribute_flag:
  assumes "way_flag c' = Some (flag, name)" and "way_attribute X s c i st = Inr (j, st')"
    and "c = c' \<or> flag st"
  shows "flag st'"
  using way_flag_cases [OF assms(1)] way_attribute_flags [OF assms(2)] assms(3)
  by (elim disjE conjE; simp)

lemma opl_parse_way_loop_duplicate:
  assumes "way_flag (peek s j) = Some (flag, name)" and "flag st"
    and "peek s i \<noteq> NUL" and "opl_parse_space s i = Inr j"
  shows "opl_parse_way_loop X s i st = Inl (duplicate_attribute name (peek s j), buf st)"
proof -
  from assms(1) have "peek s j \<noteq> NUL"
    using way_flag_cases [OF assms(1)] by (auto simp: NUL_def)
  with assms(3,4) way_attribute_duplicate [OF assms(1,2), of X s "Suc j"]
  show ?thesis
    unfolding opl_parse_way_loop.simps [of X s i st] by (simp add: Let_def)
qed

lemma relation_flag_cases:
  "relation_flag c = Some (flag, name) \<Longrightarrow>
     c = CHR ''M'' \<and> flag = has_members \<and> name = ''members''
   \<or> c = CHR ''v'' \<and> flag = has_version \<and> name = ''version''
   \<or> c = CHR ''d'' \<and> flag = has_visible \<and> name = ''visible''
   \<or> c = CHR ''c'' \<and> flag = has_changeset_id \<and> name = ''changeset_id''
   \<or> c = CHR ''t'' \<and> flag = has_timestamp \<and> name = ''timestamp''
   \<or> c = CHR ''i'' \<and> flag = has_uid \<and> name = ''uid''
   \<or> c = CHR ''u'' \<and> flag = has_user \<and> name = ''user''
   \<or> c = CHR ''T'' \<and> flag = has_tags \<and> name = ''tags''"
  unfolding relation_flag_def object_flag_def
  by (simp split: if_splits)

lemma relation_attribute_duplicate:
  assumes "relation_flag c = Some (flag, name)" and "flag st"
  shows "relation_attribute X s c i st = Inl (duplicate_attribute name c)"
  using relation_flag_cases [OF assms(1)] assms(2)
  by (elim disjE conjE; simp add: relation_attribute_def object_attribute_def duplicate_attribute_def)

lemma relation_attribute_flags:
  "relation_attribute X s c i st = Inr (j, st') \<Longrightarrow>
     (has_members st' \<longleftrightarrow> has_members st \<or> c = CHR ''M'')
   \<and> (has_version st' \<longleftrightarrow> has_version st \<or> c = CHR ''v'')
   \<and> (has_visible st' \<longleftrightarrow> has_visible st \<or> c = CHR ''d'')
   \<and> (has_changeset_id st' \<longleftrightarrow> has_changeset_id st \<or> c = CHR ''c'')
   \<and> (has_timestamp st' \<longleftrightarrow> has_timestamp st \<or> c = CHR ''t'')
   \<and> (has_uid st' \<longleftrightarrow> has_uid st \<or> c = CHR ''i'')
   \<and> (has_user st' \<longleftrightarrow> has_user st \<or> c = CHR ''u'')
   \<and> (has_tags st' \<longleftrightarrow> has_tags st \<or> c = CHR ''T'')"
  unfolding relation_attribute_def object_attribute_def
  by (auto split: if_splits sum.splits option.splits simp: Let_def)

lemma relation_attribute_flag:
  assumes "relation_flag c' = Some (flag, name)" and "relation_attribute X s c i st = Inr (j, st')"
    and "c = c' \<or> flag st"
  shows "flag st'"
  using relation_flag_cases [OF assms(1)] relation_attribute_flags [OF assms(2)] assms(3)
  by (elim disjE conjE; simp)

lemma opl_parse_relation_loop_duplicate:
  assumes "relation_flag (peek s j) = Some (flag, name)" and "flag st"
    and "peek s i \<noteq> NUL" and "opl_parse_space s i = Inr j"
  shows "opl_parse_relation_loop X s i st = Inl (duplicate_attribute name (peek s j), buf st)"
proof -
  from assms(1) have "peek s j \<noteq> NUL"
    using relation_flag_cases [OF assms(1)] by (auto simp: NUL_def)
  with assms(3,4) relation_attribute_duplicate [OF assms(1,2), of X s "Suc j"]
  show ?thesis
    unfolding opl_parse_relation_loop.simps [of X s i st] by (simp add: Let_def)
qed

lemma changeset_flag_cases:
  "changeset_flag c = Some (flag, name) \<Longrightarrow>
     c = CHR ''k'' \<and> flag = has_num_changes \<and> name = ''num_changes''
   \<or> c = CHR ''s'' \<and> flag = has_created_at \<and> name = ''created_at''
   \<or> c = CHR ''e'' \<and> flag = has_closed_at \<and> name = ''closed_at''
   \<or> c = CHR ''d'' \<and> flag = has_num_comments \<and> name = ''num_comments''
   \<or> c = CHR ''i'' \<and> flag = has_uid \<and> name = ''uid''
   \<or> c = CHR ''u'' \<and> flag = has_user \<and> name = ''user''
   \<or> c = CHR ''x'' \<and> flag = has_min_x \<and> name = ''min_x''
   \<or> c = CHR ''y'' \<and> flag = has_min_y \<and> name = ''min_y''
   \<or> c = CHR ''X'' \<and> flag = has_max_x \<and> name = ''max_x''
   \<or> c = CHR ''Y'' \<and> flag = has_max_y \<and> name = ''max_y''
   \<or> c = CHR ''T'' \<and> flag = has_tags \<and> name = ''tags''"
  unfolding changeset_flag_def
  by (simp split: if_splits)

lemma changeset_attribute_duplicate:
  assumes "changeset_flag c = Some (flag, name)" and "flag st"
  shows "changeset_attribute X s c i st = Inl (duplicate_attribute name c)"
  using changeset_flag_cases [OF assms(1)] assms(2)
  by (elim disjE conjE; simp add: changeset_attribute_def duplicate_attribute_def)

lemma changeset_attribute_flags:
  "changeset_attribute X s c i st = Inr (j, st') \<Longrightarrow>
     (has_num_changes st' \<longleftrightarrow> has_num_changes st \<or> c = CHR ''k'')
   \<and> (has_created_at st' \<longleftrightarrow> has_created_at st \<or> c = CHR ''s'')
   \<and> (has_closed_at st' \<longleftrightarrow> has_closed_at st \<or> c = CHR ''e'')
   \<and> (has_num_comments st' \<longleftrightarrow> has_num_comments st \<or> c = CHR ''d'')
   \<and> (has_uid st' \<longleftrightarrow> has_uid st \<or> c = CHR ''i'')
   \<and> (has_user st' \<longleftrightarrow> has_user st \<or> c = CHR ''u'')
   \<and> (has_min_x st' \<longleftrightarrow> has_min_x st \<or> c = CHR ''x'')
   \<and> (has_min_y st' \<longleftrightarrow> has_min_y st \<or> c = CHR ''y'')
   \<and> (has_max_x st' \<longleftrightarrow> has_max_x st \<or> c = CHR ''X'')
   \<and> (has_max_y st' \<longleftrightarrow> has_max_y st \<or> c = CHR ''Y'')
   \<and> (has_tags st' \<longleftrightarrow> has_tags st \<or> c = CHR ''T'')"
  unfolding changeset_attribute_def
  by (auto split: if_splits sum.splits option.splits simp: Let_def)

lemma changeset_attribute_flag:
  assumes "changeset_flag c' = Some (flag, name)" and "changeset_attribute X s c i st = Inr (j, st')"
    and "c = c' \<or> flag st"
  shows "flag st'"
  using changeset_flag_cases [OF assms(1)] changeset_attribute_flags [OF assms(2)] assms(3)
  by (elim disjE conjE; simp)

lemma opl_parse_changeset_loop_duplicate:
  assumes "changeset_flag (peek s j) = Some (flag, name)" and "flag st"
    and "peek s i \<noteq> NUL" and "opl_parse_space s i = Inr j"
  shows "opl_parse_changeset_loop X s i st = Inl (duplicate_attribute name (peek s j), buf st)"
proof -
  from assms(1) have "peek s j \<noteq> NUL"
    using changeset_flag_cases [OF assms(1)] by (auto simp: NUL_def)
  with assms(3,4) changeset_attribute_duplicate [OF assms(1,2), of X s "Suc j"]
  show ?thesis
    unfolding opl_parse_changeset_loop.simps [of X s i st] by (simp add: Let_def)
qed

lemma opl_parse_line_throw:
  "opl_parse_line_try X s b rt = Inl (e0, b') \<Longrightarrow>
     opl_parse_line X lc s b rt
       = Inl (set_pos lc (case data e0 of Some d \<Rightarrow> d | None \<Rightarrow> 0) e0, b')"
  by (cases "data e0") (simp_all add: opl_parse_line_def)

text \<open>
  The attributes read so far decide what the next letter does: the loop from the
  first attribute is the loop from behind the attributes read, a letter once
  read has its flag set, and an error of the loop is the error of the line.
\<close>

lemma opl_parse_node_loop_scanned:
  "scanned (node_attribute X s) s i st cs k st' \<Longrightarrow>
     opl_parse_node_loop X s i st = opl_parse_node_loop X s k st'"
proof (induction rule: scanned.induct)
  case (scanned_none i st)
  show ?case by simp
next
  case (scanned_more i j st k st' cs k' st'')
  then show ?case
    unfolding opl_parse_node_loop.simps [of X s i st] by (simp add: Let_def)
qed

lemma node_attribute_known:
  assumes "node_attribute X s c i st = Inr (j, st')"
  shows "\<exists>flag name. node_flag c = Some (flag, name)"
proof (cases "node_flag c")
  case None
  then have "c \<notin> {CHR ''v'', CHR ''d'', CHR ''c'', CHR ''t'', CHR ''i'', CHR ''u'', CHR ''T'', CHR ''x'', CHR ''y''}"
    by (simp add: node_flag_def object_flag_def split: if_splits)
  then have "node_attribute X s c i st = Inl (opl_error ''unknown attribute'' (Some (i - 1)))"
    by (simp add: node_attribute_def object_attribute_def)
  with assms show ?thesis by simp
next
  case (Some p)
  then show ?thesis by (cases p) simp
qed

lemma node_scanned_flag_stays:
  "scanned (node_attribute X s) s i st cs k st' \<Longrightarrow>
     node_flag c = Some (flag, name) \<Longrightarrow> flag st \<Longrightarrow> flag st'"
proof (induction rule: scanned.induct)
  case (scanned_none i st)
  then show ?case by simp
next
  case (scanned_more i j st k st' cs k' st'')
  from node_attribute_flag [OF scanned_more.prems(1) scanned_more.hyps(4)] scanned_more.prems(2)
  have "flag st'" by simp
  with scanned_more.IH scanned_more.prems(1) show ?case by simp
qed

lemma node_scanned_flag:
  "scanned (node_attribute X s) s i st cs k st' \<Longrightarrow> c \<in> set cs \<Longrightarrow>
     \<exists>flag name. node_flag c = Some (flag, name) \<and> flag st'"
proof (induction rule: scanned.induct)
  case (scanned_none i st)
  then show ?case by simp
next
  case (scanned_more i j st k st' cs k' st'')
  show ?case
  proof (cases "c = peek s j")
    case True
    from node_attribute_known [OF scanned_more.hyps(4)] obtain flag name
      where known: "node_flag (peek s j) = Some (flag, name)" by blast
    from node_attribute_flag [OF known scanned_more.hyps(4)] have "flag st'" by simp
    from node_scanned_flag_stays [OF scanned_more.hyps(5) known this] known True
    show ?thesis by blast
  next
    case False
    with scanned_more.prems have "c \<in> set cs" by simp
    then show ?thesis by (rule scanned_more.IH)
  qed
qed

lemma opl_parse_line_node_throw:
  assumes "peek s 0 = CHR ''n''" and "node_bit \<in> read_types"
    and "opl_parse_id X s (Suc 0) = Inr (v, i1)"
    and "scanned (node_attribute X s) s i1 (node_locals X (call (set_id v) (call NodeBuilder b))) cs i st"
    and "opl_parse_node_loop X s i st = Inl (e, b')"
  shows "opl_parse_line X line_count s b read_types
         = Inl (set_pos line_count (case data e of Some d \<Rightarrow> d | None \<Rightarrow> 0) e, b')"
proof -
  from assms(4,5) have "opl_parse_node_loop X s i1 (node_locals X (call (set_id v) (call NodeBuilder b))) = Inl (e, b')"
    by (simp add: opl_parse_node_loop_scanned)
  with assms(3) have "opl_parse_node X s (Suc 0) b = Inl (e, b')"
    by (simp add: opl_parse_node_def Let_def)
  with assms(1,2) have "opl_parse_line_try X s b read_types = Inl (e, b')"
    by (simp add: opl_parse_line_try_def Let_def NUL_def)
  then show ?thesis by (rule opl_parse_line_throw)
qed

lemma opl_parse_line_node_duplicate:
  assumes "peek s 0 = CHR ''n''" and "node_bit \<in> read_types"
    and "opl_parse_id X s (Suc 0) = Inr (v, i1)"
    and "scanned (node_attribute X s) s i1 (node_locals X (call (set_id v) (call NodeBuilder b))) cs i st"
    and "peek s i \<noteq> NUL" and "opl_parse_space s i = Inr j" and "peek s j \<in> set cs"
  shows "\<exists>flag name e. node_flag (peek s j) = Some (flag, name)
           \<and> opl_parse_line X line_count s b read_types = Inl (e, buf st)
           \<and> msg e = ''OPL error: Duplicate attribute: '' @ name @ '' ('' @ [peek s j] @ '')''
                      @ '' on line '' @ to_string line_count @ '' column 0''
           \<and> line e = line_count \<and> column e = 0 \<and> data e = None"
proof -
  from node_scanned_flag [OF assms(4,7)] obtain flag name
    where flag: "node_flag (peek s j) = Some (flag, name)" "flag st" by blast
  from opl_parse_node_loop_duplicate [OF flag assms(5,6)]
  have "opl_parse_node_loop X s i st = Inl (duplicate_attribute name (peek s j), buf st)" .
  from opl_parse_line_node_throw [OF assms(1-4) this, of line_count] flag(1)
  show ?thesis
    by (simp add: duplicate_attribute_def opl_error_def set_pos_def to_string_0)
qed

lemma opl_parse_way_loop_scanned:
  "scanned (way_attribute X s) s i st cs k st' \<Longrightarrow>
     opl_parse_way_loop X s i st = opl_parse_way_loop X s k st'"
proof (induction rule: scanned.induct)
  case (scanned_none i st)
  show ?case by simp
next
  case (scanned_more i j st k st' cs k' st'')
  then show ?case
    unfolding opl_parse_way_loop.simps [of X s i st] by (simp add: Let_def)
qed

lemma way_attribute_known:
  assumes "way_attribute X s c i st = Inr (j, st')"
  shows "\<exists>flag name. way_flag c = Some (flag, name)"
proof (cases "way_flag c")
  case None
  then have "c \<notin> {CHR ''v'', CHR ''d'', CHR ''c'', CHR ''t'', CHR ''i'', CHR ''u'', CHR ''T'', CHR ''N''}"
    by (simp add: way_flag_def object_flag_def split: if_splits)
  then have "way_attribute X s c i st = Inl (opl_error ''unknown attribute'' (Some (i - 1)))"
    by (simp add: way_attribute_def object_attribute_def)
  with assms show ?thesis by simp
next
  case (Some p)
  then show ?thesis by (cases p) simp
qed

lemma way_scanned_flag_stays:
  "scanned (way_attribute X s) s i st cs k st' \<Longrightarrow>
     way_flag c = Some (flag, name) \<Longrightarrow> flag st \<Longrightarrow> flag st'"
proof (induction rule: scanned.induct)
  case (scanned_none i st)
  then show ?case by simp
next
  case (scanned_more i j st k st' cs k' st'')
  from way_attribute_flag [OF scanned_more.prems(1) scanned_more.hyps(4)] scanned_more.prems(2)
  have "flag st'" by simp
  with scanned_more.IH scanned_more.prems(1) show ?case by simp
qed

lemma way_scanned_flag:
  "scanned (way_attribute X s) s i st cs k st' \<Longrightarrow> c \<in> set cs \<Longrightarrow>
     \<exists>flag name. way_flag c = Some (flag, name) \<and> flag st'"
proof (induction rule: scanned.induct)
  case (scanned_none i st)
  then show ?case by simp
next
  case (scanned_more i j st k st' cs k' st'')
  show ?case
  proof (cases "c = peek s j")
    case True
    from way_attribute_known [OF scanned_more.hyps(4)] obtain flag name
      where known: "way_flag (peek s j) = Some (flag, name)" by blast
    from way_attribute_flag [OF known scanned_more.hyps(4)] have "flag st'" by simp
    from way_scanned_flag_stays [OF scanned_more.hyps(5) known this] known True
    show ?thesis by blast
  next
    case False
    with scanned_more.prems have "c \<in> set cs" by simp
    then show ?thesis by (rule scanned_more.IH)
  qed
qed

lemma opl_parse_line_way_throw:
  assumes "peek s 0 = CHR ''w''" and "way_bit \<in> read_types"
    and "opl_parse_id X s (Suc 0) = Inr (v, i1)"
    and "scanned (way_attribute X s) s i1 (way_locals (call (set_id v) (call WayBuilder b))) cs i st"
    and "opl_parse_way_loop X s i st = Inl (e, b')"
  shows "opl_parse_line X line_count s b read_types
         = Inl (set_pos line_count (case data e of Some d \<Rightarrow> d | None \<Rightarrow> 0) e, b')"
proof -
  from assms(4,5) have "opl_parse_way_loop X s i1 (way_locals (call (set_id v) (call WayBuilder b))) = Inl (e, b')"
    by (simp add: opl_parse_way_loop_scanned)
  with assms(3) have "opl_parse_way X s (Suc 0) b = Inl (e, b')"
    by (simp add: opl_parse_way_def Let_def)
  with assms(1,2) have "opl_parse_line_try X s b read_types = Inl (e, b')"
    by (simp add: opl_parse_line_try_def Let_def NUL_def)
  then show ?thesis by (rule opl_parse_line_throw)
qed

lemma opl_parse_line_way_duplicate:
  assumes "peek s 0 = CHR ''w''" and "way_bit \<in> read_types"
    and "opl_parse_id X s (Suc 0) = Inr (v, i1)"
    and "scanned (way_attribute X s) s i1 (way_locals (call (set_id v) (call WayBuilder b))) cs i st"
    and "peek s i \<noteq> NUL" and "opl_parse_space s i = Inr j" and "peek s j \<in> set cs"
  shows "\<exists>flag name e. way_flag (peek s j) = Some (flag, name)
           \<and> opl_parse_line X line_count s b read_types = Inl (e, buf st)
           \<and> msg e = ''OPL error: Duplicate attribute: '' @ name @ '' ('' @ [peek s j] @ '')''
                      @ '' on line '' @ to_string line_count @ '' column 0''
           \<and> line e = line_count \<and> column e = 0 \<and> data e = None"
proof -
  from way_scanned_flag [OF assms(4,7)] obtain flag name
    where flag: "way_flag (peek s j) = Some (flag, name)" "flag st" by blast
  from opl_parse_way_loop_duplicate [OF flag assms(5,6)]
  have "opl_parse_way_loop X s i st = Inl (duplicate_attribute name (peek s j), buf st)" .
  from opl_parse_line_way_throw [OF assms(1-4) this, of line_count] flag(1)
  show ?thesis
    by (simp add: duplicate_attribute_def opl_error_def set_pos_def to_string_0)
qed

lemma opl_parse_relation_loop_scanned:
  "scanned (relation_attribute X s) s i st cs k st' \<Longrightarrow>
     opl_parse_relation_loop X s i st = opl_parse_relation_loop X s k st'"
proof (induction rule: scanned.induct)
  case (scanned_none i st)
  show ?case by simp
next
  case (scanned_more i j st k st' cs k' st'')
  then show ?case
    unfolding opl_parse_relation_loop.simps [of X s i st] by (simp add: Let_def)
qed

lemma relation_attribute_known:
  assumes "relation_attribute X s c i st = Inr (j, st')"
  shows "\<exists>flag name. relation_flag c = Some (flag, name)"
proof (cases "relation_flag c")
  case None
  then have "c \<notin> {CHR ''v'', CHR ''d'', CHR ''c'', CHR ''t'', CHR ''i'', CHR ''u'', CHR ''T'', CHR ''M''}"
    by (simp add: relation_flag_def object_flag_def split: if_splits)
  then have "relation_attribute X s c i st = Inl (opl_error ''unknown attribute'' (Some (i - 1)))"
    by (simp add: relation_attribute_def object_attribute_def)
  with assms show ?thesis by simp
next
  case (Some p)
  then show ?thesis by (cases p) simp
qed

lemma relation_scanned_flag_stays:
  "scanned (relation_attribute X s) s i st cs k st' \<Longrightarrow>
     relation_flag c = Some (flag, name) \<Longrightarrow> flag st \<Longrightarrow> flag st'"
proof (induction rule: scanned.induct)
  case (scanned_none i st)
  then show ?case by simp
next
  case (scanned_more i j st k st' cs k' st'')
  from relation_attribute_flag [OF scanned_more.prems(1) scanned_more.hyps(4)] scanned_more.prems(2)
  have "flag st'" by simp
  with scanned_more.IH scanned_more.prems(1) show ?case by simp
qed

lemma relation_scanned_flag:
  "scanned (relation_attribute X s) s i st cs k st' \<Longrightarrow> c \<in> set cs \<Longrightarrow>
     \<exists>flag name. relation_flag c = Some (flag, name) \<and> flag st'"
proof (induction rule: scanned.induct)
  case (scanned_none i st)
  then show ?case by simp
next
  case (scanned_more i j st k st' cs k' st'')
  show ?case
  proof (cases "c = peek s j")
    case True
    from relation_attribute_known [OF scanned_more.hyps(4)] obtain flag name
      where known: "relation_flag (peek s j) = Some (flag, name)" by blast
    from relation_attribute_flag [OF known scanned_more.hyps(4)] have "flag st'" by simp
    from relation_scanned_flag_stays [OF scanned_more.hyps(5) known this] known True
    show ?thesis by blast
  next
    case False
    with scanned_more.prems have "c \<in> set cs" by simp
    then show ?thesis by (rule scanned_more.IH)
  qed
qed

lemma opl_parse_line_relation_throw:
  assumes "peek s 0 = CHR ''r''" and "relation_bit \<in> read_types"
    and "opl_parse_id X s (Suc 0) = Inr (v, i1)"
    and "scanned (relation_attribute X s) s i1 (relation_locals (call (set_id v) (call RelationBuilder b))) cs i st"
    and "opl_parse_relation_loop X s i st = Inl (e, b')"
  shows "opl_parse_line X line_count s b read_types
         = Inl (set_pos line_count (case data e of Some d \<Rightarrow> d | None \<Rightarrow> 0) e, b')"
proof -
  from assms(4,5) have "opl_parse_relation_loop X s i1 (relation_locals (call (set_id v) (call RelationBuilder b))) = Inl (e, b')"
    by (simp add: opl_parse_relation_loop_scanned)
  with assms(3) have "opl_parse_relation X s (Suc 0) b = Inl (e, b')"
    by (simp add: opl_parse_relation_def Let_def)
  with assms(1,2) have "opl_parse_line_try X s b read_types = Inl (e, b')"
    by (simp add: opl_parse_line_try_def Let_def NUL_def)
  then show ?thesis by (rule opl_parse_line_throw)
qed

lemma opl_parse_line_relation_duplicate:
  assumes "peek s 0 = CHR ''r''" and "relation_bit \<in> read_types"
    and "opl_parse_id X s (Suc 0) = Inr (v, i1)"
    and "scanned (relation_attribute X s) s i1 (relation_locals (call (set_id v) (call RelationBuilder b))) cs i st"
    and "peek s i \<noteq> NUL" and "opl_parse_space s i = Inr j" and "peek s j \<in> set cs"
  shows "\<exists>flag name e. relation_flag (peek s j) = Some (flag, name)
           \<and> opl_parse_line X line_count s b read_types = Inl (e, buf st)
           \<and> msg e = ''OPL error: Duplicate attribute: '' @ name @ '' ('' @ [peek s j] @ '')''
                      @ '' on line '' @ to_string line_count @ '' column 0''
           \<and> line e = line_count \<and> column e = 0 \<and> data e = None"
proof -
  from relation_scanned_flag [OF assms(4,7)] obtain flag name
    where flag: "relation_flag (peek s j) = Some (flag, name)" "flag st" by blast
  from opl_parse_relation_loop_duplicate [OF flag assms(5,6)]
  have "opl_parse_relation_loop X s i st = Inl (duplicate_attribute name (peek s j), buf st)" .
  from opl_parse_line_relation_throw [OF assms(1-4) this, of line_count] flag(1)
  show ?thesis
    by (simp add: duplicate_attribute_def opl_error_def set_pos_def to_string_0)
qed

lemma opl_parse_changeset_loop_scanned:
  "scanned (changeset_attribute X s) s i st cs k st' \<Longrightarrow>
     opl_parse_changeset_loop X s i st = opl_parse_changeset_loop X s k st'"
proof (induction rule: scanned.induct)
  case (scanned_none i st)
  show ?case by simp
next
  case (scanned_more i j st k st' cs k' st'')
  then show ?case
    unfolding opl_parse_changeset_loop.simps [of X s i st] by (simp add: Let_def)
qed

lemma changeset_attribute_known:
  assumes "changeset_attribute X s c i st = Inr (j, st')"
  shows "\<exists>flag name. changeset_flag c = Some (flag, name)"
proof (cases "changeset_flag c")
  case None
  then have "c \<notin> {CHR ''k'', CHR ''s'', CHR ''e'', CHR ''d'', CHR ''i'', CHR ''u'', CHR ''x'', CHR ''y'', CHR ''X'', CHR ''Y'', CHR ''T''}"
    by (simp add: changeset_flag_def split: if_splits)
  then have "changeset_attribute X s c i st = Inl (opl_error ''unknown attribute'' (Some (i - 1)))"
    by (simp add: changeset_attribute_def)
  with assms show ?thesis by simp
next
  case (Some p)
  then show ?thesis by (cases p) simp
qed

lemma changeset_scanned_flag_stays:
  "scanned (changeset_attribute X s) s i st cs k st' \<Longrightarrow>
     changeset_flag c = Some (flag, name) \<Longrightarrow> flag st \<Longrightarrow> flag st'"
proof (induction rule: scanned.induct)
  case (scanned_none i st)
  then show ?case by simp
next
  case (scanned_more i j st k st' cs k' st'')
  from changeset_attribute_flag [OF scanned_more.prems(1) scanned_more.hyps(4)] scanned_more.prems(2)
  have "flag st'" by simp
  with scanned_more.IH scanned_more.prems(1) show ?case by simp
qed

lemma changeset_scanned_flag:
  "scanned (changeset_attribute X s) s i st cs k st' \<Longrightarrow> c \<in> set cs \<Longrightarrow>
     \<exists>flag name. changeset_flag c = Some (flag, name) \<and> flag st'"
proof (induction rule: scanned.induct)
  case (scanned_none i st)
  then show ?case by simp
next
  case (scanned_more i j st k st' cs k' st'')
  show ?case
  proof (cases "c = peek s j")
    case True
    from changeset_attribute_known [OF scanned_more.hyps(4)] obtain flag name
      where known: "changeset_flag (peek s j) = Some (flag, name)" by blast
    from changeset_attribute_flag [OF known scanned_more.hyps(4)] have "flag st'" by simp
    from changeset_scanned_flag_stays [OF scanned_more.hyps(5) known this] known True
    show ?thesis by blast
  next
    case False
    with scanned_more.prems have "c \<in> set cs" by simp
    then show ?thesis by (rule scanned_more.IH)
  qed
qed

lemma opl_parse_line_changeset_throw:
  assumes "peek s 0 = CHR ''c''" and "changeset_bit \<in> read_types"
    and "opl_parse_changeset_id X s (Suc 0) = Inr (v, i1)"
    and "scanned (changeset_attribute X s) s i1 (changeset_locals X (call (set_id v) (call ChangesetBuilder b))) cs i st"
    and "opl_parse_changeset_loop X s i st = Inl (e, b')"
  shows "opl_parse_line X line_count s b read_types
         = Inl (set_pos line_count (case data e of Some d \<Rightarrow> d | None \<Rightarrow> 0) e, b')"
proof -
  from assms(4,5) have "opl_parse_changeset_loop X s i1 (changeset_locals X (call (set_id v) (call ChangesetBuilder b))) = Inl (e, b')"
    by (simp add: opl_parse_changeset_loop_scanned)
  with assms(3) have "opl_parse_changeset X s (Suc 0) b = Inl (e, b')"
    by (simp add: opl_parse_changeset_def Let_def)
  with assms(1,2) have "opl_parse_line_try X s b read_types = Inl (e, b')"
    by (simp add: opl_parse_line_try_def Let_def NUL_def)
  then show ?thesis by (rule opl_parse_line_throw)
qed

lemma opl_parse_line_changeset_duplicate:
  assumes "peek s 0 = CHR ''c''" and "changeset_bit \<in> read_types"
    and "opl_parse_changeset_id X s (Suc 0) = Inr (v, i1)"
    and "scanned (changeset_attribute X s) s i1 (changeset_locals X (call (set_id v) (call ChangesetBuilder b))) cs i st"
    and "peek s i \<noteq> NUL" and "opl_parse_space s i = Inr j" and "peek s j \<in> set cs"
  shows "\<exists>flag name e. changeset_flag (peek s j) = Some (flag, name)
           \<and> opl_parse_line X line_count s b read_types = Inl (e, buf st)
           \<and> msg e = ''OPL error: Duplicate attribute: '' @ name @ '' ('' @ [peek s j] @ '')''
                      @ '' on line '' @ to_string line_count @ '' column 0''
           \<and> line e = line_count \<and> column e = 0 \<and> data e = None"
proof -
  from changeset_scanned_flag [OF assms(4,7)] obtain flag name
    where flag: "changeset_flag (peek s j) = Some (flag, name)" "flag st" by blast
  from opl_parse_changeset_loop_duplicate [OF flag assms(5,6)]
  have "opl_parse_changeset_loop X s i st = Inl (duplicate_attribute name (peek s j), buf st)" .
  from opl_parse_line_changeset_throw [OF assms(1-4) this, of line_count] flag(1)
  show ?thesis
    by (simp add: duplicate_attribute_def opl_error_def set_pos_def to_string_0)
qed

text \<open>
  C4, as the code has it. Take a line of an entity whose kind is asked for and
  whose id is parsed, and let the attribute loop have read attributes with the
  letters \<open>cs\<close>. When the loop then stands at white space followed by one of the
  letters of \<open>cs\<close>, \<open>opl_parse_line\<close> fails, the sink left as the attributes read
  so far wrote it, with the message \<open>Duplicate attribute: <name> (<letter>)\<close> of
  that letter. The error carries no cursor, so the column that \<open>opl_parse_line\<close>
  reports for it is 0, not the offset of the second occurrence of the letter.
\<close>

theorem duplicate_attribute_column:
  fixes nst :: node_state and wst :: way_state
    and rst :: relation_state and cst :: changeset_state
  shows
  "(peek s 0 = CHR ''n'' \<and> node_bit \<in> read_types
      \<and> opl_parse_id X s (Suc 0) = Inr (v, i1)
      \<and> scanned (node_attribute X s) s i1 (node_locals X (call (set_id v) (call NodeBuilder b))) cs i nst
      \<and> peek s i \<noteq> NUL \<and> opl_parse_space s i = Inr j
      \<and> peek s j \<in> set cs
      \<longrightarrow> (\<exists>flag name e. node_flag (peek s j) = Some (flag, name)
            \<and> opl_parse_line X line_count s b read_types = Inl (e, buf nst)
            \<and> msg e = ''OPL error: Duplicate attribute: '' @ name @ '' ('' @ [peek s j] @ '')''
                       @ '' on line '' @ to_string line_count @ '' column 0''
            \<and> line e = line_count \<and> column e = 0 \<and> data e = None))
   \<and> (peek s 0 = CHR ''w'' \<and> way_bit \<in> read_types
      \<and> opl_parse_id X s (Suc 0) = Inr (v, i1)
      \<and> scanned (way_attribute X s) s i1 (way_locals (call (set_id v) (call WayBuilder b))) cs i wst
      \<and> peek s i \<noteq> NUL \<and> opl_parse_space s i = Inr j
      \<and> peek s j \<in> set cs
      \<longrightarrow> (\<exists>flag name e. way_flag (peek s j) = Some (flag, name)
            \<and> opl_parse_line X line_count s b read_types = Inl (e, buf wst)
            \<and> msg e = ''OPL error: Duplicate attribute: '' @ name @ '' ('' @ [peek s j] @ '')''
                       @ '' on line '' @ to_string line_count @ '' column 0''
            \<and> line e = line_count \<and> column e = 0 \<and> data e = None))
   \<and> (peek s 0 = CHR ''r'' \<and> relation_bit \<in> read_types
      \<and> opl_parse_id X s (Suc 0) = Inr (v, i1)
      \<and> scanned (relation_attribute X s) s i1 (relation_locals (call (set_id v) (call RelationBuilder b))) cs i rst
      \<and> peek s i \<noteq> NUL \<and> opl_parse_space s i = Inr j
      \<and> peek s j \<in> set cs
      \<longrightarrow> (\<exists>flag name e. relation_flag (peek s j) = Some (flag, name)
            \<and> opl_parse_line X line_count s b read_types = Inl (e, buf rst)
            \<and> msg e = ''OPL error: Duplicate attribute: '' @ name @ '' ('' @ [peek s j] @ '')''
                       @ '' on line '' @ to_string line_count @ '' column 0''
            \<and> line e = line_count \<and> column e = 0 \<and> data e = None))
   \<and> (peek s 0 = CHR ''c'' \<and> changeset_bit \<in> read_types
      \<and> opl_parse_changeset_id X s (Suc 0) = Inr (v, i1)
      \<and> scanned (changeset_attribute X s) s i1 (changeset_locals X (call (set_id v) (call ChangesetBuilder b))) cs i cst
      \<and> peek s i \<noteq> NUL \<and> opl_parse_space s i = Inr j
      \<and> peek s j \<in> set cs
      \<longrightarrow> (\<exists>flag name e. changeset_flag (peek s j) = Some (flag, name)
            \<and> opl_parse_line X line_count s b read_types = Inl (e, buf cst)
            \<and> msg e = ''OPL error: Duplicate attribute: '' @ name @ '' ('' @ [peek s j] @ '')''
                       @ '' on line '' @ to_string line_count @ '' column 0''
            \<and> line e = line_count \<and> column e = 0 \<and> data e = None))"
proof (intro conjI impI; (elim conjE)?)
  show "\<exists>flag name e. node_flag (peek s j) = Some (flag, name)
        \<and> opl_parse_line X line_count s b read_types = Inl (e, buf nst)
        \<and> msg e = ''OPL error: Duplicate attribute: '' @ name @ '' ('' @ [peek s j] @ '')''
                   @ '' on line '' @ to_string line_count @ '' column 0''
        \<and> line e = line_count \<and> column e = 0 \<and> data e = None"
    if "peek s 0 = CHR ''n''" "node_bit \<in> read_types"
      "opl_parse_id X s (Suc 0) = Inr (v, i1)"
      "scanned (node_attribute X s) s i1 (node_locals X (call (set_id v) (call NodeBuilder b))) cs i nst"
      "peek s i \<noteq> NUL" "opl_parse_space s i = Inr j" "peek s j \<in> set cs"
    using that by (rule opl_parse_line_node_duplicate)
  show "\<exists>flag name e. way_flag (peek s j) = Some (flag, name)
        \<and> opl_parse_line X line_count s b read_types = Inl (e, buf wst)
        \<and> msg e = ''OPL error: Duplicate attribute: '' @ name @ '' ('' @ [peek s j] @ '')''
                   @ '' on line '' @ to_string line_count @ '' column 0''
        \<and> line e = line_count \<and> column e = 0 \<and> data e = None"
    if "peek s 0 = CHR ''w''" "way_bit \<in> read_types"
      "opl_parse_id X s (Suc 0) = Inr (v, i1)"
      "scanned (way_attribute X s) s i1 (way_locals (call (set_id v) (call WayBuilder b))) cs i wst"
      "peek s i \<noteq> NUL" "opl_parse_space s i = Inr j" "peek s j \<in> set cs"
    using that by (rule opl_parse_line_way_duplicate)
  show "\<exists>flag name e. relation_flag (peek s j) = Some (flag, name)
        \<and> opl_parse_line X line_count s b read_types = Inl (e, buf rst)
        \<and> msg e = ''OPL error: Duplicate attribute: '' @ name @ '' ('' @ [peek s j] @ '')''
                   @ '' on line '' @ to_string line_count @ '' column 0''
        \<and> line e = line_count \<and> column e = 0 \<and> data e = None"
    if "peek s 0 = CHR ''r''" "relation_bit \<in> read_types"
      "opl_parse_id X s (Suc 0) = Inr (v, i1)"
      "scanned (relation_attribute X s) s i1 (relation_locals (call (set_id v) (call RelationBuilder b))) cs i rst"
      "peek s i \<noteq> NUL" "opl_parse_space s i = Inr j" "peek s j \<in> set cs"
    using that by (rule opl_parse_line_relation_duplicate)
  show "\<exists>flag name e. changeset_flag (peek s j) = Some (flag, name)
        \<and> opl_parse_line X line_count s b read_types = Inl (e, buf cst)
        \<and> msg e = ''OPL error: Duplicate attribute: '' @ name @ '' ('' @ [peek s j] @ '')''
                   @ '' on line '' @ to_string line_count @ '' column 0''
        \<and> line e = line_count \<and> column e = 0 \<and> data e = None"
    if "peek s 0 = CHR ''c''" "changeset_bit \<in> read_types"
      "opl_parse_changeset_id X s (Suc 0) = Inr (v, i1)"
      "scanned (changeset_attribute X s) s i1 (changeset_locals X (call (set_id v) (call ChangesetBuilder b))) cs i cst"
      "peek s i \<noteq> NUL" "opl_parse_space s i = Inr j" "peek s j \<in> set cs"
    using that by (rule opl_parse_line_changeset_duplicate)
qed

theorem duplicate_attribute_column_witness:
  "(\<exists>e. opl_parse_line osmium_ext 7 ''n1 v1 v2'' empty_buffer {node_bit}
            = Inl (e, \<lparr>committed = [], written = [NodeBuilder, set_id 1, set_version 1]\<rparr>)
          \<and> msg e = ''OPL error: Duplicate attribute: version (v) on line 7 column 0''
          \<and> line e = 7 \<and> column e = 0 \<and> data e = None)
   \<and> (\<exists>e. opl_parse_line osmium_ext 7 ''w1 v1 v2'' empty_buffer {way_bit}
            = Inl (e, \<lparr>committed = [], written = [WayBuilder, set_id 1, set_version 1]\<rparr>)
          \<and> msg e = ''OPL error: Duplicate attribute: version (v) on line 7 column 0''
          \<and> line e = 7 \<and> column e = 0 \<and> data e = None)
   \<and> (\<exists>e. opl_parse_line osmium_ext 7 ''r1 v1 v2'' empty_buffer {relation_bit}
            = Inl (e, \<lparr>committed = [], written = [RelationBuilder, set_id 1, set_version 1]\<rparr>)
          \<and> msg e = ''OPL error: Duplicate attribute: version (v) on line 7 column 0''
          \<and> line e = 7 \<and> column e = 0 \<and> data e = None)
   \<and> (\<exists>e. opl_parse_line osmium_ext 7 ''c1 k1 k2'' empty_buffer {changeset_bit}
            = Inl (e, \<lparr>committed = [], written = [ChangesetBuilder, set_id 1, set_num_changes 1]\<rparr>)
          \<and> msg e = ''OPL error: Duplicate attribute: num_changes (k) on line 7 column 0''
          \<and> line e = 7 \<and> column e = 0 \<and> data e = None)"
proof -
  have seven: "to_string 7 = ''7''"
    by code_simp
  have node_first: "peek ''n1 v1 v2'' 0 = CHR ''n''"
    by (simp add: peek_def)
  have node_id: "opl_parse_id osmium_ext ''n1 v1 v2'' (Suc 0) = Inr (1, 2)"
    by code_simp
  have node_peeks: "peek ''n1 v1 v2'' 2 \<noteq> NUL" "peek ''n1 v1 v2'' 3 \<noteq> NUL" "peek ''n1 v1 v2'' 5 \<noteq> NUL"
    by (simp_all add: peek_def NUL_def)
  have node_letter: "peek ''n1 v1 v2'' 3 = CHR ''v''" "peek ''n1 v1 v2'' 6 = CHR ''v''"
    by (simp_all add: peek_def)
  have node_space: "opl_parse_space ''n1 v1 v2'' 2 = Inr 3" "opl_parse_space ''n1 v1 v2'' 5 = Inr 6"
    by code_simp+
  have node_attr: "node_attribute osmium_ext ''n1 v1 v2'' (peek ''n1 v1 v2'' 3) (Suc 3) (node_locals osmium_ext (call (set_id 1) (call NodeBuilder empty_buffer)))
      = Inr (5, ((node_locals osmium_ext (call (set_id 1) (call NodeBuilder empty_buffer)))\<lparr>has_version := True, buf := call (set_version 1) (call (set_id 1) (call NodeBuilder empty_buffer))\<rparr>))"
    by code_simp
  have node_scanned: "scanned (node_attribute osmium_ext ''n1 v1 v2'') ''n1 v1 v2'' 2 (node_locals osmium_ext (call (set_id 1) (call NodeBuilder empty_buffer)))
      [CHR ''v''] 5 ((node_locals osmium_ext (call (set_id 1) (call NodeBuilder empty_buffer)))\<lparr>has_version := True, buf := call (set_version 1) (call (set_id 1) (call NodeBuilder empty_buffer))\<rparr>)"
    using scanned_more [where attribute = "node_attribute osmium_ext ''n1 v1 v2''" and s = "''n1 v1 v2''",
        OF node_peeks(1) node_space(1) node_peeks(2) node_attr scanned_none]
    by (simp only: node_letter)
  have node_again: "peek ''n1 v1 v2'' 6 \<in> set [CHR ''v'']"
    by (simp add: peek_def)
  have node_flag: "node_flag CHR ''v'' = Some (has_version, ''version'')"
    by (simp add: node_flag_def object_flag_def)
  have node_buf: "buf ((node_locals osmium_ext (call (set_id 1) (call NodeBuilder empty_buffer)))\<lparr>has_version := True, buf := call (set_version 1) (call (set_id 1) (call NodeBuilder empty_buffer))\<rparr>)
      = \<lparr>committed = [], written = [NodeBuilder, set_id 1, set_version 1]\<rparr>"
    by (simp add: call_def empty_buffer_def)
  have node_bit: "node_bit \<in> {node_bit}"
    by simp
  have node_thrown: "(\<exists>e. opl_parse_line osmium_ext 7 ''n1 v1 v2'' empty_buffer {node_bit}
            = Inl (e, \<lparr>committed = [], written = [NodeBuilder, set_id 1, set_version 1]\<rparr>)
          \<and> msg e = ''OPL error: Duplicate attribute: version (v) on line 7 column 0''
          \<and> line e = 7 \<and> column e = 0 \<and> data e = None)"
    using duplicate_attribute_column [where X = osmium_ext and s = "''n1 v1 v2''" and line_count = 7
        and b = empty_buffer and read_types = "{node_bit}" and v = 1 and ?i1.0 = 2
        and cs = "[CHR ''v'']" and i = 5 and j = 6
        and nst = "((node_locals osmium_ext (call (set_id 1) (call NodeBuilder empty_buffer)))\<lparr>has_version := True, buf := call (set_version 1) (call (set_id 1) (call NodeBuilder empty_buffer))\<rparr>)",
        THEN conjunct1, rule_format,
        OF conjI [OF node_first conjI [OF node_bit conjI [OF node_id conjI [OF node_scanned
          conjI [OF node_peeks(3) conjI [OF node_space(2) node_again]]]]]]]
    by (simp add: node_flag node_buf node_letter seven)
  have way_first: "peek ''w1 v1 v2'' 0 = CHR ''w''"
    by (simp add: peek_def)
  have way_id: "opl_parse_id osmium_ext ''w1 v1 v2'' (Suc 0) = Inr (1, 2)"
    by code_simp
  have way_peeks: "peek ''w1 v1 v2'' 2 \<noteq> NUL" "peek ''w1 v1 v2'' 3 \<noteq> NUL" "peek ''w1 v1 v2'' 5 \<noteq> NUL"
    by (simp_all add: peek_def NUL_def)
  have way_letter: "peek ''w1 v1 v2'' 3 = CHR ''v''" "peek ''w1 v1 v2'' 6 = CHR ''v''"
    by (simp_all add: peek_def)
  have way_space: "opl_parse_space ''w1 v1 v2'' 2 = Inr 3" "opl_parse_space ''w1 v1 v2'' 5 = Inr 6"
    by code_simp+
  have way_attr: "way_attribute osmium_ext ''w1 v1 v2'' (peek ''w1 v1 v2'' 3) (Suc 3) (way_locals (call (set_id 1) (call WayBuilder empty_buffer)))
      = Inr (5, ((way_locals (call (set_id 1) (call WayBuilder empty_buffer)))\<lparr>has_version := True, buf := call (set_version 1) (call (set_id 1) (call WayBuilder empty_buffer))\<rparr>))"
    by code_simp
  have way_scanned: "scanned (way_attribute osmium_ext ''w1 v1 v2'') ''w1 v1 v2'' 2 (way_locals (call (set_id 1) (call WayBuilder empty_buffer)))
      [CHR ''v''] 5 ((way_locals (call (set_id 1) (call WayBuilder empty_buffer)))\<lparr>has_version := True, buf := call (set_version 1) (call (set_id 1) (call WayBuilder empty_buffer))\<rparr>)"
    using scanned_more [where attribute = "way_attribute osmium_ext ''w1 v1 v2''" and s = "''w1 v1 v2''",
        OF way_peeks(1) way_space(1) way_peeks(2) way_attr scanned_none]
    by (simp only: way_letter)
  have way_again: "peek ''w1 v1 v2'' 6 \<in> set [CHR ''v'']"
    by (simp add: peek_def)
  have way_flag: "way_flag CHR ''v'' = Some (has_version, ''version'')"
    by (simp add: way_flag_def object_flag_def)
  have way_buf: "buf ((way_locals (call (set_id 1) (call WayBuilder empty_buffer)))\<lparr>has_version := True, buf := call (set_version 1) (call (set_id 1) (call WayBuilder empty_buffer))\<rparr>)
      = \<lparr>committed = [], written = [WayBuilder, set_id 1, set_version 1]\<rparr>"
    by (simp add: call_def empty_buffer_def)
  have way_bit: "way_bit \<in> {way_bit}"
    by simp
  have way_thrown: "(\<exists>e. opl_parse_line osmium_ext 7 ''w1 v1 v2'' empty_buffer {way_bit}
            = Inl (e, \<lparr>committed = [], written = [WayBuilder, set_id 1, set_version 1]\<rparr>)
          \<and> msg e = ''OPL error: Duplicate attribute: version (v) on line 7 column 0''
          \<and> line e = 7 \<and> column e = 0 \<and> data e = None)"
    using duplicate_attribute_column [where X = osmium_ext and s = "''w1 v1 v2''" and line_count = 7
        and b = empty_buffer and read_types = "{way_bit}" and v = 1 and ?i1.0 = 2
        and cs = "[CHR ''v'']" and i = 5 and j = 6
        and wst = "((way_locals (call (set_id 1) (call WayBuilder empty_buffer)))\<lparr>has_version := True, buf := call (set_version 1) (call (set_id 1) (call WayBuilder empty_buffer))\<rparr>)",
        THEN conjunct2, THEN conjunct1, rule_format,
        OF conjI [OF way_first conjI [OF way_bit conjI [OF way_id conjI [OF way_scanned
          conjI [OF way_peeks(3) conjI [OF way_space(2) way_again]]]]]]]
    by (simp add: way_flag way_buf way_letter seven)
  have relation_first: "peek ''r1 v1 v2'' 0 = CHR ''r''"
    by (simp add: peek_def)
  have relation_id: "opl_parse_id osmium_ext ''r1 v1 v2'' (Suc 0) = Inr (1, 2)"
    by code_simp
  have relation_peeks: "peek ''r1 v1 v2'' 2 \<noteq> NUL" "peek ''r1 v1 v2'' 3 \<noteq> NUL" "peek ''r1 v1 v2'' 5 \<noteq> NUL"
    by (simp_all add: peek_def NUL_def)
  have relation_letter: "peek ''r1 v1 v2'' 3 = CHR ''v''" "peek ''r1 v1 v2'' 6 = CHR ''v''"
    by (simp_all add: peek_def)
  have relation_space: "opl_parse_space ''r1 v1 v2'' 2 = Inr 3" "opl_parse_space ''r1 v1 v2'' 5 = Inr 6"
    by code_simp+
  have relation_attr: "relation_attribute osmium_ext ''r1 v1 v2'' (peek ''r1 v1 v2'' 3) (Suc 3) (relation_locals (call (set_id 1) (call RelationBuilder empty_buffer)))
      = Inr (5, ((relation_locals (call (set_id 1) (call RelationBuilder empty_buffer)))\<lparr>has_version := True, buf := call (set_version 1) (call (set_id 1) (call RelationBuilder empty_buffer))\<rparr>))"
    by code_simp
  have relation_scanned: "scanned (relation_attribute osmium_ext ''r1 v1 v2'') ''r1 v1 v2'' 2 (relation_locals (call (set_id 1) (call RelationBuilder empty_buffer)))
      [CHR ''v''] 5 ((relation_locals (call (set_id 1) (call RelationBuilder empty_buffer)))\<lparr>has_version := True, buf := call (set_version 1) (call (set_id 1) (call RelationBuilder empty_buffer))\<rparr>)"
    using scanned_more [where attribute = "relation_attribute osmium_ext ''r1 v1 v2''" and s = "''r1 v1 v2''",
        OF relation_peeks(1) relation_space(1) relation_peeks(2) relation_attr scanned_none]
    by (simp only: relation_letter)
  have relation_again: "peek ''r1 v1 v2'' 6 \<in> set [CHR ''v'']"
    by (simp add: peek_def)
  have relation_flag: "relation_flag CHR ''v'' = Some (has_version, ''version'')"
    by (simp add: relation_flag_def object_flag_def)
  have relation_buf: "buf ((relation_locals (call (set_id 1) (call RelationBuilder empty_buffer)))\<lparr>has_version := True, buf := call (set_version 1) (call (set_id 1) (call RelationBuilder empty_buffer))\<rparr>)
      = \<lparr>committed = [], written = [RelationBuilder, set_id 1, set_version 1]\<rparr>"
    by (simp add: call_def empty_buffer_def)
  have relation_bit: "relation_bit \<in> {relation_bit}"
    by simp
  have relation_thrown: "(\<exists>e. opl_parse_line osmium_ext 7 ''r1 v1 v2'' empty_buffer {relation_bit}
            = Inl (e, \<lparr>committed = [], written = [RelationBuilder, set_id 1, set_version 1]\<rparr>)
          \<and> msg e = ''OPL error: Duplicate attribute: version (v) on line 7 column 0''
          \<and> line e = 7 \<and> column e = 0 \<and> data e = None)"
    using duplicate_attribute_column [where X = osmium_ext and s = "''r1 v1 v2''" and line_count = 7
        and b = empty_buffer and read_types = "{relation_bit}" and v = 1 and ?i1.0 = 2
        and cs = "[CHR ''v'']" and i = 5 and j = 6
        and rst = "((relation_locals (call (set_id 1) (call RelationBuilder empty_buffer)))\<lparr>has_version := True, buf := call (set_version 1) (call (set_id 1) (call RelationBuilder empty_buffer))\<rparr>)",
        THEN conjunct2, THEN conjunct2, THEN conjunct1, rule_format,
        OF conjI [OF relation_first conjI [OF relation_bit conjI [OF relation_id conjI [OF relation_scanned
          conjI [OF relation_peeks(3) conjI [OF relation_space(2) relation_again]]]]]]]
    by (simp add: relation_flag relation_buf relation_letter seven)
  have changeset_first: "peek ''c1 k1 k2'' 0 = CHR ''c''"
    by (simp add: peek_def)
  have changeset_id: "opl_parse_changeset_id osmium_ext ''c1 k1 k2'' (Suc 0) = Inr (1, 2)"
    by code_simp
  have changeset_peeks: "peek ''c1 k1 k2'' 2 \<noteq> NUL" "peek ''c1 k1 k2'' 3 \<noteq> NUL" "peek ''c1 k1 k2'' 5 \<noteq> NUL"
    by (simp_all add: peek_def NUL_def)
  have changeset_letter: "peek ''c1 k1 k2'' 3 = CHR ''k''" "peek ''c1 k1 k2'' 6 = CHR ''k''"
    by (simp_all add: peek_def)
  have changeset_space: "opl_parse_space ''c1 k1 k2'' 2 = Inr 3" "opl_parse_space ''c1 k1 k2'' 5 = Inr 6"
    by code_simp+
  have changeset_attr: "changeset_attribute osmium_ext ''c1 k1 k2'' (peek ''c1 k1 k2'' 3) (Suc 3) (changeset_locals osmium_ext (call (set_id 1) (call ChangesetBuilder empty_buffer)))
      = Inr (5, ((changeset_locals osmium_ext (call (set_id 1) (call ChangesetBuilder empty_buffer)))\<lparr>has_num_changes := True, buf := call (set_num_changes 1) (call (set_id 1) (call ChangesetBuilder empty_buffer))\<rparr>))"
    by code_simp
  have changeset_scanned: "scanned (changeset_attribute osmium_ext ''c1 k1 k2'') ''c1 k1 k2'' 2 (changeset_locals osmium_ext (call (set_id 1) (call ChangesetBuilder empty_buffer)))
      [CHR ''k''] 5 ((changeset_locals osmium_ext (call (set_id 1) (call ChangesetBuilder empty_buffer)))\<lparr>has_num_changes := True, buf := call (set_num_changes 1) (call (set_id 1) (call ChangesetBuilder empty_buffer))\<rparr>)"
    using scanned_more [where attribute = "changeset_attribute osmium_ext ''c1 k1 k2''" and s = "''c1 k1 k2''",
        OF changeset_peeks(1) changeset_space(1) changeset_peeks(2) changeset_attr scanned_none]
    by (simp only: changeset_letter)
  have changeset_again: "peek ''c1 k1 k2'' 6 \<in> set [CHR ''k'']"
    by (simp add: peek_def)
  have changeset_flag: "changeset_flag CHR ''k'' = Some (has_num_changes, ''num_changes'')"
    by (simp add: changeset_flag_def)
  have changeset_buf: "buf ((changeset_locals osmium_ext (call (set_id 1) (call ChangesetBuilder empty_buffer)))\<lparr>has_num_changes := True, buf := call (set_num_changes 1) (call (set_id 1) (call ChangesetBuilder empty_buffer))\<rparr>)
      = \<lparr>committed = [], written = [ChangesetBuilder, set_id 1, set_num_changes 1]\<rparr>"
    by (simp add: call_def empty_buffer_def)
  have changeset_bit: "changeset_bit \<in> {changeset_bit}"
    by simp
  have changeset_thrown: "(\<exists>e. opl_parse_line osmium_ext 7 ''c1 k1 k2'' empty_buffer {changeset_bit}
            = Inl (e, \<lparr>committed = [], written = [ChangesetBuilder, set_id 1, set_num_changes 1]\<rparr>)
          \<and> msg e = ''OPL error: Duplicate attribute: num_changes (k) on line 7 column 0''
          \<and> line e = 7 \<and> column e = 0 \<and> data e = None)"
    using duplicate_attribute_column [where X = osmium_ext and s = "''c1 k1 k2''" and line_count = 7
        and b = empty_buffer and read_types = "{changeset_bit}" and v = 1 and ?i1.0 = 2
        and cs = "[CHR ''k'']" and i = 5 and j = 6
        and cst = "((changeset_locals osmium_ext (call (set_id 1) (call ChangesetBuilder empty_buffer)))\<lparr>has_num_changes := True, buf := call (set_num_changes 1) (call (set_id 1) (call ChangesetBuilder empty_buffer))\<rparr>)",
        THEN conjunct2, THEN conjunct2, THEN conjunct2, rule_format,
        OF conjI [OF changeset_first conjI [OF changeset_bit conjI [OF changeset_id conjI [OF changeset_scanned
          conjI [OF changeset_peeks(3) conjI [OF changeset_space(2) changeset_again]]]]]]]
    by (simp add: changeset_flag changeset_buf changeset_letter seven)
  from node_thrown way_thrown relation_thrown changeset_thrown
  show ?thesis by blast
qed

text \<open>
  The line \<open>n1 v1 v2\<close>: the second \<open>v\<close> is at offset 6, the reported column
  is 0.
\<close>

theorem duplicate_attribute_column_counterexample:
  "opl_parse_line osmium_ext 1 ''n1 v1 v2'' empty_buffer {node_bit}
     = Inl (\<lparr>line = 1, column = 0, data = None,
             msg = ''OPL error: Duplicate attribute: version (v) on line 1 column 0''\<rparr>,
           \<lparr>committed = [], written = [NodeBuilder, set_id 1, set_version 1]\<rparr>)
   \<and> peek ''n1 v1 v2'' 6 = CHR ''v''
   \<and> column \<lparr>line = 1, column = 0, data = None,
             msg = ''OPL error: Duplicate attribute: version (v) on line 1 column 0''\<rparr> \<noteq> 6"
  by code_simp

subsection \<open>The position of an error\<close>

lemma opl_parse_node_loop_unknown:
  assumes "peek s i \<noteq> NUL" and "opl_parse_space s i = Inr j"
    and "peek s j \<notin> {NUL, CHR ''v'', CHR ''d'', CHR ''c'', CHR ''t'', CHR ''i'', CHR ''u'', CHR ''T'', CHR ''x'', CHR ''y''}"
  shows "opl_parse_node_loop X s i st = Inl (opl_error ''unknown attribute'' (Some j), buf st)"
proof -
  from assms(3) have "node_attribute X s (peek s j) (Suc j) st
      = Inl (opl_error ''unknown attribute'' (Some j))"
    by (simp add: node_attribute_def object_attribute_def)
  with assms show ?thesis
    unfolding opl_parse_node_loop.simps [of X s i st] by (simp add: Let_def)
qed

lemma opl_parse_way_loop_unknown:
  assumes "peek s i \<noteq> NUL" and "opl_parse_space s i = Inr j"
    and "peek s j \<notin> {NUL, CHR ''v'', CHR ''d'', CHR ''c'', CHR ''t'', CHR ''i'', CHR ''u'', CHR ''T'', CHR ''N''}"
  shows "opl_parse_way_loop X s i st = Inl (opl_error ''unknown attribute'' (Some j), buf st)"
proof -
  from assms(3) have "way_attribute X s (peek s j) (Suc j) st
      = Inl (opl_error ''unknown attribute'' (Some j))"
    by (simp add: way_attribute_def object_attribute_def)
  with assms show ?thesis
    unfolding opl_parse_way_loop.simps [of X s i st] by (simp add: Let_def)
qed

lemma opl_parse_relation_loop_unknown:
  assumes "peek s i \<noteq> NUL" and "opl_parse_space s i = Inr j"
    and "peek s j \<notin> {NUL, CHR ''v'', CHR ''d'', CHR ''c'', CHR ''t'', CHR ''i'', CHR ''u'', CHR ''T'', CHR ''M''}"
  shows "opl_parse_relation_loop X s i st = Inl (opl_error ''unknown attribute'' (Some j), buf st)"
proof -
  from assms(3) have "relation_attribute X s (peek s j) (Suc j) st
      = Inl (opl_error ''unknown attribute'' (Some j))"
    by (simp add: relation_attribute_def object_attribute_def)
  with assms show ?thesis
    unfolding opl_parse_relation_loop.simps [of X s i st] by (simp add: Let_def)
qed

lemma opl_parse_changeset_loop_unknown:
  assumes "peek s i \<noteq> NUL" and "opl_parse_space s i = Inr j"
    and "peek s j \<notin> {NUL, CHR ''k'', CHR ''s'', CHR ''e'', CHR ''d'', CHR ''i'', CHR ''u'', CHR ''x'', CHR ''y'', CHR ''X'', CHR ''Y'', CHR ''T''}"
  shows "opl_parse_changeset_loop X s i st = Inl (opl_error ''unknown attribute'' (Some j), buf st)"
proof -
  from assms(3) have "changeset_attribute X s (peek s j) (Suc j) st
      = Inl (opl_error ''unknown attribute'' (Some j))"
    by (simp add: changeset_attribute_def)
  with assms show ?thesis
    unfolding opl_parse_changeset_loop.simps [of X s i st] by (simp add: Let_def)
qed

lemma opl_parse_line_node_unknown:
  assumes "peek s 0 = CHR ''n''" and "node_bit \<in> read_types"
    and "opl_parse_id X s (Suc 0) = Inr (v, i1)"
    and "scanned (node_attribute X s) s i1 (node_locals X (call (set_id v) (call NodeBuilder b))) cs i st"
    and "peek s i \<noteq> NUL" and "opl_parse_space s i = Inr j"
    and "peek s j \<notin> {NUL, CHR ''v'', CHR ''d'', CHR ''c'', CHR ''t'', CHR ''i'', CHR ''u'', CHR ''T'', CHR ''x'', CHR ''y''}"
  shows "\<exists>e. opl_parse_line X line_count s b read_types = Inl (e, buf st)
           \<and> msg e = ''OPL error: unknown attribute on line '' @ to_string line_count
                      @ '' column '' @ to_string j
           \<and> line e = line_count \<and> column e = j \<and> data e = Some j"
proof -
  from opl_parse_node_loop_unknown [OF assms(5-7)]
  have "opl_parse_node_loop X s i st = Inl (opl_error ''unknown attribute'' (Some j), buf st)" .
  from opl_parse_line_node_throw [OF assms(1-4) this, of line_count]
  show ?thesis
    by (simp add: opl_error_def set_pos_def)
qed

lemma opl_parse_line_way_unknown:
  assumes "peek s 0 = CHR ''w''" and "way_bit \<in> read_types"
    and "opl_parse_id X s (Suc 0) = Inr (v, i1)"
    and "scanned (way_attribute X s) s i1 (way_locals (call (set_id v) (call WayBuilder b))) cs i st"
    and "peek s i \<noteq> NUL" and "opl_parse_space s i = Inr j"
    and "peek s j \<notin> {NUL, CHR ''v'', CHR ''d'', CHR ''c'', CHR ''t'', CHR ''i'', CHR ''u'', CHR ''T'', CHR ''N''}"
  shows "\<exists>e. opl_parse_line X line_count s b read_types = Inl (e, buf st)
           \<and> msg e = ''OPL error: unknown attribute on line '' @ to_string line_count
                      @ '' column '' @ to_string j
           \<and> line e = line_count \<and> column e = j \<and> data e = Some j"
proof -
  from opl_parse_way_loop_unknown [OF assms(5-7)]
  have "opl_parse_way_loop X s i st = Inl (opl_error ''unknown attribute'' (Some j), buf st)" .
  from opl_parse_line_way_throw [OF assms(1-4) this, of line_count]
  show ?thesis
    by (simp add: opl_error_def set_pos_def)
qed

lemma opl_parse_line_relation_unknown:
  assumes "peek s 0 = CHR ''r''" and "relation_bit \<in> read_types"
    and "opl_parse_id X s (Suc 0) = Inr (v, i1)"
    and "scanned (relation_attribute X s) s i1 (relation_locals (call (set_id v) (call RelationBuilder b))) cs i st"
    and "peek s i \<noteq> NUL" and "opl_parse_space s i = Inr j"
    and "peek s j \<notin> {NUL, CHR ''v'', CHR ''d'', CHR ''c'', CHR ''t'', CHR ''i'', CHR ''u'', CHR ''T'', CHR ''M''}"
  shows "\<exists>e. opl_parse_line X line_count s b read_types = Inl (e, buf st)
           \<and> msg e = ''OPL error: unknown attribute on line '' @ to_string line_count
                      @ '' column '' @ to_string j
           \<and> line e = line_count \<and> column e = j \<and> data e = Some j"
proof -
  from opl_parse_relation_loop_unknown [OF assms(5-7)]
  have "opl_parse_relation_loop X s i st = Inl (opl_error ''unknown attribute'' (Some j), buf st)" .
  from opl_parse_line_relation_throw [OF assms(1-4) this, of line_count]
  show ?thesis
    by (simp add: opl_error_def set_pos_def)
qed

lemma opl_parse_line_changeset_unknown:
  assumes "peek s 0 = CHR ''c''" and "changeset_bit \<in> read_types"
    and "opl_parse_changeset_id X s (Suc 0) = Inr (v, i1)"
    and "scanned (changeset_attribute X s) s i1 (changeset_locals X (call (set_id v) (call ChangesetBuilder b))) cs i st"
    and "peek s i \<noteq> NUL" and "opl_parse_space s i = Inr j"
    and "peek s j \<notin> {NUL, CHR ''k'', CHR ''s'', CHR ''e'', CHR ''d'', CHR ''i'', CHR ''u'', CHR ''x'', CHR ''y'', CHR ''X'', CHR ''Y'', CHR ''T''}"
  shows "\<exists>e. opl_parse_line X line_count s b read_types = Inl (e, buf st)
           \<and> msg e = ''OPL error: unknown attribute on line '' @ to_string line_count
                      @ '' column '' @ to_string j
           \<and> line e = line_count \<and> column e = j \<and> data e = Some j"
proof -
  from opl_parse_changeset_loop_unknown [OF assms(5-7)]
  have "opl_parse_changeset_loop X s i st = Inl (opl_error ''unknown attribute'' (Some j), buf st)" .
  from opl_parse_line_changeset_throw [OF assms(1-4) this, of line_count]
  show ?thesis
    by (simp add: opl_error_def set_pos_def)
qed

text \<open>
  C7. An error that \<open>opl_parse_line\<close> throws carries the given line number, and
  its column is the cursor the error was thrown with, which is the offset from
  the start of the line, or 0 if it was thrown without a cursor; the cursor and
  the message are those of the error thrown inside, the position appended to the
  message. Take a line of an entity whose kind is asked for and whose id is
  parsed, and let the attribute loop have read some attributes. When the loop
  then stands at white space followed by a byte that is the letter of no
  attribute, \<open>opl_parse_line\<close> fails with \<open>unknown attribute\<close> and the column is
  the offset of that byte, one byte in front of the cursor the \<open>switch\<close> was
  entered with.
\<close>

theorem opl_parse_line_position:
  fixes nst :: node_state and wst :: way_state
    and rst :: relation_state and cst :: changeset_state
  shows
  "(opl_parse_line X line_count s b read_types = Inl (e, b')
      \<longrightarrow> line e = line_count
          \<and> column e = (case data e of Some d \<Rightarrow> d | None \<Rightarrow> 0)
          \<and> (\<exists>e0. opl_parse_line_try X s b read_types = Inl (e0, b')
                \<and> data e = data e0
                \<and> msg e = msg e0 @ '' on line '' @ to_string line_count
                           @ '' column '' @ to_string (column e)))
   \<and> (peek s 0 = CHR ''n'' \<and> node_bit \<in> read_types
      \<and> opl_parse_id X s (Suc 0) = Inr (v, i1)
      \<and> scanned (node_attribute X s) s i1 (node_locals X (call (set_id v) (call NodeBuilder b))) cs i nst
      \<and> peek s i \<noteq> NUL \<and> opl_parse_space s i = Inr j
      \<and> peek s j \<notin> {NUL, CHR ''v'', CHR ''d'', CHR ''c'', CHR ''t'', CHR ''i'', CHR ''u'', CHR ''T'', CHR ''x'', CHR ''y''}
      \<longrightarrow> (\<exists>e. opl_parse_line X line_count s b read_types = Inl (e, buf nst)
            \<and> msg e = ''OPL error: unknown attribute on line '' @ to_string line_count
                       @ '' column '' @ to_string j
            \<and> line e = line_count \<and> column e = j \<and> data e = Some j))
   \<and> (peek s 0 = CHR ''w'' \<and> way_bit \<in> read_types
      \<and> opl_parse_id X s (Suc 0) = Inr (v, i1)
      \<and> scanned (way_attribute X s) s i1 (way_locals (call (set_id v) (call WayBuilder b))) cs i wst
      \<and> peek s i \<noteq> NUL \<and> opl_parse_space s i = Inr j
      \<and> peek s j \<notin> {NUL, CHR ''v'', CHR ''d'', CHR ''c'', CHR ''t'', CHR ''i'', CHR ''u'', CHR ''T'', CHR ''N''}
      \<longrightarrow> (\<exists>e. opl_parse_line X line_count s b read_types = Inl (e, buf wst)
            \<and> msg e = ''OPL error: unknown attribute on line '' @ to_string line_count
                       @ '' column '' @ to_string j
            \<and> line e = line_count \<and> column e = j \<and> data e = Some j))
   \<and> (peek s 0 = CHR ''r'' \<and> relation_bit \<in> read_types
      \<and> opl_parse_id X s (Suc 0) = Inr (v, i1)
      \<and> scanned (relation_attribute X s) s i1 (relation_locals (call (set_id v) (call RelationBuilder b))) cs i rst
      \<and> peek s i \<noteq> NUL \<and> opl_parse_space s i = Inr j
      \<and> peek s j \<notin> {NUL, CHR ''v'', CHR ''d'', CHR ''c'', CHR ''t'', CHR ''i'', CHR ''u'', CHR ''T'', CHR ''M''}
      \<longrightarrow> (\<exists>e. opl_parse_line X line_count s b read_types = Inl (e, buf rst)
            \<and> msg e = ''OPL error: unknown attribute on line '' @ to_string line_count
                       @ '' column '' @ to_string j
            \<and> line e = line_count \<and> column e = j \<and> data e = Some j))
   \<and> (peek s 0 = CHR ''c'' \<and> changeset_bit \<in> read_types
      \<and> opl_parse_changeset_id X s (Suc 0) = Inr (v, i1)
      \<and> scanned (changeset_attribute X s) s i1 (changeset_locals X (call (set_id v) (call ChangesetBuilder b))) cs i cst
      \<and> peek s i \<noteq> NUL \<and> opl_parse_space s i = Inr j
      \<and> peek s j \<notin> {NUL, CHR ''k'', CHR ''s'', CHR ''e'', CHR ''d'', CHR ''i'', CHR ''u'', CHR ''x'', CHR ''y'', CHR ''X'', CHR ''Y'', CHR ''T''}
      \<longrightarrow> (\<exists>e. opl_parse_line X line_count s b read_types = Inl (e, buf cst)
            \<and> msg e = ''OPL error: unknown attribute on line '' @ to_string line_count
                       @ '' column '' @ to_string j
            \<and> line e = line_count \<and> column e = j \<and> data e = Some j))"
proof (intro conjI impI; (elim conjE)?)
  assume "opl_parse_line X line_count s b read_types = Inl (e, b')"
  then obtain e0 where e0: "opl_parse_line_try X s b read_types = Inl (e0, b')"
    and e: "e = set_pos line_count (case data e0 of Some d \<Rightarrow> d | None \<Rightarrow> 0) e0"
    unfolding opl_parse_line_def by (auto split: sum.splits prod.splits option.splits)
  from e show "line e = line_count"
    by (simp add: set_pos_def)
  from e show "column e = (case data e of Some d \<Rightarrow> d | None \<Rightarrow> 0)"
    by (simp add: set_pos_def)
  from e0 e
  show "\<exists>e0. opl_parse_line_try X s b read_types = Inl (e0, b')
                \<and> data e = data e0
                \<and> msg e = msg e0 @ '' on line '' @ to_string line_count
                           @ '' column '' @ to_string (column e)"
    by (intro exI [of _ e0]) (simp add: set_pos_def)
next
  show "\<exists>e. opl_parse_line X line_count s b read_types = Inl (e, buf nst)
        \<and> msg e = ''OPL error: unknown attribute on line '' @ to_string line_count
                   @ '' column '' @ to_string j
        \<and> line e = line_count \<and> column e = j \<and> data e = Some j"
    if "peek s 0 = CHR ''n''" "node_bit \<in> read_types"
      "opl_parse_id X s (Suc 0) = Inr (v, i1)"
      "scanned (node_attribute X s) s i1 (node_locals X (call (set_id v) (call NodeBuilder b))) cs i nst"
      "peek s i \<noteq> NUL" "opl_parse_space s i = Inr j"
      "peek s j \<notin> {NUL, CHR ''v'', CHR ''d'', CHR ''c'', CHR ''t'', CHR ''i'', CHR ''u'', CHR ''T'', CHR ''x'', CHR ''y''}"
    using that by (rule opl_parse_line_node_unknown)
  show "\<exists>e. opl_parse_line X line_count s b read_types = Inl (e, buf wst)
        \<and> msg e = ''OPL error: unknown attribute on line '' @ to_string line_count
                   @ '' column '' @ to_string j
        \<and> line e = line_count \<and> column e = j \<and> data e = Some j"
    if "peek s 0 = CHR ''w''" "way_bit \<in> read_types"
      "opl_parse_id X s (Suc 0) = Inr (v, i1)"
      "scanned (way_attribute X s) s i1 (way_locals (call (set_id v) (call WayBuilder b))) cs i wst"
      "peek s i \<noteq> NUL" "opl_parse_space s i = Inr j"
      "peek s j \<notin> {NUL, CHR ''v'', CHR ''d'', CHR ''c'', CHR ''t'', CHR ''i'', CHR ''u'', CHR ''T'', CHR ''N''}"
    using that by (rule opl_parse_line_way_unknown)
  show "\<exists>e. opl_parse_line X line_count s b read_types = Inl (e, buf rst)
        \<and> msg e = ''OPL error: unknown attribute on line '' @ to_string line_count
                   @ '' column '' @ to_string j
        \<and> line e = line_count \<and> column e = j \<and> data e = Some j"
    if "peek s 0 = CHR ''r''" "relation_bit \<in> read_types"
      "opl_parse_id X s (Suc 0) = Inr (v, i1)"
      "scanned (relation_attribute X s) s i1 (relation_locals (call (set_id v) (call RelationBuilder b))) cs i rst"
      "peek s i \<noteq> NUL" "opl_parse_space s i = Inr j"
      "peek s j \<notin> {NUL, CHR ''v'', CHR ''d'', CHR ''c'', CHR ''t'', CHR ''i'', CHR ''u'', CHR ''T'', CHR ''M''}"
    using that by (rule opl_parse_line_relation_unknown)
  show "\<exists>e. opl_parse_line X line_count s b read_types = Inl (e, buf cst)
        \<and> msg e = ''OPL error: unknown attribute on line '' @ to_string line_count
                   @ '' column '' @ to_string j
        \<and> line e = line_count \<and> column e = j \<and> data e = Some j"
    if "peek s 0 = CHR ''c''" "changeset_bit \<in> read_types"
      "opl_parse_changeset_id X s (Suc 0) = Inr (v, i1)"
      "scanned (changeset_attribute X s) s i1 (changeset_locals X (call (set_id v) (call ChangesetBuilder b))) cs i cst"
      "peek s i \<noteq> NUL" "opl_parse_space s i = Inr j"
      "peek s j \<notin> {NUL, CHR ''k'', CHR ''s'', CHR ''e'', CHR ''d'', CHR ''i'', CHR ''u'', CHR ''x'', CHR ''y'', CHR ''X'', CHR ''Y'', CHR ''T''}"
    using that by (rule opl_parse_line_changeset_unknown)
qed

theorem opl_parse_line_position_witness:
  "opl_parse_line osmium_ext 7 ''n1 z5'' empty_buffer {node_bit}
     = Inl (\<lparr>line = 7, column = 3, data = Some 3,
           msg = ''OPL error: unknown attribute on line 7 column 3''\<rparr>, \<lparr>committed = [], written = [NodeBuilder, set_id 1]\<rparr>)
   \<and> line \<lparr>line = 7, column = 3, data = Some 3,
           msg = ''OPL error: unknown attribute on line 7 column 3''\<rparr> = 7
   \<and> column \<lparr>line = 7, column = 3, data = Some 3,
           msg = ''OPL error: unknown attribute on line 7 column 3''\<rparr> = 3
   \<and> peek ''n1 z5'' 3 = CHR ''z''
   \<and> (\<exists>e. opl_parse_line osmium_ext 7 ''n1 v1 z5'' empty_buffer {node_bit}
            = Inl (e, \<lparr>committed = [], written = [NodeBuilder, set_id 1, set_version 1]\<rparr>)
          \<and> msg e = ''OPL error: unknown attribute on line 7 column 6''
          \<and> line e = 7 \<and> column e = 6 \<and> data e = Some 6)
   \<and> peek ''n1 v1 z5'' 6 = CHR ''z''
   \<and> (\<exists>e. opl_parse_line osmium_ext 7 ''w1 v1 z5'' empty_buffer {way_bit}
            = Inl (e, \<lparr>committed = [], written = [WayBuilder, set_id 1, set_version 1]\<rparr>)
          \<and> msg e = ''OPL error: unknown attribute on line 7 column 6''
          \<and> line e = 7 \<and> column e = 6 \<and> data e = Some 6)
   \<and> peek ''w1 v1 z5'' 6 = CHR ''z''
   \<and> (\<exists>e. opl_parse_line osmium_ext 7 ''r1 v1 z5'' empty_buffer {relation_bit}
            = Inl (e, \<lparr>committed = [], written = [RelationBuilder, set_id 1, set_version 1]\<rparr>)
          \<and> msg e = ''OPL error: unknown attribute on line 7 column 6''
          \<and> line e = 7 \<and> column e = 6 \<and> data e = Some 6)
   \<and> peek ''r1 v1 z5'' 6 = CHR ''z''
   \<and> (\<exists>e. opl_parse_line osmium_ext 7 ''c1 k1 z5'' empty_buffer {changeset_bit}
            = Inl (e, \<lparr>committed = [], written = [ChangesetBuilder, set_id 1, set_num_changes 1]\<rparr>)
          \<and> msg e = ''OPL error: unknown attribute on line 7 column 6''
          \<and> line e = 7 \<and> column e = 6 \<and> data e = Some 6)
   \<and> peek ''c1 k1 z5'' 6 = CHR ''z''"
proof -
  have seven: "to_string 7 = ''7''" "to_string 6 = ''6''"
    by code_simp+
  have thrown: "opl_parse_line osmium_ext 7 ''n1 z5'' empty_buffer {node_bit}
     = Inl (\<lparr>line = 7, column = 3, data = Some 3,
           msg = ''OPL error: unknown attribute on line 7 column 3''\<rparr>, \<lparr>committed = [], written = [NodeBuilder, set_id 1]\<rparr>)"
    by code_simp
  have caught: "line \<lparr>line = 7, column = 3, data = Some 3,
           msg = ''OPL error: unknown attribute on line 7 column 3''\<rparr> = 7
   \<and> column \<lparr>line = 7, column = 3, data = Some 3,
           msg = ''OPL error: unknown attribute on line 7 column 3''\<rparr> = 3
   \<and> peek ''n1 z5'' 3 = CHR ''z''"
    using thrown
      opl_parse_line_position [where X = osmium_ext and s = "''n1 z5''" and line_count = 7
        and b = empty_buffer and read_types = "{node_bit}"
        and e = "\<lparr>line = 7, column = 3, data = Some 3,
           msg = ''OPL error: unknown attribute on line 7 column 3''\<rparr>"
        and b' = "\<lparr>committed = [], written = [NodeBuilder, set_id 1]\<rparr>", THEN conjunct1]
    by (simp add: peek_def)
  have node_first: "peek ''n1 v1 z5'' 0 = CHR ''n''"
    by (simp add: peek_def)
  have node_id: "opl_parse_id osmium_ext ''n1 v1 z5'' (Suc 0) = Inr (1, 2)"
    by code_simp
  have node_peeks: "peek ''n1 v1 z5'' 2 \<noteq> NUL" "peek ''n1 v1 z5'' 3 \<noteq> NUL" "peek ''n1 v1 z5'' 5 \<noteq> NUL"
    by (simp_all add: peek_def NUL_def)
  have node_letter: "peek ''n1 v1 z5'' 3 = CHR ''v''" "peek ''n1 v1 z5'' 6 = CHR ''z''"
    by (simp_all add: peek_def)
  have node_space: "opl_parse_space ''n1 v1 z5'' 2 = Inr 3" "opl_parse_space ''n1 v1 z5'' 5 = Inr 6"
    by code_simp+
  have node_attr: "node_attribute osmium_ext ''n1 v1 z5'' (peek ''n1 v1 z5'' 3) (Suc 3) (node_locals osmium_ext (call (set_id 1) (call NodeBuilder empty_buffer)))
      = Inr (5, ((node_locals osmium_ext (call (set_id 1) (call NodeBuilder empty_buffer)))\<lparr>has_version := True, buf := call (set_version 1) (call (set_id 1) (call NodeBuilder empty_buffer))\<rparr>))"
    by code_simp
  have node_scanned: "scanned (node_attribute osmium_ext ''n1 v1 z5'') ''n1 v1 z5'' 2 (node_locals osmium_ext (call (set_id 1) (call NodeBuilder empty_buffer)))
      [CHR ''v''] 5 ((node_locals osmium_ext (call (set_id 1) (call NodeBuilder empty_buffer)))\<lparr>has_version := True, buf := call (set_version 1) (call (set_id 1) (call NodeBuilder empty_buffer))\<rparr>)"
    using scanned_more [where attribute = "node_attribute osmium_ext ''n1 v1 z5''" and s = "''n1 v1 z5''",
        OF node_peeks(1) node_space(1) node_peeks(2) node_attr scanned_none]
    by (simp only: node_letter)
  have node_other: "peek ''n1 v1 z5'' 6 \<notin> {NUL, CHR ''v'', CHR ''d'', CHR ''c'', CHR ''t'', CHR ''i'', CHR ''u'', CHR ''T'', CHR ''x'', CHR ''y''}"
    by (simp add: peek_def NUL_def)
  have node_buf: "buf ((node_locals osmium_ext (call (set_id 1) (call NodeBuilder empty_buffer)))\<lparr>has_version := True, buf := call (set_version 1) (call (set_id 1) (call NodeBuilder empty_buffer))\<rparr>)
      = \<lparr>committed = [], written = [NodeBuilder, set_id 1, set_version 1]\<rparr>"
    by (simp add: call_def empty_buffer_def)
  have node_bit: "node_bit \<in> {node_bit}"
    by simp
  have node_thrown: "(\<exists>e. opl_parse_line osmium_ext 7 ''n1 v1 z5'' empty_buffer {node_bit}
            = Inl (e, \<lparr>committed = [], written = [NodeBuilder, set_id 1, set_version 1]\<rparr>)
          \<and> msg e = ''OPL error: unknown attribute on line 7 column 6''
          \<and> line e = 7 \<and> column e = 6 \<and> data e = Some 6)
   \<and> peek ''n1 v1 z5'' 6 = CHR ''z''"
    using opl_parse_line_position [where X = osmium_ext and s = "''n1 v1 z5''" and line_count = 7
        and b = empty_buffer and read_types = "{node_bit}" and v = 1 and ?i1.0 = 2
        and cs = "[CHR ''v'']" and i = 5 and j = 6
        and nst = "((node_locals osmium_ext (call (set_id 1) (call NodeBuilder empty_buffer)))\<lparr>has_version := True, buf := call (set_version 1) (call (set_id 1) (call NodeBuilder empty_buffer))\<rparr>)",
        THEN conjunct2, THEN conjunct1, rule_format,
        OF conjI [OF node_first conjI [OF node_bit conjI [OF node_id conjI [OF node_scanned
          conjI [OF node_peeks(3) conjI [OF node_space(2) node_other]]]]]]]
    by (simp add: node_buf node_letter seven)
  have way_first: "peek ''w1 v1 z5'' 0 = CHR ''w''"
    by (simp add: peek_def)
  have way_id: "opl_parse_id osmium_ext ''w1 v1 z5'' (Suc 0) = Inr (1, 2)"
    by code_simp
  have way_peeks: "peek ''w1 v1 z5'' 2 \<noteq> NUL" "peek ''w1 v1 z5'' 3 \<noteq> NUL" "peek ''w1 v1 z5'' 5 \<noteq> NUL"
    by (simp_all add: peek_def NUL_def)
  have way_letter: "peek ''w1 v1 z5'' 3 = CHR ''v''" "peek ''w1 v1 z5'' 6 = CHR ''z''"
    by (simp_all add: peek_def)
  have way_space: "opl_parse_space ''w1 v1 z5'' 2 = Inr 3" "opl_parse_space ''w1 v1 z5'' 5 = Inr 6"
    by code_simp+
  have way_attr: "way_attribute osmium_ext ''w1 v1 z5'' (peek ''w1 v1 z5'' 3) (Suc 3) (way_locals (call (set_id 1) (call WayBuilder empty_buffer)))
      = Inr (5, ((way_locals (call (set_id 1) (call WayBuilder empty_buffer)))\<lparr>has_version := True, buf := call (set_version 1) (call (set_id 1) (call WayBuilder empty_buffer))\<rparr>))"
    by code_simp
  have way_scanned: "scanned (way_attribute osmium_ext ''w1 v1 z5'') ''w1 v1 z5'' 2 (way_locals (call (set_id 1) (call WayBuilder empty_buffer)))
      [CHR ''v''] 5 ((way_locals (call (set_id 1) (call WayBuilder empty_buffer)))\<lparr>has_version := True, buf := call (set_version 1) (call (set_id 1) (call WayBuilder empty_buffer))\<rparr>)"
    using scanned_more [where attribute = "way_attribute osmium_ext ''w1 v1 z5''" and s = "''w1 v1 z5''",
        OF way_peeks(1) way_space(1) way_peeks(2) way_attr scanned_none]
    by (simp only: way_letter)
  have way_other: "peek ''w1 v1 z5'' 6 \<notin> {NUL, CHR ''v'', CHR ''d'', CHR ''c'', CHR ''t'', CHR ''i'', CHR ''u'', CHR ''T'', CHR ''N''}"
    by (simp add: peek_def NUL_def)
  have way_buf: "buf ((way_locals (call (set_id 1) (call WayBuilder empty_buffer)))\<lparr>has_version := True, buf := call (set_version 1) (call (set_id 1) (call WayBuilder empty_buffer))\<rparr>)
      = \<lparr>committed = [], written = [WayBuilder, set_id 1, set_version 1]\<rparr>"
    by (simp add: call_def empty_buffer_def)
  have way_bit: "way_bit \<in> {way_bit}"
    by simp
  have way_thrown: "(\<exists>e. opl_parse_line osmium_ext 7 ''w1 v1 z5'' empty_buffer {way_bit}
            = Inl (e, \<lparr>committed = [], written = [WayBuilder, set_id 1, set_version 1]\<rparr>)
          \<and> msg e = ''OPL error: unknown attribute on line 7 column 6''
          \<and> line e = 7 \<and> column e = 6 \<and> data e = Some 6)
   \<and> peek ''w1 v1 z5'' 6 = CHR ''z''"
    using opl_parse_line_position [where X = osmium_ext and s = "''w1 v1 z5''" and line_count = 7
        and b = empty_buffer and read_types = "{way_bit}" and v = 1 and ?i1.0 = 2
        and cs = "[CHR ''v'']" and i = 5 and j = 6
        and wst = "((way_locals (call (set_id 1) (call WayBuilder empty_buffer)))\<lparr>has_version := True, buf := call (set_version 1) (call (set_id 1) (call WayBuilder empty_buffer))\<rparr>)",
        THEN conjunct2, THEN conjunct2, THEN conjunct1, rule_format,
        OF conjI [OF way_first conjI [OF way_bit conjI [OF way_id conjI [OF way_scanned
          conjI [OF way_peeks(3) conjI [OF way_space(2) way_other]]]]]]]
    by (simp add: way_buf way_letter seven)
  have relation_first: "peek ''r1 v1 z5'' 0 = CHR ''r''"
    by (simp add: peek_def)
  have relation_id: "opl_parse_id osmium_ext ''r1 v1 z5'' (Suc 0) = Inr (1, 2)"
    by code_simp
  have relation_peeks: "peek ''r1 v1 z5'' 2 \<noteq> NUL" "peek ''r1 v1 z5'' 3 \<noteq> NUL" "peek ''r1 v1 z5'' 5 \<noteq> NUL"
    by (simp_all add: peek_def NUL_def)
  have relation_letter: "peek ''r1 v1 z5'' 3 = CHR ''v''" "peek ''r1 v1 z5'' 6 = CHR ''z''"
    by (simp_all add: peek_def)
  have relation_space: "opl_parse_space ''r1 v1 z5'' 2 = Inr 3" "opl_parse_space ''r1 v1 z5'' 5 = Inr 6"
    by code_simp+
  have relation_attr: "relation_attribute osmium_ext ''r1 v1 z5'' (peek ''r1 v1 z5'' 3) (Suc 3) (relation_locals (call (set_id 1) (call RelationBuilder empty_buffer)))
      = Inr (5, ((relation_locals (call (set_id 1) (call RelationBuilder empty_buffer)))\<lparr>has_version := True, buf := call (set_version 1) (call (set_id 1) (call RelationBuilder empty_buffer))\<rparr>))"
    by code_simp
  have relation_scanned: "scanned (relation_attribute osmium_ext ''r1 v1 z5'') ''r1 v1 z5'' 2 (relation_locals (call (set_id 1) (call RelationBuilder empty_buffer)))
      [CHR ''v''] 5 ((relation_locals (call (set_id 1) (call RelationBuilder empty_buffer)))\<lparr>has_version := True, buf := call (set_version 1) (call (set_id 1) (call RelationBuilder empty_buffer))\<rparr>)"
    using scanned_more [where attribute = "relation_attribute osmium_ext ''r1 v1 z5''" and s = "''r1 v1 z5''",
        OF relation_peeks(1) relation_space(1) relation_peeks(2) relation_attr scanned_none]
    by (simp only: relation_letter)
  have relation_other: "peek ''r1 v1 z5'' 6 \<notin> {NUL, CHR ''v'', CHR ''d'', CHR ''c'', CHR ''t'', CHR ''i'', CHR ''u'', CHR ''T'', CHR ''M''}"
    by (simp add: peek_def NUL_def)
  have relation_buf: "buf ((relation_locals (call (set_id 1) (call RelationBuilder empty_buffer)))\<lparr>has_version := True, buf := call (set_version 1) (call (set_id 1) (call RelationBuilder empty_buffer))\<rparr>)
      = \<lparr>committed = [], written = [RelationBuilder, set_id 1, set_version 1]\<rparr>"
    by (simp add: call_def empty_buffer_def)
  have relation_bit: "relation_bit \<in> {relation_bit}"
    by simp
  have relation_thrown: "(\<exists>e. opl_parse_line osmium_ext 7 ''r1 v1 z5'' empty_buffer {relation_bit}
            = Inl (e, \<lparr>committed = [], written = [RelationBuilder, set_id 1, set_version 1]\<rparr>)
          \<and> msg e = ''OPL error: unknown attribute on line 7 column 6''
          \<and> line e = 7 \<and> column e = 6 \<and> data e = Some 6)
   \<and> peek ''r1 v1 z5'' 6 = CHR ''z''"
    using opl_parse_line_position [where X = osmium_ext and s = "''r1 v1 z5''" and line_count = 7
        and b = empty_buffer and read_types = "{relation_bit}" and v = 1 and ?i1.0 = 2
        and cs = "[CHR ''v'']" and i = 5 and j = 6
        and rst = "((relation_locals (call (set_id 1) (call RelationBuilder empty_buffer)))\<lparr>has_version := True, buf := call (set_version 1) (call (set_id 1) (call RelationBuilder empty_buffer))\<rparr>)",
        THEN conjunct2, THEN conjunct2, THEN conjunct2, THEN conjunct1, rule_format,
        OF conjI [OF relation_first conjI [OF relation_bit conjI [OF relation_id conjI [OF relation_scanned
          conjI [OF relation_peeks(3) conjI [OF relation_space(2) relation_other]]]]]]]
    by (simp add: relation_buf relation_letter seven)
  have changeset_first: "peek ''c1 k1 z5'' 0 = CHR ''c''"
    by (simp add: peek_def)
  have changeset_id: "opl_parse_changeset_id osmium_ext ''c1 k1 z5'' (Suc 0) = Inr (1, 2)"
    by code_simp
  have changeset_peeks: "peek ''c1 k1 z5'' 2 \<noteq> NUL" "peek ''c1 k1 z5'' 3 \<noteq> NUL" "peek ''c1 k1 z5'' 5 \<noteq> NUL"
    by (simp_all add: peek_def NUL_def)
  have changeset_letter: "peek ''c1 k1 z5'' 3 = CHR ''k''" "peek ''c1 k1 z5'' 6 = CHR ''z''"
    by (simp_all add: peek_def)
  have changeset_space: "opl_parse_space ''c1 k1 z5'' 2 = Inr 3" "opl_parse_space ''c1 k1 z5'' 5 = Inr 6"
    by code_simp+
  have changeset_attr: "changeset_attribute osmium_ext ''c1 k1 z5'' (peek ''c1 k1 z5'' 3) (Suc 3) (changeset_locals osmium_ext (call (set_id 1) (call ChangesetBuilder empty_buffer)))
      = Inr (5, ((changeset_locals osmium_ext (call (set_id 1) (call ChangesetBuilder empty_buffer)))\<lparr>has_num_changes := True, buf := call (set_num_changes 1) (call (set_id 1) (call ChangesetBuilder empty_buffer))\<rparr>))"
    by code_simp
  have changeset_scanned: "scanned (changeset_attribute osmium_ext ''c1 k1 z5'') ''c1 k1 z5'' 2 (changeset_locals osmium_ext (call (set_id 1) (call ChangesetBuilder empty_buffer)))
      [CHR ''k''] 5 ((changeset_locals osmium_ext (call (set_id 1) (call ChangesetBuilder empty_buffer)))\<lparr>has_num_changes := True, buf := call (set_num_changes 1) (call (set_id 1) (call ChangesetBuilder empty_buffer))\<rparr>)"
    using scanned_more [where attribute = "changeset_attribute osmium_ext ''c1 k1 z5''" and s = "''c1 k1 z5''",
        OF changeset_peeks(1) changeset_space(1) changeset_peeks(2) changeset_attr scanned_none]
    by (simp only: changeset_letter)
  have changeset_other: "peek ''c1 k1 z5'' 6 \<notin> {NUL, CHR ''k'', CHR ''s'', CHR ''e'', CHR ''d'', CHR ''i'', CHR ''u'', CHR ''x'', CHR ''y'', CHR ''X'', CHR ''Y'', CHR ''T''}"
    by (simp add: peek_def NUL_def)
  have changeset_buf: "buf ((changeset_locals osmium_ext (call (set_id 1) (call ChangesetBuilder empty_buffer)))\<lparr>has_num_changes := True, buf := call (set_num_changes 1) (call (set_id 1) (call ChangesetBuilder empty_buffer))\<rparr>)
      = \<lparr>committed = [], written = [ChangesetBuilder, set_id 1, set_num_changes 1]\<rparr>"
    by (simp add: call_def empty_buffer_def)
  have changeset_bit: "changeset_bit \<in> {changeset_bit}"
    by simp
  have changeset_thrown: "(\<exists>e. opl_parse_line osmium_ext 7 ''c1 k1 z5'' empty_buffer {changeset_bit}
            = Inl (e, \<lparr>committed = [], written = [ChangesetBuilder, set_id 1, set_num_changes 1]\<rparr>)
          \<and> msg e = ''OPL error: unknown attribute on line 7 column 6''
          \<and> line e = 7 \<and> column e = 6 \<and> data e = Some 6)
   \<and> peek ''c1 k1 z5'' 6 = CHR ''z''"
    using opl_parse_line_position [where X = osmium_ext and s = "''c1 k1 z5''" and line_count = 7
        and b = empty_buffer and read_types = "{changeset_bit}" and v = 1 and ?i1.0 = 2
        and cs = "[CHR ''k'']" and i = 5 and j = 6
        and cst = "((changeset_locals osmium_ext (call (set_id 1) (call ChangesetBuilder empty_buffer)))\<lparr>has_num_changes := True, buf := call (set_num_changes 1) (call (set_id 1) (call ChangesetBuilder empty_buffer))\<rparr>)",
        THEN conjunct2, THEN conjunct2, THEN conjunct2, THEN conjunct2, rule_format,
        OF conjI [OF changeset_first conjI [OF changeset_bit conjI [OF changeset_id conjI [OF changeset_scanned
          conjI [OF changeset_peeks(3) conjI [OF changeset_space(2) changeset_other]]]]]]]
    by (simp add: changeset_buf changeset_letter seven)
  from thrown caught node_thrown way_thrown relation_thrown changeset_thrown
  show ?thesis by blast
qed

subsection \<open>A percent escape in a tag\<close>

text \<open>
  C3, as the code has it. An escape is \<open>%\<close>, hexadecimal digits and \<open>%\<close>. In
  \<open>n1 Tname=Caf%C3%A9\<close> the escape is \<open>%C3%\<close>, the code point U+00C3, and
  \<open>A9\<close> is plain text: the line is parsed, and node 1 is committed with the one
  tag \<open>name\<close> whose value is the bytes \<open>Caf\<close>, \<open>0xC3 0x83\<close>, \<open>A9\<close>. The line
  \<open>n1 Tname=Caf%E9%\<close> gives the value \<open>Caf\<close>, \<open>0xC3 0xA9\<close>, which is
  \<open>Caf\<close> and U+00E9 in UTF-8.
\<close>

theorem percent_escape_in_tag:
  "opl_parse_line osmium_ext 1 ''n1 Tname=Caf%C3%A9'' empty_buffer {node_bit}
     = Inr (True,
         \<lparr>committed = [[NodeBuilder, set_id 1, set_user [], TagListBuilder,
                        add_tag ''name'' (''Caf'' @ [CHR 0xC3, CHR 0x83] @ ''A9'')]],
          written = []\<rparr>)
   \<and> opl_parse_line osmium_ext 1 ''n1 Tname=Caf%E9%'' empty_buffer {node_bit}
     = Inr (True,
         \<lparr>committed = [[NodeBuilder, set_id 1, set_user [], TagListBuilder,
                        add_tag ''name'' (''Caf'' @ [CHR 0xC3, CHR 0xA9])]],
          written = []\<rparr>)"
  by code_simp

text \<open>The value parsed from \<open>n1 Tname=Caf%C3%A9\<close> is not \<open>Caf\<close>, \<open>0xC3 0xA9\<close>.\<close>

theorem percent_escape_in_tag_counterexample:
  "opl_parse_line osmium_ext 1 ''n1 Tname=Caf%C3%A9'' empty_buffer {node_bit}
     = Inr (True,
         \<lparr>committed = [[NodeBuilder, set_id 1, set_user [], TagListBuilder,
                        add_tag ''name'' [CHR ''C'', CHR ''a'', CHR ''f'', CHR 0xC3, CHR 0x83,
                                          CHR ''A'', CHR ''9'']]],
          written = []\<rparr>)
   \<and> [CHR ''C'', CHR ''a'', CHR ''f'', CHR 0xC3, CHR 0x83, CHR ''A'', CHR ''9'']
       \<noteq> [CHR ''C'', CHR ''a'', CHR ''f'', CHR 0xC3, CHR 0xA9]"
  by code_simp

subsection \<open>Coordinates without a value\<close>

lemma position_calls_call [simp]:
  "position_calls (call c b) = position_calls b @ (if is_position_call c then [c] else [])"
  by (simp add: position_calls_def call_def)

lemma opl_parse_tags_loop_position:
  "opl_parse_tags_loop s i b = Inr b' \<longrightarrow> position_calls b' = position_calls b"
proof (induction s i b rule: opl_parse_tags_loop.induct)
  case (1 s i buf)
  note IH = 1 [OF _ refl _ _ refl refl]
  show ?case
    unfolding opl_parse_tags_loop.simps [of s i buf]
    using IH by (auto split: sum.splits simp: Let_def)
qed

lemma opl_parse_tags_position:
  "opl_parse_tags s i b = Inr b' \<Longrightarrow> position_calls b' = position_calls b"
  using opl_parse_tags_loop_position [of s i "call TagListBuilder b" b']
  by (simp add: opl_parse_tags_def)

lemma object_attribute_position:
  "object_attribute X s c i st = Some (Inr (j, st')) \<Longrightarrow>
     position_calls (buf st') = position_calls (buf st)"
  unfolding object_attribute_def
  by (auto split: if_splits sum.splits)

lemma node_attribute_position:
  "node_attribute X s c i st = Inr (j, st') \<Longrightarrow>
     position_calls (buf st') = position_calls (buf st)"
  unfolding node_attribute_def
  by (auto split: if_splits sum.splits option.splits dest: object_attribute_position)

lemma changeset_attribute_position:
  "changeset_attribute X s c i st = Inr (j, st') \<Longrightarrow>
     position_calls (buf st') = position_calls (buf st)"
  unfolding changeset_attribute_def
  by (auto split: if_splits sum.splits)

lemma opl_parse_node_loop_position:
  "opl_parse_node_loop X s i st = Inr (j, st') \<longrightarrow>
     position_calls (buf st') = position_calls (buf st)"
proof (induction X s i st rule: opl_parse_node_loop.induct)
  case (1 X s i st)
  note IH = 1 [OF _ _ refl _ _ refl]
  show ?case
    unfolding opl_parse_node_loop.simps [of X s i st]
    using IH by (auto split: sum.splits simp: Let_def dest: node_attribute_position)
qed

lemma opl_parse_changeset_loop_position:
  "opl_parse_changeset_loop X s i st = Inr (j, st') \<longrightarrow>
     position_calls (buf st') = position_calls (buf st)"
proof (induction X s i st rule: opl_parse_changeset_loop.induct)
  case (1 X s i st)
  note IH = 1 [OF _ _ refl _ _ refl]
  show ?case
    unfolding opl_parse_changeset_loop.simps [of X s i st]
    using IH by (auto split: sum.splits simp: Let_def dest: changeset_attribute_position)
qed

lemma object_attribute_loc:
  fixes st :: node_state
  shows "object_attribute X s c i st = Some (Inr (j, st')) \<Longrightarrow> loc st' = loc st"
  unfolding object_attribute_def
  by (auto split: if_splits sum.splits)

lemma node_attribute_loc:
  "node_attribute X s c i st = Inr (j, st') \<Longrightarrow>
     (c \<in> {CHR ''x'', CHR ''y''} \<longrightarrow> \<not> opl_non_empty s i) \<Longrightarrow> loc st' = loc st"
  unfolding node_attribute_def
  by (auto split: if_splits sum.splits option.splits dest: object_attribute_loc)

lemma changeset_attribute_bbox:
  "changeset_attribute X s c i st = Inr (j, st') \<Longrightarrow>
     (c \<in> {CHR ''x'', CHR ''y'', CHR ''X'', CHR ''Y''} \<longrightarrow> \<not> opl_non_empty s i) \<Longrightarrow>
     bbox st' = bbox st"
  unfolding changeset_attribute_def
  by (auto split: if_splits sum.splits)

lemma opl_parse_node_loop_loc:
  "(\<forall>k<length s. peek s k \<in> {CHR ''x'', CHR ''y''} \<longrightarrow> \<not> opl_non_empty s (Suc k))
     \<longrightarrow> opl_parse_node_loop X s i st = Inr (j, st') \<longrightarrow> loc st' = loc st"
proof (induction X s i st rule: opl_parse_node_loop.induct)
  case (1 X s i st)
  note IH = 1 [OF _ _ refl _ _ refl]
  have step: "loc st1 = loc st"
    if "\<forall>k<length s. peek s k \<in> {CHR ''x'', CHR ''y''} \<longrightarrow> \<not> opl_non_empty s (Suc k)"
      "node_attribute X s (peek s k) (Suc k) st = Inr (k', st1)" "peek s k \<noteq> NUL" for k k' st1
  proof -
    from that(3) have "k < length s" by (rule peek_less)
    with that(1) have "peek s k \<in> {CHR ''x'', CHR ''y''} \<longrightarrow> \<not> opl_non_empty s (Suc k)"
      by blast
    with that(2) show ?thesis by (rule node_attribute_loc)
  qed
  show ?case
    unfolding opl_parse_node_loop.simps [of X s i st]
    using IH step by (auto split: sum.splits simp: Let_def)
qed

lemma opl_parse_changeset_loop_bbox:
  "(\<forall>k<length s. peek s k \<in> {CHR ''x'', CHR ''y'', CHR ''X'', CHR ''Y''} \<longrightarrow> \<not> opl_non_empty s (Suc k))
     \<longrightarrow> opl_parse_changeset_loop X s i st = Inr (j, st') \<longrightarrow> bbox st' = bbox st"
proof (induction X s i st rule: opl_parse_changeset_loop.induct)
  case (1 X s i st)
  note IH = 1 [OF _ _ refl _ _ refl]
  have step: "bbox st1 = bbox st"
    if "\<forall>k<length s. peek s k \<in> {CHR ''x'', CHR ''y'', CHR ''X'', CHR ''Y''} \<longrightarrow> \<not> opl_non_empty s (Suc k)"
      "changeset_attribute X s (peek s k) (Suc k) st = Inr (k', st1)" "peek s k \<noteq> NUL" for k k' st1
  proof -
    from that(3) have "k < length s" by (rule peek_less)
    with that(1) have "peek s k \<in> {CHR ''x'', CHR ''y'', CHR ''X'', CHR ''Y''} \<longrightarrow> \<not> opl_non_empty s (Suc k)"
      by blast
    with that(2) show ?thesis by (rule changeset_attribute_bbox)
  qed
  show ?case
    unfolding opl_parse_changeset_loop.simps [of X s i st]
    using IH step by (auto split: sum.splits simp: Let_def)
qed

lemma opl_parse_node_position:
  assumes "opl_parse_id X s i = Inr (v, i1)"
    and loop: "opl_parse_node_loop X s i1 (node_locals X (call (set_id v) (call NodeBuilder b)))
            = Inr (i2, st)"
    and "opl_parse_node X s i b = Inr (j, b')"
  shows "position_calls b'
           = position_calls b @ (if valid X (loc st) then [set_location (loc st)] else [])"
proof -
  from assms have fin: "(case tags_begin st of
           None \<Rightarrow> Inr (call (set_user (user st))
                     (if valid X (loc st) then call (set_location (loc st)) (buf st)
                      else buf st))
         | Some t \<Rightarrow> opl_parse_tags s t (call (set_user (user st))
                     (if valid X (loc st) then call (set_location (loc st)) (buf st)
                      else buf st))) = Inr b'"
    unfolding opl_parse_node_def Let_def
    by (auto split: sum.splits prod.splits option.splits)
  from loop have base: "position_calls (buf st) = position_calls b"
    using opl_parse_node_loop_position [of X s i1 _ i2 st] by simp
  from fin have "position_calls b'
      = position_calls (buf st) @ (if valid X (loc st) then [set_location (loc st)] else [])"
    by (auto split: option.splits if_splits dest: opl_parse_tags_position)
  with base show ?thesis by simp
qed

lemma opl_parse_changeset_position:
  assumes "opl_parse_changeset_id X s i = Inr (v, i1)"
    and loop: "opl_parse_changeset_loop X s i1
             (changeset_locals X (call (set_id v) (call ChangesetBuilder b))) = Inr (i2, st)"
    and "opl_parse_changeset X s i b = Inr (j, b')"
  shows "position_calls b' = position_calls b @ [set_bounds (bbox st)]"
proof -
  from assms have fin: "(case tags_begin st of
           None \<Rightarrow> Inr (call (set_user (user st)) (call (set_bounds (bbox st)) (buf st)))
         | Some t \<Rightarrow> opl_parse_tags s t
                      (call (set_user (user st)) (call (set_bounds (bbox st)) (buf st))))
         = Inr b'"
    unfolding opl_parse_changeset_def Let_def
    by (auto split: sum.splits prod.splits option.splits)
  from loop have base: "position_calls (buf st) = position_calls b"
    using opl_parse_changeset_loop_position [of X s i1 _ i2 st] by simp
  from fin have "position_calls b' = position_calls (buf st) @ [set_bounds (bbox st)]"
    by (auto split: option.splits if_splits dest: opl_parse_tags_position)
  with base show ?thesis by simp
qed

lemma opl_parse_node_returns:
  assumes "opl_parse_node X s i b = Inr (j, b')"
  obtains v i1 st where "opl_parse_id X s i = Inr (v, i1)"
    and "opl_parse_node_loop X s i1 (node_locals X (call (set_id v) (call NodeBuilder b)))
            = Inr (j, st)"
  using assms unfolding opl_parse_node_def Let_def
  by (auto split: sum.splits prod.splits option.splits)

lemma opl_parse_changeset_returns:
  assumes "opl_parse_changeset X s i b = Inr (j, b')"
  obtains v i1 st where "opl_parse_changeset_id X s i = Inr (v, i1)"
    and "opl_parse_changeset_loop X s i1
             (changeset_locals X (call (set_id v) (call ChangesetBuilder b))) = Inr (j, st)"
  using assms unfolding opl_parse_changeset_def Let_def
  by (auto split: sum.splits prod.splits option.splits)

lemma opl_parse_node_bare:
  assumes "\<forall>k<length s. peek s k \<in> {CHR ''x'', CHR ''y''} \<longrightarrow> \<not> opl_non_empty s (Suc k)"
    and "opl_parse_node X s i b = Inr (j, b')"
  shows "position_calls b'
           = position_calls b @ (if valid X (Location X) then [set_location (Location X)] else [])"
proof -
  from assms(2) obtain v i1 st where id: "opl_parse_id X s i = Inr (v, i1)"
    and loop: "opl_parse_node_loop X s i1 (node_locals X (call (set_id v) (call NodeBuilder b)))
            = Inr (j, st)"
    by (rule opl_parse_node_returns)
  from assms(1) loop have "loc st = Location X"
    using opl_parse_node_loop_loc [of s X i1 _ j st] by (simp add: node_locals_def)
  with opl_parse_node_position [OF id loop assms(2)] show ?thesis by simp
qed

lemma opl_parse_changeset_bare:
  assumes "\<forall>k<length s. peek s k \<in> {CHR ''x'', CHR ''y'', CHR ''X'', CHR ''Y''}
             \<longrightarrow> \<not> opl_non_empty s (Suc k)"
    and "opl_parse_changeset X s i b = Inr (j, b')"
  shows "position_calls b' = position_calls b @ [set_bounds (Box X)]"
proof -
  from assms(2) obtain v i1 st where id: "opl_parse_changeset_id X s i = Inr (v, i1)"
    and loop: "opl_parse_changeset_loop X s i1
             (changeset_locals X (call (set_id v) (call ChangesetBuilder b))) = Inr (j, st)"
    by (rule opl_parse_changeset_returns)
  from assms(1) loop have "bbox st = Box X"
    using opl_parse_changeset_loop_bbox [of s X i1 _ j st] by (simp add: changeset_locals_def)
  with opl_parse_changeset_position [OF id loop assms(2)] show ?thesis by simp
qed

lemma opl_parse_line_node_true:
  assumes "peek s 0 = CHR ''n''" and "opl_parse_line X line_count s b read_types = Inr (True, b')"
  obtains j b1 where "opl_parse_node X s (Suc 0) b = Inr (j, b1)" and "b' = commit b1"
  using assms unfolding opl_parse_line_def opl_parse_line_try_def Let_def
  by (auto split: sum.splits if_splits simp: NUL_def)

lemma opl_parse_line_changeset_true:
  assumes "peek s 0 = CHR ''c''" and "opl_parse_line X line_count s b read_types = Inr (True, b')"
  obtains j b1 where "opl_parse_changeset X s (Suc 0) b = Inr (j, b1)" and "b' = commit b1"
  using assms unfolding opl_parse_line_def opl_parse_line_try_def Let_def
  by (auto split: sum.splits if_splits simp: NUL_def)

lemma last_committed_commit:
  "filter is_position_call (last (committed (commit b))) = position_calls b"
  by (simp add: commit_def position_calls_def)

text \<open>
  C9. The flag of a coordinate letter follows the letter, not a value: when
  \<open>x\<close> or \<open>y\<close> of a node, or \<open>x\<close>, \<open>y\<close>, \<open>X\<close> or \<open>Y\<close> of a
  changeset, is followed at once by NUL, space or tab, the \<open>switch\<close> sets the flag
  and changes nothing else, neither the cursor nor the coordinate, and throws
  nothing; the location and the box start as the default sentinels. When a line
  of a node is parsed, the position calls of the committed entity are
  \<open>set_location\<close> with the location that the attribute loop ended with, if that
  location is valid, and none otherwise; when a line of a changeset is parsed,
  they are \<open>set_bounds\<close> with the box that the attribute loop ended with, whatever
  it is. In a line where every coordinate letter is followed at once by NUL,
  space or tab, that location and that box are the default sentinels.
\<close>

theorem coordinate_letter_presence:
  fixes nst :: node_state and cst :: changeset_state
  shows
  "(\<not> opl_non_empty s i \<and> \<not> has_lon nst
      \<longrightarrow> node_attribute X s CHR ''x'' i nst = Inr (i, nst\<lparr>has_lon := True\<rparr>))
   \<and> (\<not> opl_non_empty s i \<and> \<not> has_lat nst
      \<longrightarrow> node_attribute X s CHR ''y'' i nst = Inr (i, nst\<lparr>has_lat := True\<rparr>))
   \<and> (\<not> opl_non_empty s i \<and> \<not> has_min_x cst
      \<longrightarrow> changeset_attribute X s CHR ''x'' i cst = Inr (i, cst\<lparr>has_min_x := True\<rparr>))
   \<and> (\<not> opl_non_empty s i \<and> \<not> has_min_y cst
      \<longrightarrow> changeset_attribute X s CHR ''y'' i cst = Inr (i, cst\<lparr>has_min_y := True\<rparr>))
   \<and> (\<not> opl_non_empty s i \<and> \<not> has_max_x cst
      \<longrightarrow> changeset_attribute X s CHR ''X'' i cst = Inr (i, cst\<lparr>has_max_x := True\<rparr>))
   \<and> (\<not> opl_non_empty s i \<and> \<not> has_max_y cst
      \<longrightarrow> changeset_attribute X s CHR ''Y'' i cst = Inr (i, cst\<lparr>has_max_y := True\<rparr>))
   \<and> loc (node_locals X b) = Location X
   \<and> bbox (changeset_locals X b) = Box X
   \<and> (peek s 0 = CHR ''n'' \<and> opl_parse_id X s (Suc 0) = Inr (v, i1)
      \<and> opl_parse_node_loop X s i1 (node_locals X (call (set_id v) (call NodeBuilder b)))
          = Inr (i2, nst)
      \<and> opl_parse_line X line_count s b read_types = Inr (True, b')
      \<longrightarrow> filter is_position_call (last (committed b'))
          = position_calls b @ (if valid X (loc nst) then [set_location (loc nst)] else []))
   \<and> (peek s 0 = CHR ''c'' \<and> opl_parse_changeset_id X s (Suc 0) = Inr (v, i1)
      \<and> opl_parse_changeset_loop X s i1
          (changeset_locals X (call (set_id v) (call ChangesetBuilder b))) = Inr (i2, cst)
      \<and> opl_parse_line X line_count s b read_types = Inr (True, b')
      \<longrightarrow> filter is_position_call (last (committed b'))
          = position_calls b @ [set_bounds (bbox cst)])
   \<and> (peek s 0 = CHR ''n''
      \<and> (\<forall>k<length s. peek s k \<in> {CHR ''x'', CHR ''y''} \<longrightarrow> \<not> opl_non_empty s (Suc k))
      \<and> opl_parse_line X line_count s b read_types = Inr (True, b')
      \<longrightarrow> filter is_position_call (last (committed b'))
          = position_calls b
            @ (if valid X (Location X) then [set_location (Location X)] else []))
   \<and> (peek s 0 = CHR ''c''
      \<and> (\<forall>k<length s. peek s k \<in> {CHR ''x'', CHR ''y'', CHR ''X'', CHR ''Y''}
             \<longrightarrow> \<not> opl_non_empty s (Suc k))
      \<and> opl_parse_line X line_count s b read_types = Inr (True, b')
      \<longrightarrow> filter is_position_call (last (committed b'))
          = position_calls b @ [set_bounds (Box X)])"
proof (intro conjI impI; (elim conjE)?)
  show "filter is_position_call (last (committed b'))
          = position_calls b @ (if valid X (loc nst) then [set_location (loc nst)] else [])"
    if "peek s 0 = CHR ''n''" "opl_parse_id X s (Suc 0) = Inr (v, i1)"
      "opl_parse_node_loop X s i1 (node_locals X (call (set_id v) (call NodeBuilder b)))
          = Inr (i2, nst)"
      "opl_parse_line X line_count s b read_types = Inr (True, b')"
  proof -
    from that(1,4) obtain j b1 where b1: "opl_parse_node X s (Suc 0) b = Inr (j, b1)"
      and b': "b' = commit b1" by (rule opl_parse_line_node_true)
    from opl_parse_node_position [OF that(2,3) b1] b' show ?thesis
      by (simp add: last_committed_commit)
  qed
  show "filter is_position_call (last (committed b'))
          = position_calls b @ [set_bounds (bbox cst)]"
    if "peek s 0 = CHR ''c''" "opl_parse_changeset_id X s (Suc 0) = Inr (v, i1)"
      "opl_parse_changeset_loop X s i1
          (changeset_locals X (call (set_id v) (call ChangesetBuilder b))) = Inr (i2, cst)"
      "opl_parse_line X line_count s b read_types = Inr (True, b')"
  proof -
    from that(1,4) obtain j b1 where b1: "opl_parse_changeset X s (Suc 0) b = Inr (j, b1)"
      and b': "b' = commit b1" by (rule opl_parse_line_changeset_true)
    from opl_parse_changeset_position [OF that(2,3) b1] b' show ?thesis
      by (simp add: last_committed_commit)
  qed
  show "filter is_position_call (last (committed b'))
          = position_calls b
            @ (if valid X (Location X) then [set_location (Location X)] else [])"
    if "peek s 0 = CHR ''n''"
      "\<forall>k<length s. peek s k \<in> {CHR ''x'', CHR ''y''} \<longrightarrow> \<not> opl_non_empty s (Suc k)"
      "opl_parse_line X line_count s b read_types = Inr (True, b')"
  proof -
    from that(1,3) obtain j b1 where b1: "opl_parse_node X s (Suc 0) b = Inr (j, b1)"
      and b': "b' = commit b1" by (rule opl_parse_line_node_true)
    from opl_parse_node_bare [OF that(2) b1] b' show ?thesis
      by (simp add: last_committed_commit)
  qed
  show "filter is_position_call (last (committed b'))
          = position_calls b @ [set_bounds (Box X)]"
    if "peek s 0 = CHR ''c''"
      "\<forall>k<length s. peek s k \<in> {CHR ''x'', CHR ''y'', CHR ''X'', CHR ''Y''}
             \<longrightarrow> \<not> opl_non_empty s (Suc k)"
      "opl_parse_line X line_count s b read_types = Inr (True, b')"
  proof -
    from that(1,3) obtain j b1 where b1: "opl_parse_changeset X s (Suc 0) b = Inr (j, b1)"
      and b': "b' = commit b1" by (rule opl_parse_line_changeset_true)
    from opl_parse_changeset_bare [OF that(2) b1] b' show ?thesis
      by (simp add: last_committed_commit)
  qed
qed (simp_all add: node_attribute_def object_attribute_def changeset_attribute_def
       node_locals_def changeset_locals_def)

theorem coordinate_letter_presence_witness:
  "node_attribute osmium_ext ''n1 x y'' CHR ''x'' 4 (node_locals osmium_ext empty_buffer)
     = Inr (4, (node_locals osmium_ext empty_buffer)\<lparr>has_lon := True\<rparr>)
   \<and> node_attribute osmium_ext ''n1 x y'' CHR ''y'' 6 (node_locals osmium_ext empty_buffer)
     = Inr (6, (node_locals osmium_ext empty_buffer)\<lparr>has_lat := True\<rparr>)
   \<and> changeset_attribute osmium_ext ''c1 x y X Y'' CHR ''x'' 4 (changeset_locals osmium_ext empty_buffer)
     = Inr (4, (changeset_locals osmium_ext empty_buffer)\<lparr>has_min_x := True\<rparr>)
   \<and> changeset_attribute osmium_ext ''c1 x y X Y'' CHR ''y'' 6 (changeset_locals osmium_ext empty_buffer)
     = Inr (6, (changeset_locals osmium_ext empty_buffer)\<lparr>has_min_y := True\<rparr>)
   \<and> changeset_attribute osmium_ext ''c1 x y X Y'' CHR ''X'' 8 (changeset_locals osmium_ext empty_buffer)
     = Inr (8, (changeset_locals osmium_ext empty_buffer)\<lparr>has_max_x := True\<rparr>)
   \<and> changeset_attribute osmium_ext ''c1 x y X Y'' CHR ''Y'' 10 (changeset_locals osmium_ext empty_buffer)
     = Inr (10, (changeset_locals osmium_ext empty_buffer)\<lparr>has_max_y := True\<rparr>)
   \<and> opl_parse_line osmium_ext 1 ''n1 x1.5 y2.5'' empty_buffer {node_bit}
     = Inr (True, \<lparr>committed = [[NodeBuilder, set_id 1, set_location \<lparr>m_x = 15000000, m_y = 25000000\<rparr>, set_user []]], written = []\<rparr>)
   \<and> filter is_position_call (last (committed \<lparr>committed = [[NodeBuilder, set_id 1, set_location \<lparr>m_x = 15000000, m_y = 25000000\<rparr>, set_user []]], written = []\<rparr>))
     = [set_location \<lparr>m_x = 15000000, m_y = 25000000\<rparr>]
   \<and> opl_parse_line osmium_ext 1 ''n1 x1.5'' empty_buffer {node_bit}
     = Inr (True, \<lparr>committed = [[NodeBuilder, set_id 1, set_user []]], written = []\<rparr>)
   \<and> filter is_position_call (last (committed \<lparr>committed = [[NodeBuilder, set_id 1, set_user []]], written = []\<rparr>))
     = []
   \<and> opl_parse_line osmium_ext 1 ''c1 x1 y2 X3 Y4'' empty_buffer {changeset_bit}
     = Inr (True, \<lparr>committed = [[ChangesetBuilder, set_id 1, set_bounds \<lparr>bottom_left = \<lparr>m_x = 10000000, m_y = 20000000\<rparr>, top_right = \<lparr>m_x = 30000000, m_y = 40000000\<rparr>\<rparr>, set_user []]], written = []\<rparr>)
   \<and> filter is_position_call (last (committed \<lparr>committed = [[ChangesetBuilder, set_id 1, set_bounds \<lparr>bottom_left = \<lparr>m_x = 10000000, m_y = 20000000\<rparr>, top_right = \<lparr>m_x = 30000000, m_y = 40000000\<rparr>\<rparr>, set_user []]], written = []\<rparr>))
     = [set_bounds \<lparr>bottom_left = \<lparr>m_x = 10000000, m_y = 20000000\<rparr>, top_right = \<lparr>m_x = 30000000, m_y = 40000000\<rparr>\<rparr>]
   \<and> opl_parse_line osmium_ext 1 ''n1 x y'' empty_buffer {node_bit}
     = Inr (True, \<lparr>committed = [[NodeBuilder, set_id 1, set_user []]], written = []\<rparr>)
   \<and> filter is_position_call (last (committed \<lparr>committed = [[NodeBuilder, set_id 1, set_user []]], written = []\<rparr>))
     = []
   \<and> opl_parse_line osmium_ext 1 ''c1 x y X Y'' empty_buffer {changeset_bit}
     = Inr (True, \<lparr>committed = [[ChangesetBuilder, set_id 1, set_bounds \<lparr>bottom_left = \<lparr>m_x = 2147483647, m_y = 2147483647\<rparr>, top_right = \<lparr>m_x = 2147483647, m_y = 2147483647\<rparr>\<rparr>, set_user []]], written = []\<rparr>)
   \<and> filter is_position_call (last (committed \<lparr>committed = [[ChangesetBuilder, set_id 1, set_bounds \<lparr>bottom_left = \<lparr>m_x = 2147483647, m_y = 2147483647\<rparr>, top_right = \<lparr>m_x = 2147483647, m_y = 2147483647\<rparr>\<rparr>, set_user []]], written = []\<rparr>))
     = [set_bounds \<lparr>bottom_left = \<lparr>m_x = 2147483647, m_y = 2147483647\<rparr>, top_right = \<lparr>m_x = 2147483647, m_y = 2147483647\<rparr>\<rparr>]"
proof -
  have osmium: "valid osmium_ext = (\<lambda>l. m_x l \<noteq> 2147483647 \<and> m_y l \<noteq> 2147483647)"
    "undefined_coordinate osmium_ext = 2147483647"
    by (simp_all add: osmium_ext_def)
  have empty0: "\<not> opl_non_empty ''n1 x y'' 4" "\<not> has_lon (node_locals osmium_ext empty_buffer)"
    by code_simp+
  have letter0: "node_attribute osmium_ext ''n1 x y'' CHR ''x'' 4 (node_locals osmium_ext empty_buffer)
     = Inr (4, (node_locals osmium_ext empty_buffer)\<lparr>has_lon := True\<rparr>)"
    using empty0
      coordinate_letter_presence [where X = osmium_ext and s = "''n1 x y''" and i = 4
        and nst = "(node_locals osmium_ext empty_buffer)", THEN conjunct1]
    by simp
  have empty1: "\<not> opl_non_empty ''n1 x y'' 6" "\<not> has_lat (node_locals osmium_ext empty_buffer)"
    by code_simp+
  have letter1: "node_attribute osmium_ext ''n1 x y'' CHR ''y'' 6 (node_locals osmium_ext empty_buffer)
     = Inr (6, (node_locals osmium_ext empty_buffer)\<lparr>has_lat := True\<rparr>)"
    using empty1
      coordinate_letter_presence [where X = osmium_ext and s = "''n1 x y''" and i = 6
        and nst = "(node_locals osmium_ext empty_buffer)", THEN conjunct2, THEN conjunct1]
    by simp
  have empty2: "\<not> opl_non_empty ''c1 x y X Y'' 4" "\<not> has_min_x (changeset_locals osmium_ext empty_buffer)"
    by code_simp+
  have letter2: "changeset_attribute osmium_ext ''c1 x y X Y'' CHR ''x'' 4 (changeset_locals osmium_ext empty_buffer)
     = Inr (4, (changeset_locals osmium_ext empty_buffer)\<lparr>has_min_x := True\<rparr>)"
    using empty2
      coordinate_letter_presence [where X = osmium_ext and s = "''c1 x y X Y''" and i = 4
        and cst = "(changeset_locals osmium_ext empty_buffer)", THEN conjunct2, THEN conjunct2, THEN conjunct1]
    by simp
  have empty3: "\<not> opl_non_empty ''c1 x y X Y'' 6" "\<not> has_min_y (changeset_locals osmium_ext empty_buffer)"
    by code_simp+
  have letter3: "changeset_attribute osmium_ext ''c1 x y X Y'' CHR ''y'' 6 (changeset_locals osmium_ext empty_buffer)
     = Inr (6, (changeset_locals osmium_ext empty_buffer)\<lparr>has_min_y := True\<rparr>)"
    using empty3
      coordinate_letter_presence [where X = osmium_ext and s = "''c1 x y X Y''" and i = 6
        and cst = "(changeset_locals osmium_ext empty_buffer)", THEN conjunct2, THEN conjunct2, THEN conjunct2, THEN conjunct1]
    by simp
  have empty4: "\<not> opl_non_empty ''c1 x y X Y'' 8" "\<not> has_max_x (changeset_locals osmium_ext empty_buffer)"
    by code_simp+
  have letter4: "changeset_attribute osmium_ext ''c1 x y X Y'' CHR ''X'' 8 (changeset_locals osmium_ext empty_buffer)
     = Inr (8, (changeset_locals osmium_ext empty_buffer)\<lparr>has_max_x := True\<rparr>)"
    using empty4
      coordinate_letter_presence [where X = osmium_ext and s = "''c1 x y X Y''" and i = 8
        and cst = "(changeset_locals osmium_ext empty_buffer)", THEN conjunct2, THEN conjunct2, THEN conjunct2, THEN conjunct2, THEN conjunct1]
    by simp
  have empty5: "\<not> opl_non_empty ''c1 x y X Y'' 10" "\<not> has_max_y (changeset_locals osmium_ext empty_buffer)"
    by code_simp+
  have letter5: "changeset_attribute osmium_ext ''c1 x y X Y'' CHR ''Y'' 10 (changeset_locals osmium_ext empty_buffer)
     = Inr (10, (changeset_locals osmium_ext empty_buffer)\<lparr>has_max_y := True\<rparr>)"
    using empty5
      coordinate_letter_presence [where X = osmium_ext and s = "''c1 x y X Y''" and i = 10
        and cst = "(changeset_locals osmium_ext empty_buffer)", THEN conjunct2, THEN conjunct2, THEN conjunct2, THEN conjunct2, THEN conjunct2, THEN conjunct1]
    by simp
  have nv_first: "peek ''n1 x1.5 y2.5'' 0 = CHR ''n''"
    by (simp add: peek_def)
  have nv_id: "opl_parse_id osmium_ext ''n1 x1.5 y2.5'' (Suc 0) = Inr (1, 2)"
    by code_simp
  have nv_p0: "peek ''n1 x1.5 y2.5'' 2 \<noteq> NUL" "peek ''n1 x1.5 y2.5'' 3 \<noteq> NUL"
    by (simp_all add: peek_def NUL_def)
  have nv_s0: "opl_parse_space ''n1 x1.5 y2.5'' 2 = Inr 3"
    by code_simp
  have nv_a0: "node_attribute osmium_ext ''n1 x1.5 y2.5'' (peek ''n1 x1.5 y2.5'' 3) (Suc 3) (node_locals osmium_ext (call (set_id 1) (call NodeBuilder empty_buffer)))
      = Inr (7, ((node_locals osmium_ext (call (set_id 1) (call NodeBuilder empty_buffer)))\<lparr>has_lon := True, loc := \<lparr>m_x = 15000000, m_y = 2147483647\<rparr>\<rparr>))"
    by (simp add: node_attribute_def object_attribute_def changeset_attribute_def set_lon_partial_def set_lat_partial_def osmium_ext_def node_locals_def changeset_locals_def opl_non_empty_def peek_def NUL_def TAB_def Location_def Box_def decimal_coordinate_def Let_def is_digit_def decimal_def call_def empty_buffer_def)
  have nv_p1: "peek ''n1 x1.5 y2.5'' 7 \<noteq> NUL" "peek ''n1 x1.5 y2.5'' 8 \<noteq> NUL"
    by (simp_all add: peek_def NUL_def)
  have nv_s1: "opl_parse_space ''n1 x1.5 y2.5'' 7 = Inr 8"
    by code_simp
  have nv_a1: "node_attribute osmium_ext ''n1 x1.5 y2.5'' (peek ''n1 x1.5 y2.5'' 8) (Suc 8) ((node_locals osmium_ext (call (set_id 1) (call NodeBuilder empty_buffer)))\<lparr>has_lon := True, loc := \<lparr>m_x = 15000000, m_y = 2147483647\<rparr>\<rparr>)
      = Inr (12, (((node_locals osmium_ext (call (set_id 1) (call NodeBuilder empty_buffer)))\<lparr>has_lon := True, loc := \<lparr>m_x = 15000000, m_y = 2147483647\<rparr>\<rparr>)\<lparr>has_lat := True, loc := \<lparr>m_x = 15000000, m_y = 25000000\<rparr>\<rparr>))"
    by (simp add: node_attribute_def object_attribute_def changeset_attribute_def set_lon_partial_def set_lat_partial_def osmium_ext_def node_locals_def changeset_locals_def opl_non_empty_def peek_def NUL_def TAB_def Location_def Box_def decimal_coordinate_def Let_def is_digit_def decimal_def call_def empty_buffer_def)
  have nv_scanned: "scanned (node_attribute osmium_ext ''n1 x1.5 y2.5'') ''n1 x1.5 y2.5'' 2 (node_locals osmium_ext (call (set_id 1) (call NodeBuilder empty_buffer)))
      (peek ''n1 x1.5 y2.5'' 3 # peek ''n1 x1.5 y2.5'' 8 # []) 12 (((node_locals osmium_ext (call (set_id 1) (call NodeBuilder empty_buffer)))\<lparr>has_lon := True, loc := \<lparr>m_x = 15000000, m_y = 2147483647\<rparr>\<rparr>)\<lparr>has_lat := True, loc := \<lparr>m_x = 15000000, m_y = 25000000\<rparr>\<rparr>)"
    by (rule scanned_more [where attribute = "node_attribute osmium_ext ''n1 x1.5 y2.5''" and s = "''n1 x1.5 y2.5''",
        OF nv_p0(1) nv_s0 nv_p0(2) nv_a0
        scanned_more [where attribute = "node_attribute osmium_ext ''n1 x1.5 y2.5''" and s = "''n1 x1.5 y2.5''",
        OF nv_p1(1) nv_s1 nv_p1(2) nv_a1
        scanned_none [where attribute = "node_attribute osmium_ext ''n1 x1.5 y2.5''" and s = "''n1 x1.5 y2.5''"]]])
  have nv_end: "opl_parse_node_loop osmium_ext ''n1 x1.5 y2.5'' 12 (((node_locals osmium_ext (call (set_id 1) (call NodeBuilder empty_buffer)))\<lparr>has_lon := True, loc := \<lparr>m_x = 15000000, m_y = 2147483647\<rparr>\<rparr>)\<lparr>has_lat := True, loc := \<lparr>m_x = 15000000, m_y = 25000000\<rparr>\<rparr>)
      = Inr (12, (((node_locals osmium_ext (call (set_id 1) (call NodeBuilder empty_buffer)))\<lparr>has_lon := True, loc := \<lparr>m_x = 15000000, m_y = 2147483647\<rparr>\<rparr>)\<lparr>has_lat := True, loc := \<lparr>m_x = 15000000, m_y = 25000000\<rparr>\<rparr>))"
    by (simp add: opl_parse_node_loop.simps [of _ _ 12] peek_def NUL_def)
  have nv_loop: "opl_parse_node_loop osmium_ext ''n1 x1.5 y2.5'' 2 (node_locals osmium_ext (call (set_id 1) (call NodeBuilder empty_buffer)))
      = Inr (12, (((node_locals osmium_ext (call (set_id 1) (call NodeBuilder empty_buffer)))\<lparr>has_lon := True, loc := \<lparr>m_x = 15000000, m_y = 2147483647\<rparr>\<rparr>)\<lparr>has_lat := True, loc := \<lparr>m_x = 15000000, m_y = 25000000\<rparr>\<rparr>))"
    using opl_parse_node_loop_scanned [OF nv_scanned] nv_end by simp
  have nv_line: "opl_parse_line osmium_ext 1 ''n1 x1.5 y2.5'' empty_buffer {node_bit}
     = Inr (True, \<lparr>committed = [[NodeBuilder, set_id 1, set_location \<lparr>m_x = 15000000, m_y = 25000000\<rparr>, set_user []]], written = []\<rparr>)"
    unfolding opl_parse_line_def opl_parse_line_try_def opl_parse_node_def
      opl_parse_changeset_def Let_def
    apply (simp add: nv_first nv_id nv_loop NUL_def)
    apply (simp add: osmium node_locals_def changeset_locals_def call_def commit_def
        empty_buffer_def Location_def Box_def)
    done
  have nv_calls: "filter is_position_call (last (committed \<lparr>committed = [[NodeBuilder, set_id 1, set_location \<lparr>m_x = 15000000, m_y = 25000000\<rparr>, set_user []]], written = []\<rparr>))
     = [set_location \<lparr>m_x = 15000000, m_y = 25000000\<rparr>]"
    using coordinate_letter_presence [where X = osmium_ext and s = "''n1 x1.5 y2.5''" and line_count = 1
        and b = empty_buffer and read_types = "{node_bit}" and v = 1 and ?i1.0 = 2
        and ?i2.0 = 12 and nst = "(((node_locals osmium_ext (call (set_id 1) (call NodeBuilder empty_buffer)))\<lparr>has_lon := True, loc := \<lparr>m_x = 15000000, m_y = 2147483647\<rparr>\<rparr>)\<lparr>has_lat := True, loc := \<lparr>m_x = 15000000, m_y = 25000000\<rparr>\<rparr>)"
        and b' = "\<lparr>committed = [[NodeBuilder, set_id 1, set_location \<lparr>m_x = 15000000, m_y = 25000000\<rparr>, set_user []]], written = []\<rparr>",
        THEN conjunct2, THEN conjunct2, THEN conjunct2, THEN conjunct2, THEN conjunct2, THEN conjunct2, THEN conjunct2, THEN conjunct2, THEN conjunct1, rule_format,
        OF conjI [OF nv_first conjI [OF nv_id conjI [OF nv_loop nv_line]]]]
    by (simp add: position_calls_def empty_buffer_def osmium_ext_def node_locals_def changeset_locals_def)
  have nx_first: "peek ''n1 x1.5'' 0 = CHR ''n''"
    by (simp add: peek_def)
  have nx_id: "opl_parse_id osmium_ext ''n1 x1.5'' (Suc 0) = Inr (1, 2)"
    by code_simp
  have nx_p0: "peek ''n1 x1.5'' 2 \<noteq> NUL" "peek ''n1 x1.5'' 3 \<noteq> NUL"
    by (simp_all add: peek_def NUL_def)
  have nx_s0: "opl_parse_space ''n1 x1.5'' 2 = Inr 3"
    by code_simp
  have nx_a0: "node_attribute osmium_ext ''n1 x1.5'' (peek ''n1 x1.5'' 3) (Suc 3) (node_locals osmium_ext (call (set_id 1) (call NodeBuilder empty_buffer)))
      = Inr (7, ((node_locals osmium_ext (call (set_id 1) (call NodeBuilder empty_buffer)))\<lparr>has_lon := True, loc := \<lparr>m_x = 15000000, m_y = 2147483647\<rparr>\<rparr>))"
    by (simp add: node_attribute_def object_attribute_def changeset_attribute_def set_lon_partial_def set_lat_partial_def osmium_ext_def node_locals_def changeset_locals_def opl_non_empty_def peek_def NUL_def TAB_def Location_def Box_def decimal_coordinate_def Let_def is_digit_def decimal_def call_def empty_buffer_def)
  have nx_scanned: "scanned (node_attribute osmium_ext ''n1 x1.5'') ''n1 x1.5'' 2 (node_locals osmium_ext (call (set_id 1) (call NodeBuilder empty_buffer)))
      (peek ''n1 x1.5'' 3 # []) 7 ((node_locals osmium_ext (call (set_id 1) (call NodeBuilder empty_buffer)))\<lparr>has_lon := True, loc := \<lparr>m_x = 15000000, m_y = 2147483647\<rparr>\<rparr>)"
    by (rule scanned_more [where attribute = "node_attribute osmium_ext ''n1 x1.5''" and s = "''n1 x1.5''",
        OF nx_p0(1) nx_s0 nx_p0(2) nx_a0
        scanned_none [where attribute = "node_attribute osmium_ext ''n1 x1.5''" and s = "''n1 x1.5''"]])
  have nx_end: "opl_parse_node_loop osmium_ext ''n1 x1.5'' 7 ((node_locals osmium_ext (call (set_id 1) (call NodeBuilder empty_buffer)))\<lparr>has_lon := True, loc := \<lparr>m_x = 15000000, m_y = 2147483647\<rparr>\<rparr>)
      = Inr (7, ((node_locals osmium_ext (call (set_id 1) (call NodeBuilder empty_buffer)))\<lparr>has_lon := True, loc := \<lparr>m_x = 15000000, m_y = 2147483647\<rparr>\<rparr>))"
    by (simp add: opl_parse_node_loop.simps [of _ _ 7] peek_def NUL_def)
  have nx_loop: "opl_parse_node_loop osmium_ext ''n1 x1.5'' 2 (node_locals osmium_ext (call (set_id 1) (call NodeBuilder empty_buffer)))
      = Inr (7, ((node_locals osmium_ext (call (set_id 1) (call NodeBuilder empty_buffer)))\<lparr>has_lon := True, loc := \<lparr>m_x = 15000000, m_y = 2147483647\<rparr>\<rparr>))"
    using opl_parse_node_loop_scanned [OF nx_scanned] nx_end by simp
  have nx_line: "opl_parse_line osmium_ext 1 ''n1 x1.5'' empty_buffer {node_bit}
     = Inr (True, \<lparr>committed = [[NodeBuilder, set_id 1, set_user []]], written = []\<rparr>)"
    unfolding opl_parse_line_def opl_parse_line_try_def opl_parse_node_def
      opl_parse_changeset_def Let_def
    apply (simp add: nx_first nx_id nx_loop NUL_def)
    apply (simp add: osmium node_locals_def changeset_locals_def call_def commit_def
        empty_buffer_def Location_def Box_def)
    done
  have nx_calls: "filter is_position_call (last (committed \<lparr>committed = [[NodeBuilder, set_id 1, set_user []]], written = []\<rparr>))
     = []"
    using coordinate_letter_presence [where X = osmium_ext and s = "''n1 x1.5''" and line_count = 1
        and b = empty_buffer and read_types = "{node_bit}" and v = 1 and ?i1.0 = 2
        and ?i2.0 = 7 and nst = "((node_locals osmium_ext (call (set_id 1) (call NodeBuilder empty_buffer)))\<lparr>has_lon := True, loc := \<lparr>m_x = 15000000, m_y = 2147483647\<rparr>\<rparr>)"
        and b' = "\<lparr>committed = [[NodeBuilder, set_id 1, set_user []]], written = []\<rparr>",
        THEN conjunct2, THEN conjunct2, THEN conjunct2, THEN conjunct2, THEN conjunct2, THEN conjunct2, THEN conjunct2, THEN conjunct2, THEN conjunct1, rule_format,
        OF conjI [OF nx_first conjI [OF nx_id conjI [OF nx_loop nx_line]]]]
    by (simp add: position_calls_def empty_buffer_def osmium_ext_def node_locals_def changeset_locals_def)
  have cv_first: "peek ''c1 x1 y2 X3 Y4'' 0 = CHR ''c''"
    by (simp add: peek_def)
  have cv_id: "opl_parse_changeset_id osmium_ext ''c1 x1 y2 X3 Y4'' (Suc 0) = Inr (1, 2)"
    by code_simp
  have cv_p0: "peek ''c1 x1 y2 X3 Y4'' 2 \<noteq> NUL" "peek ''c1 x1 y2 X3 Y4'' 3 \<noteq> NUL"
    by (simp_all add: peek_def NUL_def)
  have cv_s0: "opl_parse_space ''c1 x1 y2 X3 Y4'' 2 = Inr 3"
    by code_simp
  have cv_a0: "changeset_attribute osmium_ext ''c1 x1 y2 X3 Y4'' (peek ''c1 x1 y2 X3 Y4'' 3) (Suc 3) (changeset_locals osmium_ext (call (set_id 1) (call ChangesetBuilder empty_buffer)))
      = Inr (5, ((changeset_locals osmium_ext (call (set_id 1) (call ChangesetBuilder empty_buffer)))\<lparr>has_min_x := True, bbox := \<lparr>bottom_left = \<lparr>m_x = 10000000, m_y = 2147483647\<rparr>, top_right = \<lparr>m_x = 2147483647, m_y = 2147483647\<rparr>\<rparr>\<rparr>))"
    by (simp add: node_attribute_def object_attribute_def changeset_attribute_def set_lon_partial_def set_lat_partial_def osmium_ext_def node_locals_def changeset_locals_def opl_non_empty_def peek_def NUL_def TAB_def Location_def Box_def decimal_coordinate_def Let_def is_digit_def decimal_def call_def empty_buffer_def)
  have cv_p1: "peek ''c1 x1 y2 X3 Y4'' 5 \<noteq> NUL" "peek ''c1 x1 y2 X3 Y4'' 6 \<noteq> NUL"
    by (simp_all add: peek_def NUL_def)
  have cv_s1: "opl_parse_space ''c1 x1 y2 X3 Y4'' 5 = Inr 6"
    by code_simp
  have cv_a1: "changeset_attribute osmium_ext ''c1 x1 y2 X3 Y4'' (peek ''c1 x1 y2 X3 Y4'' 6) (Suc 6) ((changeset_locals osmium_ext (call (set_id 1) (call ChangesetBuilder empty_buffer)))\<lparr>has_min_x := True, bbox := \<lparr>bottom_left = \<lparr>m_x = 10000000, m_y = 2147483647\<rparr>, top_right = \<lparr>m_x = 2147483647, m_y = 2147483647\<rparr>\<rparr>\<rparr>)
      = Inr (8, (((changeset_locals osmium_ext (call (set_id 1) (call ChangesetBuilder empty_buffer)))\<lparr>has_min_x := True, bbox := \<lparr>bottom_left = \<lparr>m_x = 10000000, m_y = 2147483647\<rparr>, top_right = \<lparr>m_x = 2147483647, m_y = 2147483647\<rparr>\<rparr>\<rparr>)\<lparr>has_min_y := True, bbox := \<lparr>bottom_left = \<lparr>m_x = 10000000, m_y = 20000000\<rparr>, top_right = \<lparr>m_x = 2147483647, m_y = 2147483647\<rparr>\<rparr>\<rparr>))"
    by (simp add: node_attribute_def object_attribute_def changeset_attribute_def set_lon_partial_def set_lat_partial_def osmium_ext_def node_locals_def changeset_locals_def opl_non_empty_def peek_def NUL_def TAB_def Location_def Box_def decimal_coordinate_def Let_def is_digit_def decimal_def call_def empty_buffer_def)
  have cv_p2: "peek ''c1 x1 y2 X3 Y4'' 8 \<noteq> NUL" "peek ''c1 x1 y2 X3 Y4'' 9 \<noteq> NUL"
    by (simp_all add: peek_def NUL_def)
  have cv_s2: "opl_parse_space ''c1 x1 y2 X3 Y4'' 8 = Inr 9"
    by code_simp
  have cv_a2: "changeset_attribute osmium_ext ''c1 x1 y2 X3 Y4'' (peek ''c1 x1 y2 X3 Y4'' 9) (Suc 9) (((changeset_locals osmium_ext (call (set_id 1) (call ChangesetBuilder empty_buffer)))\<lparr>has_min_x := True, bbox := \<lparr>bottom_left = \<lparr>m_x = 10000000, m_y = 2147483647\<rparr>, top_right = \<lparr>m_x = 2147483647, m_y = 2147483647\<rparr>\<rparr>\<rparr>)\<lparr>has_min_y := True, bbox := \<lparr>bottom_left = \<lparr>m_x = 10000000, m_y = 20000000\<rparr>, top_right = \<lparr>m_x = 2147483647, m_y = 2147483647\<rparr>\<rparr>\<rparr>)
      = Inr (11, ((((changeset_locals osmium_ext (call (set_id 1) (call ChangesetBuilder empty_buffer)))\<lparr>has_min_x := True, bbox := \<lparr>bottom_left = \<lparr>m_x = 10000000, m_y = 2147483647\<rparr>, top_right = \<lparr>m_x = 2147483647, m_y = 2147483647\<rparr>\<rparr>\<rparr>)\<lparr>has_min_y := True, bbox := \<lparr>bottom_left = \<lparr>m_x = 10000000, m_y = 20000000\<rparr>, top_right = \<lparr>m_x = 2147483647, m_y = 2147483647\<rparr>\<rparr>\<rparr>)\<lparr>has_max_x := True, bbox := \<lparr>bottom_left = \<lparr>m_x = 10000000, m_y = 20000000\<rparr>, top_right = \<lparr>m_x = 30000000, m_y = 2147483647\<rparr>\<rparr>\<rparr>))"
    by (simp add: node_attribute_def object_attribute_def changeset_attribute_def set_lon_partial_def set_lat_partial_def osmium_ext_def node_locals_def changeset_locals_def opl_non_empty_def peek_def NUL_def TAB_def Location_def Box_def decimal_coordinate_def Let_def is_digit_def decimal_def call_def empty_buffer_def)
  have cv_p3: "peek ''c1 x1 y2 X3 Y4'' 11 \<noteq> NUL" "peek ''c1 x1 y2 X3 Y4'' 12 \<noteq> NUL"
    by (simp_all add: peek_def NUL_def)
  have cv_s3: "opl_parse_space ''c1 x1 y2 X3 Y4'' 11 = Inr 12"
    by code_simp
  have cv_a3: "changeset_attribute osmium_ext ''c1 x1 y2 X3 Y4'' (peek ''c1 x1 y2 X3 Y4'' 12) (Suc 12) ((((changeset_locals osmium_ext (call (set_id 1) (call ChangesetBuilder empty_buffer)))\<lparr>has_min_x := True, bbox := \<lparr>bottom_left = \<lparr>m_x = 10000000, m_y = 2147483647\<rparr>, top_right = \<lparr>m_x = 2147483647, m_y = 2147483647\<rparr>\<rparr>\<rparr>)\<lparr>has_min_y := True, bbox := \<lparr>bottom_left = \<lparr>m_x = 10000000, m_y = 20000000\<rparr>, top_right = \<lparr>m_x = 2147483647, m_y = 2147483647\<rparr>\<rparr>\<rparr>)\<lparr>has_max_x := True, bbox := \<lparr>bottom_left = \<lparr>m_x = 10000000, m_y = 20000000\<rparr>, top_right = \<lparr>m_x = 30000000, m_y = 2147483647\<rparr>\<rparr>\<rparr>)
      = Inr (14, (((((changeset_locals osmium_ext (call (set_id 1) (call ChangesetBuilder empty_buffer)))\<lparr>has_min_x := True, bbox := \<lparr>bottom_left = \<lparr>m_x = 10000000, m_y = 2147483647\<rparr>, top_right = \<lparr>m_x = 2147483647, m_y = 2147483647\<rparr>\<rparr>\<rparr>)\<lparr>has_min_y := True, bbox := \<lparr>bottom_left = \<lparr>m_x = 10000000, m_y = 20000000\<rparr>, top_right = \<lparr>m_x = 2147483647, m_y = 2147483647\<rparr>\<rparr>\<rparr>)\<lparr>has_max_x := True, bbox := \<lparr>bottom_left = \<lparr>m_x = 10000000, m_y = 20000000\<rparr>, top_right = \<lparr>m_x = 30000000, m_y = 2147483647\<rparr>\<rparr>\<rparr>)\<lparr>has_max_y := True, bbox := \<lparr>bottom_left = \<lparr>m_x = 10000000, m_y = 20000000\<rparr>, top_right = \<lparr>m_x = 30000000, m_y = 40000000\<rparr>\<rparr>\<rparr>))"
    by (simp add: node_attribute_def object_attribute_def changeset_attribute_def set_lon_partial_def set_lat_partial_def osmium_ext_def node_locals_def changeset_locals_def opl_non_empty_def peek_def NUL_def TAB_def Location_def Box_def decimal_coordinate_def Let_def is_digit_def decimal_def call_def empty_buffer_def)
  have cv_scanned: "scanned (changeset_attribute osmium_ext ''c1 x1 y2 X3 Y4'') ''c1 x1 y2 X3 Y4'' 2 (changeset_locals osmium_ext (call (set_id 1) (call ChangesetBuilder empty_buffer)))
      (peek ''c1 x1 y2 X3 Y4'' 3 # peek ''c1 x1 y2 X3 Y4'' 6 # peek ''c1 x1 y2 X3 Y4'' 9 # peek ''c1 x1 y2 X3 Y4'' 12 # []) 14 (((((changeset_locals osmium_ext (call (set_id 1) (call ChangesetBuilder empty_buffer)))\<lparr>has_min_x := True, bbox := \<lparr>bottom_left = \<lparr>m_x = 10000000, m_y = 2147483647\<rparr>, top_right = \<lparr>m_x = 2147483647, m_y = 2147483647\<rparr>\<rparr>\<rparr>)\<lparr>has_min_y := True, bbox := \<lparr>bottom_left = \<lparr>m_x = 10000000, m_y = 20000000\<rparr>, top_right = \<lparr>m_x = 2147483647, m_y = 2147483647\<rparr>\<rparr>\<rparr>)\<lparr>has_max_x := True, bbox := \<lparr>bottom_left = \<lparr>m_x = 10000000, m_y = 20000000\<rparr>, top_right = \<lparr>m_x = 30000000, m_y = 2147483647\<rparr>\<rparr>\<rparr>)\<lparr>has_max_y := True, bbox := \<lparr>bottom_left = \<lparr>m_x = 10000000, m_y = 20000000\<rparr>, top_right = \<lparr>m_x = 30000000, m_y = 40000000\<rparr>\<rparr>\<rparr>)"
    by (rule scanned_more [where attribute = "changeset_attribute osmium_ext ''c1 x1 y2 X3 Y4''" and s = "''c1 x1 y2 X3 Y4''",
        OF cv_p0(1) cv_s0 cv_p0(2) cv_a0
        scanned_more [where attribute = "changeset_attribute osmium_ext ''c1 x1 y2 X3 Y4''" and s = "''c1 x1 y2 X3 Y4''",
        OF cv_p1(1) cv_s1 cv_p1(2) cv_a1
        scanned_more [where attribute = "changeset_attribute osmium_ext ''c1 x1 y2 X3 Y4''" and s = "''c1 x1 y2 X3 Y4''",
        OF cv_p2(1) cv_s2 cv_p2(2) cv_a2
        scanned_more [where attribute = "changeset_attribute osmium_ext ''c1 x1 y2 X3 Y4''" and s = "''c1 x1 y2 X3 Y4''",
        OF cv_p3(1) cv_s3 cv_p3(2) cv_a3
        scanned_none [where attribute = "changeset_attribute osmium_ext ''c1 x1 y2 X3 Y4''" and s = "''c1 x1 y2 X3 Y4''"]]]]])
  have cv_end: "opl_parse_changeset_loop osmium_ext ''c1 x1 y2 X3 Y4'' 14 (((((changeset_locals osmium_ext (call (set_id 1) (call ChangesetBuilder empty_buffer)))\<lparr>has_min_x := True, bbox := \<lparr>bottom_left = \<lparr>m_x = 10000000, m_y = 2147483647\<rparr>, top_right = \<lparr>m_x = 2147483647, m_y = 2147483647\<rparr>\<rparr>\<rparr>)\<lparr>has_min_y := True, bbox := \<lparr>bottom_left = \<lparr>m_x = 10000000, m_y = 20000000\<rparr>, top_right = \<lparr>m_x = 2147483647, m_y = 2147483647\<rparr>\<rparr>\<rparr>)\<lparr>has_max_x := True, bbox := \<lparr>bottom_left = \<lparr>m_x = 10000000, m_y = 20000000\<rparr>, top_right = \<lparr>m_x = 30000000, m_y = 2147483647\<rparr>\<rparr>\<rparr>)\<lparr>has_max_y := True, bbox := \<lparr>bottom_left = \<lparr>m_x = 10000000, m_y = 20000000\<rparr>, top_right = \<lparr>m_x = 30000000, m_y = 40000000\<rparr>\<rparr>\<rparr>)
      = Inr (14, (((((changeset_locals osmium_ext (call (set_id 1) (call ChangesetBuilder empty_buffer)))\<lparr>has_min_x := True, bbox := \<lparr>bottom_left = \<lparr>m_x = 10000000, m_y = 2147483647\<rparr>, top_right = \<lparr>m_x = 2147483647, m_y = 2147483647\<rparr>\<rparr>\<rparr>)\<lparr>has_min_y := True, bbox := \<lparr>bottom_left = \<lparr>m_x = 10000000, m_y = 20000000\<rparr>, top_right = \<lparr>m_x = 2147483647, m_y = 2147483647\<rparr>\<rparr>\<rparr>)\<lparr>has_max_x := True, bbox := \<lparr>bottom_left = \<lparr>m_x = 10000000, m_y = 20000000\<rparr>, top_right = \<lparr>m_x = 30000000, m_y = 2147483647\<rparr>\<rparr>\<rparr>)\<lparr>has_max_y := True, bbox := \<lparr>bottom_left = \<lparr>m_x = 10000000, m_y = 20000000\<rparr>, top_right = \<lparr>m_x = 30000000, m_y = 40000000\<rparr>\<rparr>\<rparr>))"
    by (simp add: opl_parse_changeset_loop.simps [of _ _ 14] peek_def NUL_def)
  have cv_loop: "opl_parse_changeset_loop osmium_ext ''c1 x1 y2 X3 Y4'' 2 (changeset_locals osmium_ext (call (set_id 1) (call ChangesetBuilder empty_buffer)))
      = Inr (14, (((((changeset_locals osmium_ext (call (set_id 1) (call ChangesetBuilder empty_buffer)))\<lparr>has_min_x := True, bbox := \<lparr>bottom_left = \<lparr>m_x = 10000000, m_y = 2147483647\<rparr>, top_right = \<lparr>m_x = 2147483647, m_y = 2147483647\<rparr>\<rparr>\<rparr>)\<lparr>has_min_y := True, bbox := \<lparr>bottom_left = \<lparr>m_x = 10000000, m_y = 20000000\<rparr>, top_right = \<lparr>m_x = 2147483647, m_y = 2147483647\<rparr>\<rparr>\<rparr>)\<lparr>has_max_x := True, bbox := \<lparr>bottom_left = \<lparr>m_x = 10000000, m_y = 20000000\<rparr>, top_right = \<lparr>m_x = 30000000, m_y = 2147483647\<rparr>\<rparr>\<rparr>)\<lparr>has_max_y := True, bbox := \<lparr>bottom_left = \<lparr>m_x = 10000000, m_y = 20000000\<rparr>, top_right = \<lparr>m_x = 30000000, m_y = 40000000\<rparr>\<rparr>\<rparr>))"
    using opl_parse_changeset_loop_scanned [OF cv_scanned] cv_end by simp
  have cv_line: "opl_parse_line osmium_ext 1 ''c1 x1 y2 X3 Y4'' empty_buffer {changeset_bit}
     = Inr (True, \<lparr>committed = [[ChangesetBuilder, set_id 1, set_bounds \<lparr>bottom_left = \<lparr>m_x = 10000000, m_y = 20000000\<rparr>, top_right = \<lparr>m_x = 30000000, m_y = 40000000\<rparr>\<rparr>, set_user []]], written = []\<rparr>)"
    unfolding opl_parse_line_def opl_parse_line_try_def opl_parse_node_def
      opl_parse_changeset_def Let_def
    apply (simp add: cv_first cv_id cv_loop NUL_def)
    apply (simp add: osmium node_locals_def changeset_locals_def call_def commit_def
        empty_buffer_def Location_def Box_def)
    done
  have cv_calls: "filter is_position_call (last (committed \<lparr>committed = [[ChangesetBuilder, set_id 1, set_bounds \<lparr>bottom_left = \<lparr>m_x = 10000000, m_y = 20000000\<rparr>, top_right = \<lparr>m_x = 30000000, m_y = 40000000\<rparr>\<rparr>, set_user []]], written = []\<rparr>))
     = [set_bounds \<lparr>bottom_left = \<lparr>m_x = 10000000, m_y = 20000000\<rparr>, top_right = \<lparr>m_x = 30000000, m_y = 40000000\<rparr>\<rparr>]"
    using coordinate_letter_presence [where X = osmium_ext and s = "''c1 x1 y2 X3 Y4''" and line_count = 1
        and b = empty_buffer and read_types = "{changeset_bit}" and v = 1 and ?i1.0 = 2
        and ?i2.0 = 14 and cst = "(((((changeset_locals osmium_ext (call (set_id 1) (call ChangesetBuilder empty_buffer)))\<lparr>has_min_x := True, bbox := \<lparr>bottom_left = \<lparr>m_x = 10000000, m_y = 2147483647\<rparr>, top_right = \<lparr>m_x = 2147483647, m_y = 2147483647\<rparr>\<rparr>\<rparr>)\<lparr>has_min_y := True, bbox := \<lparr>bottom_left = \<lparr>m_x = 10000000, m_y = 20000000\<rparr>, top_right = \<lparr>m_x = 2147483647, m_y = 2147483647\<rparr>\<rparr>\<rparr>)\<lparr>has_max_x := True, bbox := \<lparr>bottom_left = \<lparr>m_x = 10000000, m_y = 20000000\<rparr>, top_right = \<lparr>m_x = 30000000, m_y = 2147483647\<rparr>\<rparr>\<rparr>)\<lparr>has_max_y := True, bbox := \<lparr>bottom_left = \<lparr>m_x = 10000000, m_y = 20000000\<rparr>, top_right = \<lparr>m_x = 30000000, m_y = 40000000\<rparr>\<rparr>\<rparr>)"
        and b' = "\<lparr>committed = [[ChangesetBuilder, set_id 1, set_bounds \<lparr>bottom_left = \<lparr>m_x = 10000000, m_y = 20000000\<rparr>, top_right = \<lparr>m_x = 30000000, m_y = 40000000\<rparr>\<rparr>, set_user []]], written = []\<rparr>",
        THEN conjunct2, THEN conjunct2, THEN conjunct2, THEN conjunct2, THEN conjunct2, THEN conjunct2, THEN conjunct2, THEN conjunct2, THEN conjunct2, THEN conjunct1, rule_format,
        OF conjI [OF cv_first conjI [OF cv_id conjI [OF cv_loop cv_line]]]]
    by (simp add: position_calls_def empty_buffer_def osmium_ext_def node_locals_def changeset_locals_def)
  have nb_first: "peek ''n1 x y'' 0 = CHR ''n''"
    by (simp add: peek_def)
  have nb_bare: "\<forall>k<length ''n1 x y''. peek ''n1 x y'' k \<in> {CHR ''x'', CHR ''y''}
      \<longrightarrow> \<not> opl_non_empty ''n1 x y'' (Suc k)"
    by (simp add: All_less_Suc peek_def opl_non_empty_def NUL_def TAB_def)
  have nb_line: "opl_parse_line osmium_ext 1 ''n1 x y'' empty_buffer {node_bit}
     = Inr (True, \<lparr>committed = [[NodeBuilder, set_id 1, set_user []]], written = []\<rparr>)"
    by code_simp
  have nb_calls: "filter is_position_call (last (committed \<lparr>committed = [[NodeBuilder, set_id 1, set_user []]], written = []\<rparr>))
     = []"
    using coordinate_letter_presence [where X = osmium_ext and s = "''n1 x y''" and line_count = 1
        and b = empty_buffer and read_types = "{node_bit}"
        and b' = "\<lparr>committed = [[NodeBuilder, set_id 1, set_user []]], written = []\<rparr>",
        THEN conjunct2, THEN conjunct2, THEN conjunct2, THEN conjunct2, THEN conjunct2, THEN conjunct2, THEN conjunct2, THEN conjunct2, THEN conjunct2, THEN conjunct2, THEN conjunct1, rule_format,
        OF conjI [OF nb_first conjI [OF nb_bare nb_line]]]
    by (simp add: position_calls_def empty_buffer_def osmium_ext_def Location_def Box_def)
  have cb_first: "peek ''c1 x y X Y'' 0 = CHR ''c''"
    by (simp add: peek_def)
  have cb_bare: "\<forall>k<length ''c1 x y X Y''. peek ''c1 x y X Y'' k \<in> {CHR ''x'', CHR ''y'', CHR ''X'', CHR ''Y''}
      \<longrightarrow> \<not> opl_non_empty ''c1 x y X Y'' (Suc k)"
    by (simp add: All_less_Suc peek_def opl_non_empty_def NUL_def TAB_def)
  have cb_line: "opl_parse_line osmium_ext 1 ''c1 x y X Y'' empty_buffer {changeset_bit}
     = Inr (True, \<lparr>committed = [[ChangesetBuilder, set_id 1, set_bounds \<lparr>bottom_left = \<lparr>m_x = 2147483647, m_y = 2147483647\<rparr>, top_right = \<lparr>m_x = 2147483647, m_y = 2147483647\<rparr>\<rparr>, set_user []]], written = []\<rparr>)"
    by code_simp
  have cb_calls: "filter is_position_call (last (committed \<lparr>committed = [[ChangesetBuilder, set_id 1, set_bounds \<lparr>bottom_left = \<lparr>m_x = 2147483647, m_y = 2147483647\<rparr>, top_right = \<lparr>m_x = 2147483647, m_y = 2147483647\<rparr>\<rparr>, set_user []]], written = []\<rparr>))
     = [set_bounds \<lparr>bottom_left = \<lparr>m_x = 2147483647, m_y = 2147483647\<rparr>, top_right = \<lparr>m_x = 2147483647, m_y = 2147483647\<rparr>\<rparr>]"
    using coordinate_letter_presence [where X = osmium_ext and s = "''c1 x y X Y''" and line_count = 1
        and b = empty_buffer and read_types = "{changeset_bit}"
        and b' = "\<lparr>committed = [[ChangesetBuilder, set_id 1, set_bounds \<lparr>bottom_left = \<lparr>m_x = 2147483647, m_y = 2147483647\<rparr>, top_right = \<lparr>m_x = 2147483647, m_y = 2147483647\<rparr>\<rparr>, set_user []]], written = []\<rparr>",
        THEN conjunct2, THEN conjunct2, THEN conjunct2, THEN conjunct2, THEN conjunct2, THEN conjunct2, THEN conjunct2, THEN conjunct2, THEN conjunct2, THEN conjunct2, THEN conjunct2, rule_format,
        OF conjI [OF cb_first conjI [OF cb_bare cb_line]]]
    by (simp add: position_calls_def empty_buffer_def osmium_ext_def Location_def Box_def)
  from letter0 letter1 letter2 letter3 letter4 letter5
    nv_line nv_calls nx_line nx_calls cv_line cv_calls nb_line nb_calls cb_line cb_calls
  show ?thesis by blast
qed

subsection \<open>The length of a percent escape\<close>

lemma peek_append [simp]: "peek (pre @ c # rest) (length pre) = c"
  by (simp add: peek_def)

lemma peek_append_Nil [simp]: "peek pre (length pre) = NUL"
  by (simp add: peek_def)

lemma is_hex_plain: "is_hex d \<Longrightarrow> d \<noteq> NUL \<and> d \<noteq> CHR ''%''"
  by (auto simp: is_hex_def NUL_def less_eq_char_def)

lemma hex_value_less: "is_hex d \<Longrightarrow> hex_value d < 16"
  by (auto simp: is_hex_def hex_value_def less_eq_char_def)

lemma opl_parse_escaped_loop_step:
  assumes "is_hex d" and "len + 1 \<le> max_length" and "peek s i = d"
  shows "opl_parse_escaped_loop s i val len result
         = opl_parse_escaped_loop s (Suc i) (val * 16 + of_nat (hex_value d)) (len + 1) result"
proof -
  from assms(1) have plain: "d \<noteq> NUL" "d \<noteq> CHR ''%''"
    using is_hex_plain by auto
  have shift: "push_bit 4 val = val * 16"
    by (simp add: push_bit_eq_mult)
  from assms(1) consider
      (digit) "CHR ''0'' \<le> d \<and> d \<le> CHR ''9''"
    | (lower) "\<not> (CHR ''0'' \<le> d \<and> d \<le> CHR ''9'')" "CHR ''a'' \<le> d \<and> d \<le> CHR ''f''"
    | (upper) "\<not> (CHR ''0'' \<le> d \<and> d \<le> CHR ''9'')" "\<not> (CHR ''a'' \<le> d \<and> d \<le> CHR ''f'')"
        "CHR ''A'' \<le> d \<and> d \<le> CHR ''F''"
    unfolding is_hex_def by blast
  then show ?thesis
  proof cases
    case digit
    with assms(2,3) plain shift show ?thesis
      by (subst opl_parse_escaped_loop.simps) (simp add: Let_def hex_value_def)
  next
    case lower
    then have "\<not> d \<le> CHR ''9''"
      by (simp add: less_eq_char_def)
    with lower assms(2,3) plain shift show ?thesis
      by (subst opl_parse_escaped_loop.simps) (simp add: Let_def hex_value_def)
  next
    case upper
    then have "\<not> d \<le> CHR ''9''" "\<not> CHR ''a'' \<le> d"
      by (simp_all add: less_eq_char_def)
    with upper assms(2,3) plain shift show ?thesis
      by (subst opl_parse_escaped_loop.simps) (simp add: Let_def hex_value_def)
  qed
qed

lemma hexadecimal_foldl:
  "foldl (\<lambda>a c. 16 * a + hex_value c) a ds
   = a * 16 ^ length ds + foldl (\<lambda>a c. 16 * a + hex_value c) 0 ds"
proof (induction ds arbitrary: a)
  case Nil
  show ?case by simp
next
  case (Cons d ds)
  let ?f = "\<lambda>a c. 16 * a + hex_value c"
  have "foldl ?f a (d # ds) = foldl ?f (16 * a + hex_value d) ds"
    by simp
  also have "\<dots> = (16 * a + hex_value d) * 16 ^ length ds + foldl ?f 0 ds"
    by (rule Cons.IH)
  also have "\<dots> = a * 16 ^ length (d # ds) + (hex_value d * 16 ^ length ds + foldl ?f 0 ds)"
    by (simp add: algebra_simps)
  also have "hex_value d * 16 ^ length ds + foldl ?f 0 ds = foldl ?f (hex_value d) ds"
    by (rule Cons.IH [symmetric])
  also have "foldl ?f (hex_value d) ds = foldl ?f 0 (d # ds)"
    by simp
  finally show ?case .
qed

lemma hexadecimal_Cons:
  "hexadecimal (d # ds) = hex_value d * 16 ^ length ds + hexadecimal ds"
  unfolding hexadecimal_def using hexadecimal_foldl [of "hex_value d" ds] by simp

lemma hexadecimal_less: "list_all is_hex ds \<Longrightarrow> hexadecimal ds < 16 ^ length ds"
proof (induction ds)
  case Nil
  show ?case by (simp add: hexadecimal_def)
next
  case (Cons d ds)
  then have "hex_value d < 16" "hexadecimal ds < 16 ^ length ds"
    by (simp_all add: hex_value_less)
  then have "hex_value d * 16 ^ length ds + hexadecimal ds < 16 * 16 ^ length ds"
    by (metis (no_types, lifting) Suc_leI add_less_mono1 less_le_trans mult_Suc mult_le_mono1 add.commute)
  then show ?case by (simp add: hexadecimal_Cons)
qed

lemma opl_parse_escaped_loop_digits:
  "list_all is_hex ds \<Longrightarrow> len + int (length ds) + 1 \<le> max_length \<Longrightarrow>
     opl_parse_escaped_loop (pre @ ds @ CHR ''%'' # rest) (length pre) val len result
     = Inr (length pre + length ds + 1,
            result @ append_codepoint_as_utf8 (val * 16 ^ length ds + of_nat (hexadecimal ds)))"
proof (induction ds arbitrary: pre val len)
  case Nil
  then show ?case
    by (subst opl_parse_escaped_loop.simps) (simp add: NUL_def hexadecimal_def)
next
  case (Cons d ds)
  from Cons.prems have d: "is_hex d" and ds: "list_all is_hex ds"
    and len: "len + 1 \<le> max_length" "(len + 1) + int (length ds) + 1 \<le> max_length"
    by simp_all
  have "opl_parse_escaped_loop (pre @ (d # ds) @ CHR ''%'' # rest) (length pre) val len result
      = opl_parse_escaped_loop ((pre @ [d]) @ ds @ CHR ''%'' # rest) (length (pre @ [d]))
          (val * 16 + of_nat (hex_value d)) (len + 1) result"
    using opl_parse_escaped_loop_step [OF d len(1), of "pre @ (d # ds) @ CHR ''%'' # rest"
        "length pre" val result]
    by simp
  also have "\<dots> = Inr (length (pre @ [d]) + length ds + 1,
      result @ append_codepoint_as_utf8
        ((val * 16 + of_nat (hex_value d)) * 16 ^ length ds + of_nat (hexadecimal ds)))"
    by (rule Cons.IH [OF ds len(2)])
  finally show ?case
    by (simp add: hexadecimal_Cons algebra_simps)
qed

lemma opl_parse_escaped_loop_long:
  "list_all is_hex ds \<Longrightarrow> max_length \<le> len + int (length ds) \<Longrightarrow> len \<le> max_length \<Longrightarrow>
     opl_parse_escaped_loop (pre @ ds @ rest) (length pre) val len result
     = Inl (opl_error ''hex escape too long'' (Some (length pre + nat (max_length - len))))"
proof (induction ds arbitrary: pre val len)
  case Nil
  then have "len = max_length" by simp
  then show ?case
    by (subst opl_parse_escaped_loop.simps) simp
next
  case (Cons d ds)
  show ?case
  proof (cases "len = max_length")
    case True
    then show ?thesis
      by (subst opl_parse_escaped_loop.simps) simp
  next
    case False
    with Cons.prems have d: "is_hex d" and ds: "list_all is_hex ds"
      and len: "len + 1 \<le> max_length" "max_length \<le> (len + 1) + int (length ds)"
      by simp_all
    have "opl_parse_escaped_loop (pre @ (d # ds) @ rest) (length pre) val len result
        = opl_parse_escaped_loop ((pre @ [d]) @ ds @ rest) (length (pre @ [d]))
            (val * 16 + of_nat (hex_value d)) (len + 1) result"
      using opl_parse_escaped_loop_step [OF d len(1), of "pre @ (d # ds) @ rest"
          "length pre" val result]
      by simp
    also have "\<dots> = Inl (opl_error ''hex escape too long''
        (Some (length (pre @ [d]) + nat (max_length - (len + 1)))))"
      by (rule Cons.IH [OF ds len(2) len(1)])
    finally have thrown:
      "opl_parse_escaped_loop (pre @ (d # ds) @ rest) (length pre) val len result
       = Inl (opl_error ''hex escape too long''
           (Some (length (pre @ [d]) + nat (max_length - (len + 1)))))" .
    from len(1) have eq: "nat (max_length - len) = Suc (nat (max_length - (len + 1)))"
      by simp
    show ?thesis
      unfolding eq using thrown by simp
  qed
qed

text \<open>
  C2, as the code has it. Behind the \<open>%\<close> that opens an escape, a run of \<open>n\<close>
  hexadecimal digits closed by \<open>%\<close> is decoded for every \<open>n\<close> from 0 to 7: the
  cursor moves behind the closing \<open>%\<close> and the UTF-8 encoding of the code point
  that the digits name is appended, the number itself fitting the 32-bit
  accumulator; for the empty run \<open>%%\<close> that is code point 0. A run of 9 or more
  digits fails with \<open>hex escape too long\<close>, the cursor on the ninth digit.
\<close>

theorem hex_escape_length:
  "(list_all is_hex ds \<and> length ds \<le> 7
      \<longrightarrow> opl_parse_escaped (pre @ ds @ CHR ''%'' # rest) (length pre) result
            = Inr (length pre + length ds + 1,
                   result @ append_codepoint_as_utf8 (of_nat (hexadecimal ds)))
          \<and> unat (of_nat (hexadecimal ds) :: 32 word) = hexadecimal ds)
   \<and> (list_all is_hex ds \<and> 9 \<le> length ds
      \<longrightarrow> opl_parse_escaped (pre @ ds @ rest) (length pre) result
            = Inl (opl_error ''hex escape too long'' (Some (length pre + 8))))"
proof (intro conjI impI; elim conjE)
  assume hex: "list_all is_hex ds" and short: "length ds \<le> 7"
  then show "opl_parse_escaped (pre @ ds @ CHR ''%'' # rest) (length pre) result
            = Inr (length pre + length ds + 1,
                   result @ append_codepoint_as_utf8 (of_nat (hexadecimal ds)))"
    using opl_parse_escaped_loop_digits [of ds 0 pre rest 0 result]
    by (simp add: opl_parse_escaped_def max_length_def)
  from hexadecimal_less [OF hex] short have "hexadecimal ds < 16 ^ 7"
    by (meson le_less_trans not_less power_increasing_iff one_less_numeral_iff semiring_norm(76) less_le_trans)
  then show "unat (of_nat (hexadecimal ds) :: 32 word) = hexadecimal ds"
    by (simp add: unat_of_nat)
next
  assume "list_all is_hex ds" and "9 \<le> length ds"
  then show "opl_parse_escaped (pre @ ds @ rest) (length pre) result
            = Inl (opl_error ''hex escape too long'' (Some (length pre + 8)))"
    using opl_parse_escaped_loop_long [of ds 0 pre rest 0 result]
    by (simp add: opl_parse_escaped_def max_length_def)
qed

theorem hex_escape_length_witness:
  "opl_parse_escaped (''Caf%'' @ ''E9'' @ CHR ''%'' # []) (length ''Caf%'') ''Caf''
     = Inr (7, ''Caf'' @ [CHR 0xC3, CHR 0xA9])
   \<and> unat (of_nat (hexadecimal ''E9'') :: 32 word) = 233
   \<and> opl_parse_escaped (''%'' @ ''123456789'' @ ''%'') (length ''%'') []
     = Inl (opl_error ''hex escape too long'' (Some 9))"
proof -
  have hex: "list_all is_hex ''E9'' \<and> length ''E9'' \<le> 7"
    "list_all is_hex ''123456789'' \<and> 9 \<le> length ''123456789''"
    by code_simp+
  have val: "hexadecimal ''E9'' = 233"
    by code_simp
  have enc: "append_codepoint_as_utf8 233 = [CHR 0xC3, CHR 0xA9]"
    by code_simp
  from hex val enc
    hex_escape_length [of "''E9''" "''Caf%''" "[]" "''Caf''", THEN conjunct1]
    hex_escape_length [of "''123456789''" "''%''" "''%''" "[]", THEN conjunct2]
  show ?thesis by simp
qed

text \<open>The empty run: \<open>%%\<close> is decoded to the NUL byte.\<close>

theorem hex_escape_length_counterexample:
  "opl_parse_escaped ''%'' 0 [] = Inr (1, [CHR 0x00])
   \<and> opl_parse_string ''%%'' 0 [] = Inr (2, [CHR 0x00])"
  by code_simp

subsection \<open>Integers\<close>

lemma is_digit_plain: "is_digit d \<Longrightarrow> d \<noteq> NUL \<and> d \<noteq> CHR ''-''"
  by (auto simp: is_digit_def NUL_def less_eq_char_def)

lemma digit_less: "is_digit d \<Longrightarrow> of_char d - of_char CHR ''0'' < (10::nat)"
  by (auto simp: is_digit_def less_eq_char_def)

lemma opl_parse_int_loop_step:
  assumes "is_digit (peek s i)" and "n \<noteq> 1"
  shows "opl_parse_int_loop s i val n
         = opl_parse_int_loop s (Suc i)
             (val * 10 + of_nat (of_char (peek s i) - of_char CHR ''0'')) (n - 1)"
  using assms by (subst opl_parse_int_loop.simps) (simp add: is_digit_def)

lemma opl_parse_int_loop_stop:
  assumes "\<not> is_digit (peek s i)"
  shows "opl_parse_int_loop s i val n = Inr (val, i, n)"
proof -
  from assms have "\<not> (CHR ''0'' \<le> peek s i \<and> peek s i \<le> CHR ''9'')"
    by (simp add: is_digit_def)
  then show ?thesis
    by (subst opl_parse_int_loop.simps) (rule if_not_P)
qed

lemma opl_parse_int_loop_sixteenth:
  "is_digit (peek s i) \<Longrightarrow>
     opl_parse_int_loop s i val 1 = Inl (opl_error ''integer too long'' (Some i))"
  by (subst opl_parse_int_loop.simps) (simp add: is_digit_def)

lemma decimal_foldl:
  "foldl (\<lambda>a c. 10 * a + (of_char c - of_char CHR ''0'')) a ds
   = a * 10 ^ length ds + decimal ds"
proof (induction ds arbitrary: a)
  case Nil
  show ?case by (simp add: decimal_def)
next
  case (Cons d ds)
  let ?f = "\<lambda>a c. 10 * a + (of_char c - of_char CHR ''0'')"
  have "foldl ?f a (d # ds) = foldl ?f (10 * a + (of_char d - of_char CHR ''0'')) ds"
    by simp
  also have "\<dots> = (10 * a + (of_char d - of_char CHR ''0'')) * 10 ^ length ds + decimal ds"
    by (rule Cons.IH)
  also have "\<dots> = a * 10 ^ length (d # ds)
      + ((of_char d - of_char CHR ''0'') * 10 ^ length ds + decimal ds)"
    by (simp add: algebra_simps)
  also have "(of_char d - of_char CHR ''0'') * 10 ^ length ds + decimal ds
      = foldl ?f (of_char d - of_char CHR ''0'') ds"
    by (rule Cons.IH [symmetric])
  also have "\<dots> = decimal (d # ds)"
    by (simp add: decimal_def)
  finally show ?case .
qed

lemma decimal_Cons:
  "decimal (d # ds) = (of_char d - of_char CHR ''0'') * 10 ^ length ds + decimal ds"
  using decimal_foldl [of "of_char d - of_char CHR ''0''" ds]
  by (simp add: decimal_def)

lemma decimal_less: "list_all is_digit ds \<Longrightarrow> decimal ds < 10 ^ length ds"
proof (induction ds)
  case Nil
  show ?case by (simp add: decimal_def)
next
  case (Cons d ds)
  then have d: "of_char d - of_char CHR ''0'' < (10::nat)" and ds: "decimal ds < 10 ^ length ds"
    using digit_less [of d] by simp_all
  from d have "(of_char d - of_char CHR ''0'') * 10 ^ length ds \<le> (9::nat) * 10 ^ length ds"
    by (intro mult_le_mono1) simp
  with ds have "(of_char d - of_char CHR ''0'') * 10 ^ length ds + decimal ds
      < (10::nat) * 10 ^ length ds"
    by linarith
  then show ?case
    by (simp add: decimal_Cons)
qed

lemma peek_behind [simp]: "peek (pre @ ds @ rest) (length pre + length ds) = peek rest 0"
  by (simp add: peek_def nth_append)

lemma opl_parse_int_loop_digits:
  "list_all is_digit ds \<Longrightarrow> \<not> is_digit (peek rest 0) \<Longrightarrow> int (length ds) < n \<Longrightarrow>
     opl_parse_int_loop (pre @ ds @ rest) (length pre) val n
     = Inr (val * 10 ^ length ds + of_nat (decimal ds), length pre + length ds,
            n - int (length ds))"
proof (induction ds arbitrary: pre val n)
  case Nil
  then show ?case
    using opl_parse_int_loop_stop [of "pre @ rest" "length pre" val n]
      peek_behind [of pre "[]" rest]
    by (simp add: decimal_def)
next
  case (Cons d ds)
  from Cons.prems have d: "is_digit d" and ds: "list_all is_digit ds"
    and n: "n \<noteq> 1" "int (length ds) < n - 1"
    by simp_all
  have "opl_parse_int_loop (pre @ (d # ds) @ rest) (length pre) val n
      = opl_parse_int_loop ((pre @ [d]) @ ds @ rest) (length (pre @ [d]))
          (val * 10 + of_nat (of_char d - of_char CHR ''0'')) (n - 1)"
    using opl_parse_int_loop_step [of "pre @ (d # ds) @ rest" "length pre" n val] d n(1)
    by simp
  also have "\<dots> = Inr ((val * 10 + of_nat (of_char d - of_char CHR ''0'')) * 10 ^ length ds
        + of_nat (decimal ds), length (pre @ [d]) + length ds, n - 1 - int (length ds))"
    by (rule Cons.IH [OF ds Cons.prems(2) n(2)])
  also have "(val * 10 + of_nat (of_char d - of_char CHR ''0'')) * 10 ^ length ds
        + of_nat (decimal ds)
      = val * 10 ^ length (d # ds) + of_nat (decimal (d # ds))"
    by (simp add: decimal_Cons distrib_right mult.assoc)
  finally show ?case
    by simp
qed

lemma opl_parse_int_loop_long:
  "list_all is_digit ds \<Longrightarrow> n \<le> int (length ds) \<Longrightarrow> 1 \<le> n \<Longrightarrow>
     opl_parse_int_loop (pre @ ds @ rest) (length pre) val n
     = Inl (opl_error ''integer too long'' (Some (length pre + nat (n - 1))))"
proof (induction ds arbitrary: pre val n)
  case Nil
  then show ?case by simp
next
  case (Cons d ds)
  from Cons.prems have d: "is_digit d" and ds: "list_all is_digit ds"
    by simp_all
  show ?case
  proof (cases "n = 1")
    case True
    with d show ?thesis
      using opl_parse_int_loop_sixteenth [of "pre @ (d # ds) @ rest" "length pre" val]
      by simp
  next
    case False
    with Cons.prems have n: "n - 1 \<le> int (length ds)" "1 \<le> n - 1"
      by simp_all
    have "opl_parse_int_loop (pre @ (d # ds) @ rest) (length pre) val n
        = opl_parse_int_loop ((pre @ [d]) @ ds @ rest) (length (pre @ [d]))
            (val * 10 + of_nat (of_char d - of_char CHR ''0'')) (n - 1)"
      using opl_parse_int_loop_step [of "pre @ (d # ds) @ rest" "length pre" n val] d False
      by simp
    also have "\<dots> = Inl (opl_error ''integer too long''
        (Some (length (pre @ [d]) + nat (n - 1 - 1))))"
      by (rule Cons.IH [OF ds n])
    finally have thrown: "opl_parse_int_loop (pre @ (d # ds) @ rest) (length pre) val n
        = Inl (opl_error ''integer too long''
        (Some (length (pre @ [d]) + nat (n - 1 - 1))))" .
    from n(2) have eq: "nat (n - 1) = Suc (nat (n - 1 - 1))"
      by simp
    show ?thesis
      unfolding eq using thrown by simp
  qed
qed

lemma sint_of_nat_small:
  assumes "v < 10 ^ 15"
  shows "sint (of_nat v :: 64 word) = int v" and "sint (- (of_nat v :: 64 word)) = - int v"
proof -
  from assms have "int v < 10 ^ 15"
    by (metis of_nat_less_iff of_nat_numeral of_nat_power)
  then have small: "int v < 2 ^ 63" "- (2 ^ 63) \<le> int v" "- (2 ^ 63) \<le> - int v" "- int v < 2 ^ 63"
    by simp_all
  show a: "sint (of_nat v :: 64 word) = int v"
    using small by (simp add: signed_of_nat signed_take_bit_int_eq_self)
  show "sint (- (of_nat v :: 64 word)) = - int v"
    using small by (simp add: sint_word_minus a signed_take_bit_int_eq_self)
qed

lemma numeric_min_le_0: "numeric_min T \<le> 0"
  by (cases T) simp_all

lemma numeric_max_ge_0: "0 \<le> numeric_max T"
  by (cases T) simp_all

lemma usual_conversion_id: "fits_int64 T \<Longrightarrow> usual_conversion T v = v"
proof (cases T)
  case (Signed_int b)
  then show ?thesis by simp
next
  case (Unsigned_int b)
  assume "fits_int64 T"
  with Unsigned_int have "(2::int) ^ b \<le> 2 ^ 63"
    by (simp add: fits_int64_def)
  then have "b \<le> 63"
    using power_le_imp_le_exp [of "2::int" b 63] by simp
  with Unsigned_int show ?thesis by simp
qed

lemma int_cast_id: "numeric_min T \<le> v \<Longrightarrow> v \<le> numeric_max T \<Longrightarrow> int_cast T v = v"
  by (cases T) (simp_all add: signed_take_bit_int_eq_self take_bit_int_eq_self)

lemma peek_not_digit: "\<not> is_digit (peek [] 0)"
  by (simp add: peek_def is_digit_def NUL_def less_eq_char_def)

lemma peek_dropWhile: "\<not> is_digit (peek (dropWhile is_digit xs) 0)"
proof (cases "dropWhile is_digit xs")
  case Nil
  show ?thesis
    unfolding Nil by (rule peek_not_digit)
next
  case (Cons c cs)
  then have "\<not> is_digit c"
    using hd_dropWhile [of is_digit xs] by simp
  with Cons show ?thesis by (simp add: peek_def)
qed

text \<open>The digit loop from its initial state, in closed form.\<close>

lemma opl_parse_int_loop_closed:
  "opl_parse_int_loop s i 0 max_int_len
   = (let ds = takeWhile is_digit (drop i s) in
      if length ds < 16
      then Inr (of_nat (decimal ds), i + length ds, max_int_len - int (length ds))
      else Inl (opl_error ''integer too long'' (Some (i + 15))))"
proof (cases "i \<le> length s")
  case False
  then have "\<not> is_digit (peek s i)" "drop i s = []"
    by (simp_all add: peek_def is_digit_def NUL_def less_eq_char_def)
  then show ?thesis
    by (simp add: opl_parse_int_loop_stop decimal_def)
next
  case True
  define ds where "ds = takeWhile is_digit (drop i s)"
  define rest where "rest = dropWhile is_digit (drop i s)"
  have s: "s = take i s @ ds @ rest" and i: "length (take i s) = i"
    using True by (simp_all add: ds_def rest_def)
  have digits: "list_all is_digit ds"
    unfolding ds_def list_all_iff by (auto dest: set_takeWhileD)
  have stop: "\<not> is_digit (peek rest 0)"
    unfolding rest_def by (rule peek_dropWhile)
  show ?thesis
  proof (cases "length ds < 16")
    case short: True
    have "opl_parse_int_loop (take i s @ ds @ rest) (length (take i s)) 0 max_int_len
        = Inr (0 * 10 ^ length ds + of_nat (decimal ds), length (take i s) + length ds,
               max_int_len - int (length ds))"
      using short by (intro opl_parse_int_loop_digits [OF digits stop]) (simp add: max_int_len_def)
    with short show ?thesis
      unfolding i s [symmetric] by (simp add: ds_def [symmetric] Let_def)
  next
    case long: False
    have "opl_parse_int_loop (take i s @ ds @ rest) (length (take i s)) 0 max_int_len
        = Inl (opl_error ''integer too long'' (Some (length (take i s) + nat (max_int_len - 1))))"
      using long by (intro opl_parse_int_loop_long [OF digits]) (simp_all add: max_int_len_def)
    with long show ?thesis
      unfolding i s [symmetric] by (simp add: ds_def [symmetric] Let_def max_int_len_def)
  qed
qed

lemma decimal_small:
  assumes "list_all is_digit ds" and "length ds < 16"
  shows "decimal ds < 10 ^ 15"
proof -
  from assms(2) have "(10::nat) ^ length ds \<le> 10 ^ 15"
    by (intro power_increasing) simp_all
  with decimal_less [OF assms(1)] show ?thesis by linarith
qed

lemma sint_step:
  fixes val :: "64 word"
  assumes "0 \<le> sint val" and "sint val < 10 ^ k" and "k \<le> 14" and "d < 10"
  shows "sint (val * 10) = sint val * 10"
    and "sint (val * 10 + of_nat d) = sint val * 10 + int d"
    and "sint val * 10 + int d < 10 ^ Suc k"
proof -
  from assms(3) have "(10::int) ^ k \<le> 10 ^ 14"
    by (intro power_increasing) simp_all
  with assms(2) have small: "sint val < 10 ^ 14" by linarith
  have ten: "sint (10 :: 64 word) = 10" by simp
  from assms(4) have "int d < 2 ^ 63" "- (2 ^ 63) \<le> int d" by simp_all
  then have d: "sint (of_nat d :: 64 word) = int d"
    by (simp add: signed_of_nat signed_take_bit_int_eq_self)
  from small assms(1) have "sint val * 10 < 2 ^ 63" "- (2 ^ 63) \<le> sint val * 10"
    by simp_all
  then show a: "sint (val * 10) = sint val * 10"
    by (simp add: sint_word_ariths ten signed_take_bit_int_eq_self del: sint_numeral)
  from small assms(1,4) have "sint val * 10 + int d < 2 ^ 63" "- (2 ^ 63) \<le> sint val * 10 + int d"
    by simp_all
  then show "sint (val * 10 + of_nat d) = sint val * 10 + int d"
    by (simp add: sint_word_ariths(1) a d signed_take_bit_int_eq_self)
  from assms(2,4) show "sint val * 10 + int d < 10 ^ Suc k"
    by simp
qed

text \<open>
  C5. For a target type all of whose values are values of \<open>int64_t\<close>, as the
  signed 64-bit id and the small unsigned integers of the spec are, a run of 1 to 15
  decimal digits that no further digit follows, with or without a leading \<open>-\<close>,
  is parsed by \<open>opl_parse_int\<close> to its numeric value, the cursor behind the last
  digit, if the value lies within the limits of the target type, and fails with
  \<open>integer too long\<close> if the value lies outside them. A run of 16 or
  more digits fails with \<open>integer too long\<close>, the cursor on the sixteenth digit.
  The empty input, a lone \<open>-\<close> and a first byte that is no digit fail with
  \<open>expected integer\<close>.
\<close>

theorem opl_parse_int_value:
  "(fits_int64 T \<and> list_all is_digit ds \<and> 1 \<le> length ds \<and> length ds \<le> 15
      \<and> \<not> is_digit (peek rest 0)
      \<longrightarrow> (int (decimal ds) \<le> numeric_max T
             \<longrightarrow> opl_parse_int T (pre @ ds @ rest) (length pre)
                   = Inr (int (decimal ds), length pre + length ds))
          \<and> (numeric_max T < int (decimal ds)
             \<longrightarrow> opl_parse_int T (pre @ ds @ rest) (length pre)
                   = Inl (opl_error ''integer too long'' (Some (length pre + length ds))))
          \<and> (numeric_min T \<le> - int (decimal ds)
             \<longrightarrow> opl_parse_int T (pre @ CHR ''-'' # ds @ rest) (length pre)
                   = Inr (- int (decimal ds), length pre + 1 + length ds))
          \<and> (- int (decimal ds) < numeric_min T
             \<longrightarrow> opl_parse_int T (pre @ CHR ''-'' # ds @ rest) (length pre)
                   = Inl (opl_error ''integer too long''
                           (Some (length pre + 1 + length ds)))))
   \<and> (list_all is_digit ds \<and> 16 \<le> length ds
      \<longrightarrow> opl_parse_int T (pre @ ds @ rest) (length pre)
            = Inl (opl_error ''integer too long'' (Some (length pre + 15)))
          \<and> opl_parse_int T (pre @ CHR ''-'' # ds @ rest) (length pre)
            = Inl (opl_error ''integer too long'' (Some (length pre + 1 + 15))))
   \<and> (peek s i = NUL
      \<longrightarrow> opl_parse_int T s i = Inl (opl_error ''expected integer'' (Some i)))
   \<and> (peek s i = CHR ''-'' \<and> \<not> is_digit (peek s (Suc i))
      \<longrightarrow> opl_parse_int T s i = Inl (opl_error ''expected integer'' (Some (Suc i))))
   \<and> (peek s i \<noteq> CHR ''-'' \<and> \<not> is_digit (peek s i)
      \<longrightarrow> opl_parse_int T s i = Inl (opl_error ''expected integer'' (Some i)))"
proof (intro conjI impI; (elim conjE)?)
  assume fits: "fits_int64 T"
    and ds: "list_all is_digit ds" "1 \<le> length ds" "length ds \<le> 15"
    and stop: "\<not> is_digit (peek rest 0)"
  note conv = usual_conversion_id [OF fits]
  from ds obtain d ds' where cons: "ds = d # ds'" and d: "is_digit d"
    by (cases ds) simp_all
  from d have first: "d \<noteq> NUL" "d \<noteq> CHR ''-''"
    using is_digit_plain by auto
  have small: "decimal ds < 10 ^ 15"
    using ds by (intro decimal_small) simp_all
  have plain: "opl_parse_int_loop (pre @ ds @ rest) (length pre) 0 max_int_len
      = Inr (of_nat (decimal ds), length pre + length ds, max_int_len - int (length ds))"
    using opl_parse_int_loop_digits [OF ds(1) stop, of max_int_len pre 0] ds(3)
    by (simp add: max_int_len_def)
  have minus: "opl_parse_int_loop (pre @ CHR ''-'' # ds @ rest) (Suc (length pre)) 0 max_int_len
      = Inr (of_nat (decimal ds), length pre + 1 + length ds, max_int_len - int (length ds))"
    using opl_parse_int_loop_digits [OF ds(1) stop, of max_int_len "pre @ ''-''" 0] ds(3)
    by (simp add: max_int_len_def)
  have n: "max_int_len - int (length ds) \<noteq> max_int_len"
    by (simp add: cons)
  note sint = sint_of_nat_small [OF small]
  show "opl_parse_int T (pre @ ds @ rest) (length pre)
      = Inr (int (decimal ds), length pre + length ds)"
    if "int (decimal ds) \<le> numeric_max T"
  proof -
    from that have "int_cast T (int (decimal ds)) = int (decimal ds)"
      using numeric_min_le_0 [of T] by (intro int_cast_id) simp_all
    with that first plain n sint show ?thesis
      unfolding opl_parse_int_def by (simp add: cons Let_def conv)
  qed
  show "opl_parse_int T (pre @ ds @ rest) (length pre)
      = Inl (opl_error ''integer too long'' (Some (length pre + length ds)))"
    if "numeric_max T < int (decimal ds)"
    using that first plain n sint
    unfolding opl_parse_int_def by (simp add: cons Let_def conv)
  show "opl_parse_int T (pre @ CHR ''-'' # ds @ rest) (length pre)
      = Inr (- int (decimal ds), length pre + 1 + length ds)"
    if "numeric_min T \<le> - int (decimal ds)"
  proof -
    from that have "int_cast T (- int (decimal ds)) = - int (decimal ds)"
      using numeric_max_ge_0 [of T] by (intro int_cast_id) simp_all
    with that minus n sint show ?thesis
      unfolding opl_parse_int_def by (simp add: Let_def NUL_def conv)
  qed
  show "opl_parse_int T (pre @ CHR ''-'' # ds @ rest) (length pre)
      = Inl (opl_error ''integer too long'' (Some (length pre + 1 + length ds)))"
    if "- int (decimal ds) < numeric_min T"
    using that minus n sint
    unfolding opl_parse_int_def by (simp add: Let_def NUL_def conv)
next
  assume ds: "list_all is_digit ds" "16 \<le> length ds"
  then obtain d ds' where cons: "ds = d # ds'" and d: "is_digit d"
    by (cases ds) simp_all
  from d have first: "d \<noteq> NUL" "d \<noteq> CHR ''-''"
    using is_digit_plain by auto
  have plain: "opl_parse_int_loop (pre @ ds @ rest) (length pre) 0 max_int_len
      = Inl (opl_error ''integer too long'' (Some (length pre + 15)))"
    using opl_parse_int_loop_long [OF ds(1), of max_int_len pre rest 0] ds(2)
    by (simp add: max_int_len_def)
  have minus: "opl_parse_int_loop (pre @ CHR ''-'' # ds @ rest) (Suc (length pre)) 0 max_int_len
      = Inl (opl_error ''integer too long'' (Some (length pre + 1 + 15)))"
    using opl_parse_int_loop_long [OF ds(1), of max_int_len "pre @ ''-''" rest 0] ds(2)
    by (simp add: max_int_len_def)
  from first plain
  show "opl_parse_int T (pre @ ds @ rest) (length pre)
      = Inl (opl_error ''integer too long'' (Some (length pre + 15)))"
    unfolding opl_parse_int_def by (simp add: cons Let_def)
  from minus
  show "opl_parse_int T (pre @ CHR ''-'' # ds @ rest) (length pre)
      = Inl (opl_error ''integer too long'' (Some (length pre + 1 + 15)))"
    unfolding opl_parse_int_def by (simp add: Let_def NUL_def)
next
  assume "peek s i = NUL"
  then show "opl_parse_int T s i = Inl (opl_error ''expected integer'' (Some i))"
    unfolding opl_parse_int_def by simp
next
  assume "peek s i = CHR ''-''" and "\<not> is_digit (peek s (Suc i))"
  then show "opl_parse_int T s i = Inl (opl_error ''expected integer'' (Some (Suc i)))"
    unfolding opl_parse_int_def
    by (simp add: Let_def NUL_def opl_parse_int_loop_stop)
next
  assume minus: "peek s i \<noteq> CHR ''-''" and stop: "\<not> is_digit (peek s i)"
  show "opl_parse_int T s i = Inl (opl_error ''expected integer'' (Some i))"
  proof (cases "peek s i = NUL")
    case True
    then show ?thesis unfolding opl_parse_int_def by simp
  next
    case False
    with minus stop show ?thesis
      unfolding opl_parse_int_def
      by (simp add: Let_def opl_parse_int_loop_stop)
  qed
qed

theorem opl_parse_int_value_witness:
  "opl_parse_int (Signed_int 64) (''n'' @ ''12345'' @ '' v1'') (length ''n'')
     = Inr (12345, 6)
   \<and> opl_parse_int (Unsigned_int 8) (''v'' @ ''256'' @ []) (length ''v'')
     = Inl (opl_error ''integer too long'' (Some 4))
   \<and> opl_parse_int (Signed_int 64) (''n'' @ CHR ''-'' # ''17'' @ '' v1'') (length ''n'')
     = Inr (- 17, 4)
   \<and> opl_parse_int (Unsigned_int 32) (''v'' @ CHR ''-'' # ''1'' @ []) (length ''v'')
     = Inl (opl_error ''integer too long'' (Some 3))
   \<and> opl_parse_int (Signed_int 64) (''n'' @ ''1234567890123456'' @ []) (length ''n'')
     = Inl (opl_error ''integer too long'' (Some 16))
   \<and> opl_parse_int (Signed_int 64) (''n'' @ CHR ''-'' # ''1234567890123456'' @ []) (length ''n'')
     = Inl (opl_error ''integer too long'' (Some 17))
   \<and> opl_parse_int (Signed_int 64) ''n'' 1 = Inl (opl_error ''expected integer'' (Some 1))
   \<and> opl_parse_int (Signed_int 64) ''n- v1'' 1 = Inl (opl_error ''expected integer'' (Some 2))
   \<and> opl_parse_int (Signed_int 64) ''nx'' 1 = Inl (opl_error ''expected integer'' (Some 1))"
proof -
  have digits: "list_all is_digit ''12345''" "list_all is_digit ''256''"
    "list_all is_digit ''17''" "list_all is_digit ''1''"
    "list_all is_digit ''1234567890123456''"
    by code_simp+
  have stops: "\<not> is_digit (peek '' v1'' 0)" "\<not> is_digit (peek [] 0)"
    "\<not> is_digit (peek ''n- v1'' (Suc 1))" "\<not> is_digit (peek ''nx'' 1)"
    by code_simp+
  have peeks: "peek ''n'' 1 = NUL" "peek ''n- v1'' 1 = CHR ''-''" "peek ''nx'' 1 \<noteq> CHR ''-''"
    by code_simp+
  have fits: "fits_int64 (Signed_int 64)" "fits_int64 (Unsigned_int 8)"
    "fits_int64 (Unsigned_int 32)"
    by (simp_all add: fits_int64_def)
  have decimals: "decimal ''12345'' = 12345" "decimal ''256'' = 256"
    "decimal ''17'' = 17" "decimal ''1'' = 1"
    by (simp_all add: decimal_def)
  have a: "opl_parse_int (Signed_int 64) (''n'' @ ''12345'' @ '' v1'') (length ''n'')
     = Inr (12345, 6)"
    using fits(1) digits(1) stops(1) decimals(1)
      opl_parse_int_value [where ds = "''12345''" and rest = "'' v1''"
        and pre = "''n''" and T = "Signed_int 64", THEN conjunct1]
    by (simp add: opl_error_def)
  have b: "opl_parse_int (Unsigned_int 8) (''v'' @ ''256'' @ []) (length ''v'')
     = Inl (opl_error ''integer too long'' (Some 4))"
    using fits(2) digits(2) stops(2) decimals(2)
      opl_parse_int_value [where ds = "''256''" and rest = "[]"
        and pre = "''v''" and T = "Unsigned_int 8", THEN conjunct1]
    by (simp add: opl_error_def)
  have c: "opl_parse_int (Signed_int 64) (''n'' @ CHR ''-'' # ''17'' @ '' v1'') (length ''n'')
     = Inr (- 17, 4)"
    using fits(1) digits(3) stops(1) decimals(3)
      opl_parse_int_value [where ds = "''17''" and rest = "'' v1''"
        and pre = "''n''" and T = "Signed_int 64", THEN conjunct1]
    by (simp add: opl_error_def)
  have d: "opl_parse_int (Unsigned_int 32) (''v'' @ CHR ''-'' # ''1'' @ []) (length ''v'')
     = Inl (opl_error ''integer too long'' (Some 3))"
    using fits(3) digits(4) stops(2) decimals(4)
      opl_parse_int_value [where ds = "''1''" and rest = "[]"
        and pre = "''v''" and T = "Unsigned_int 32", THEN conjunct1]
    by (simp add: opl_error_def)
  have e: "opl_parse_int (Signed_int 64) (''n'' @ ''1234567890123456'' @ []) (length ''n'')
     = Inl (opl_error ''integer too long'' (Some 16))
   \<and> opl_parse_int (Signed_int 64) (''n'' @ CHR ''-'' # ''1234567890123456'' @ []) (length ''n'')
     = Inl (opl_error ''integer too long'' (Some 17))"
    using digits(5)
      opl_parse_int_value [where ds = "''1234567890123456''" and rest = "[]"
        and pre = "''n''" and T = "Signed_int 64", THEN conjunct2, THEN conjunct1]
    by (simp add: opl_error_def)
  have f: "opl_parse_int (Signed_int 64) ''n'' 1 = Inl (opl_error ''expected integer'' (Some 1))"
    using peeks(1)
      opl_parse_int_value [where s = "''n''" and i = 1 and T = "Signed_int 64",
        THEN conjunct2, THEN conjunct2, THEN conjunct1]
    by (simp add: opl_error_def)
  have g: "opl_parse_int (Signed_int 64) ''n- v1'' 1
     = Inl (opl_error ''expected integer'' (Some 2))"
    using peeks(2) stops(3)
      opl_parse_int_value [where s = "''n- v1''" and i = 1 and T = "Signed_int 64",
        THEN conjunct2, THEN conjunct2, THEN conjunct2, THEN conjunct1]
    by (simp add: opl_error_def)
  have h: "opl_parse_int (Signed_int 64) ''nx'' 1 = Inl (opl_error ''expected integer'' (Some 1))"
    using peeks(3) stops(4)
      opl_parse_int_value [where s = "''nx''" and i = 1 and T = "Signed_int 64",
        THEN conjunct2, THEN conjunct2, THEN conjunct2, THEN conjunct2]
    by (simp add: opl_error_def)
  from a b c d e f g h show ?thesis by blast
qed

text \<open>
  C10. The \<open>int64_t\<close> accumulator of \<open>opl_parse_int\<close> never overflows. While
  the counter \<open>n\<close> is above 1 and the accumulator is below \<open>10\<close> to the power
  of the digits read so far, multiplying by 10 and adding the digit give the exact
  results in 64-bit two's complement, and the bound holds again for the next state
  of the loop; at counter 1, that is with 15 digits read, a further digit makes
  the loop throw \<open>integer too long\<close> without touching the accumulator. So the value
  the loop returns is the exact value of the digits read, at most \<open>10\<^sup>1\<^sup>5 - 1\<close>,
  and its negation is exact as well.
\<close>

theorem opl_parse_int_no_overflow:
  "(0 \<le> sint val \<and> sint val < 10 ^ nat (max_int_len - n) \<and> 1 < n \<and> n \<le> max_int_len
      \<and> is_digit (peek s i)
      \<longrightarrow> sint (val * 10) = sint val * 10
          \<and> sint (val * 10 + of_nat (of_char (peek s i) - of_char CHR ''0''))
            = sint val * 10 + int (of_char (peek s i) - of_char CHR ''0'')
          \<and> 0 \<le> sint (val * 10 + of_nat (of_char (peek s i) - of_char CHR ''0''))
          \<and> sint (val * 10 + of_nat (of_char (peek s i) - of_char CHR ''0''))
            < 10 ^ nat (max_int_len - (n - 1))
          \<and> opl_parse_int_loop s i val n
            = opl_parse_int_loop s (Suc i)
                (val * 10 + of_nat (of_char (peek s i) - of_char CHR ''0'')) (n - 1))
   \<and> (is_digit (peek s i)
      \<longrightarrow> opl_parse_int_loop s i val 1 = Inl (opl_error ''integer too long'' (Some i)))
   \<and> (opl_parse_int_loop s i 0 max_int_len = Inr (w, j, m)
      \<longrightarrow> 0 \<le> sint w \<and> sint w \<le> 10 ^ 15 - 1
          \<and> sint w = int (decimal (take (j - i) (drop i s)))
          \<and> sint (- w) = - sint w
          \<and> 1 \<le> m)"
proof (intro conjI impI; (elim conjE)?)
  assume inv: "0 \<le> sint val" "sint val < 10 ^ nat (max_int_len - n)" "1 < n" "n \<le> max_int_len"
    and d: "is_digit (peek s i)"
  define k where "k = nat (max_int_len - n)"
  from inv(3,4) have k: "k \<le> 14" "nat (max_int_len - (n - 1)) = Suc k"
    by (simp_all add: k_def max_int_len_def)
  note step = sint_step [OF inv(1) inv(2) [folded k_def] k(1) digit_less [OF d]]
  show "sint (val * 10) = sint val * 10"
    by (rule step(1))
  show exact: "sint (val * 10 + of_nat (of_char (peek s i) - of_char CHR ''0''))
      = sint val * 10 + int (of_char (peek s i) - of_char CHR ''0'')"
    by (rule step(2))
  from inv(1) show "0 \<le> sint (val * 10 + of_nat (of_char (peek s i) - of_char CHR ''0''))"
    unfolding exact by simp
  show "sint (val * 10 + of_nat (of_char (peek s i) - of_char CHR ''0''))
      < 10 ^ nat (max_int_len - (n - 1))"
    unfolding exact k(2) by (rule step(3))
  from inv(3) d show "opl_parse_int_loop s i val n
      = opl_parse_int_loop s (Suc i)
          (val * 10 + of_nat (of_char (peek s i) - of_char CHR ''0'')) (n - 1)"
    by (intro opl_parse_int_loop_step) simp_all
next
  assume "is_digit (peek s i)"
  then show "opl_parse_int_loop s i val 1 = Inl (opl_error ''integer too long'' (Some i))"
    by (rule opl_parse_int_loop_sixteenth)
next
  assume r: "opl_parse_int_loop s i 0 max_int_len = Inr (w, j, m)"
  define ds where "ds = takeWhile is_digit (drop i s)"
  from r have short: "length ds < 16" and w: "w = of_nat (decimal ds)"
    and j: "j = i + length ds" and m: "m = max_int_len - int (length ds)"
    unfolding opl_parse_int_loop_closed ds_def Let_def by (simp_all split: if_splits)
  have digits: "list_all is_digit ds"
    unfolding ds_def list_all_iff by (auto dest: set_takeWhileD)
  have small: "decimal ds < 10 ^ 15"
    using digits short by (rule decimal_small)
  note sint = sint_of_nat_small [OF small]
  have "drop i s = ds @ dropWhile is_digit (drop i s)"
    by (simp add: ds_def)
  then have "take (j - i) (drop i s) = ds"
    by (metis j add_diff_cancel_left' append_eq_conv_conj)
  with sint w show "sint w = int (decimal (take (j - i) (drop i s)))"
    by simp
  from sint w show "0 \<le> sint w" by simp
  from small have "int (decimal ds) < 10 ^ 15"
    by (metis of_nat_less_iff of_nat_numeral of_nat_power)
  with sint w show "sint w \<le> 10 ^ 15 - 1" by simp
  from sint w show "sint (- w) = - sint w" by simp
  from short m show "1 \<le> m" by (simp add: max_int_len_def)
qed

theorem opl_parse_int_no_overflow_witness:
  "sint ((4 :: 64 word) * 10) = 40
   \<and> sint ((4 :: 64 word) * 10 + of_nat (of_char CHR ''2'' - of_char CHR ''0'')) = 42
   \<and> opl_parse_int_loop ''42'' 1 4 15 = opl_parse_int_loop ''42'' (Suc 1) 42 14
   \<and> opl_parse_int_loop ''1234567890123456'' 15 123456789012345 1
     = Inl (opl_error ''integer too long'' (Some 15))
   \<and> opl_parse_int_loop ''42 '' 0 0 max_int_len = Inr (42, 2, 14)
   \<and> sint (42 :: 64 word) \<le> 10 ^ 15 - 1
   \<and> sint (42 :: 64 word) = int (decimal (take (2 - 0) (drop 0 ''42 '')))
   \<and> sint (- (42 :: 64 word)) = - sint (42 :: 64 word)"
proof -
  have inv: "0 \<le> sint (4 :: 64 word)"
    "sint (4 :: 64 word) < 10 ^ nat (max_int_len - 15)"
    "(1::int) < 15" "15 \<le> max_int_len"
    by (simp_all add: max_int_len_def)
  have digit: "is_digit (peek ''42'' 1)" "is_digit (peek ''1234567890123456'' 15)"
    by code_simp+
  have two: "peek ''42'' 1 = CHR ''2''"
    by code_simp
  have run: "opl_parse_int_loop ''42 '' 0 0 max_int_len = Inr (42, 2, 14)"
    by code_simp
  have a: "sint ((4 :: 64 word) * 10) = 40
   \<and> sint ((4 :: 64 word) * 10 + of_nat (of_char CHR ''2'' - of_char CHR ''0'')) = 42
   \<and> opl_parse_int_loop ''42'' 1 4 15 = opl_parse_int_loop ''42'' (Suc 1) 42 14"
    using inv digit(1) two
      opl_parse_int_no_overflow [where val = 4 and n = 15
        and s = "''42''" and i = 1, THEN conjunct1]
    by simp
  have b: "opl_parse_int_loop ''1234567890123456'' 15 123456789012345 1
     = Inl (opl_error ''integer too long'' (Some 15))"
    using digit(2)
      opl_parse_int_no_overflow [where val = 123456789012345
        and s = "''1234567890123456''" and i = 15, THEN conjunct2, THEN conjunct1]
    by simp
  have c: "sint (42 :: 64 word) \<le> 10 ^ 15 - 1
   \<and> sint (42 :: 64 word) = int (decimal (take (2 - 0) (drop 0 ''42 '')))
   \<and> sint (- (42 :: 64 word)) = - sint (42 :: 64 word)"
    using run
      opl_parse_int_no_overflow [where s = "''42 ''" and i = 0
        and w = 42 and j = 2 and m = 14, THEN conjunct2, THEN conjunct2]
    by blast
  from a b run c show ?thesis by blast
qed

subsection \<open>Strings\<close>

lemma opl_parse_string_stop:
  "terminator (peek s i) \<Longrightarrow> opl_parse_string s i result = Inr (i, result)"
  by (subst opl_parse_string.simps) (auto simp: terminator_def)

lemma opl_parse_string_plain:
  "plain (peek s i) \<Longrightarrow>
     opl_parse_string s i result = opl_parse_string s (Suc i) (result @ [peek s i])"
  by (subst opl_parse_string.simps) (auto simp: plain_def terminator_def)

lemma opl_parse_string_percent:
  "peek s i = CHR ''%'' \<Longrightarrow> opl_parse_escaped s (Suc i) result = Inr (j, r) \<Longrightarrow>
     opl_parse_string s i result = opl_parse_string s j r"
  by (subst opl_parse_string.simps) (simp add: NUL_def TAB_def)

lemma opl_parse_string_run:
  "list_all plain bs \<Longrightarrow>
     opl_parse_string (pre @ bs @ rest) (length pre) result
     = opl_parse_string ((pre @ bs) @ rest) (length (pre @ bs)) (result @ bs)"
proof (induction bs arbitrary: pre result)
  case Nil
  show ?case by simp
next
  case (Cons b bs)
  then have b: "plain b" and bs: "list_all plain bs"
    by simp_all
  have "opl_parse_string (pre @ (b # bs) @ rest) (length pre) result
      = opl_parse_string ((pre @ [b]) @ bs @ rest) (length (pre @ [b])) (result @ [b])"
    using opl_parse_string_plain [of "pre @ (b # bs) @ rest" "length pre" result] b
    by simp
  also have "\<dots> = opl_parse_string (((pre @ [b]) @ bs) @ rest) (length ((pre @ [b]) @ bs))
      ((result @ [b]) @ bs)"
    by (rule Cons.IH [OF bs])
  finally show ?case by simp
qed

lemma opl_parse_string_terminator:
  "opl_parse_string s i result = Inr (j, r) \<Longrightarrow> terminator (peek s j)"
proof (induction s i result rule: opl_parse_string.induct)
  case (1 s i result)
  note step = opl_parse_string.simps [of s i result]
  show ?case
  proof (cases "terminator (peek s i)")
    case True
    with "1.prems" show ?thesis
      by (simp add: opl_parse_string_stop)
  next
    case False
    then have stop: "\<not> (peek s i = NUL \<or> peek s i = CHR '' '' \<or> peek s i = TAB
         \<or> peek s i = CHR '','' \<or> peek s i = CHR ''='')"
      by (simp add: terminator_def)
    show ?thesis
    proof (cases "peek s i = CHR ''%''")
      case True
      with stop "1.prems" obtain k r' where
        esc: "opl_parse_escaped s (Suc i) result = Inr (k, r')" and
        rest: "opl_parse_string s k r' = Inr (j, r)"
        unfolding step by (auto split: sum.splits)
      from "1.IH"(1) [OF stop True esc refl rest] show ?thesis .
    next
      case False
      with stop "1.prems" have "opl_parse_string s (Suc i) (result @ [peek s i]) = Inr (j, r)"
        unfolding step by simp
      from "1.IH"(2) [OF stop False this] show ?thesis .
    qed
  qed
qed

lemma high_byte_plain: "128 \<le> n \<Longrightarrow> n < 256 \<Longrightarrow> plain (char_of (n::nat))"
  by (auto simp: plain_def terminator_def NUL_def TAB_def char_of_eq_iff take_bit_eq_mod)

lemma low_byte_plain:
  "n < 128 \<Longrightarrow> n \<notin> {0, 9, 32, 37, 44, 61} \<Longrightarrow> plain (char_of (n::nat))"
  by (auto simp: plain_def terminator_def NUL_def TAB_def char_of_eq_iff take_bit_eq_mod)

lemma utf8_plain:
  assumes "cp < 0x110000" and "cp \<notin> {0, 9, 32, 37, 44, 61}"
  shows "list_all plain (append_codepoint_as_utf8 (of_nat cp))"
proof -
  from assms(1) have n: "unat (of_nat cp :: 32 word) = cp"
    by (simp add: unat_of_nat)
  consider "cp < 0x80" | "0x80 \<le> cp" "cp < 0x800" | "0x800 \<le> cp" "cp < 0x10000"
    | "0x10000 \<le> cp"
    by linarith
  then show ?thesis
  proof cases
    case 1
    with assms(2) show ?thesis
      unfolding append_codepoint_as_utf8_def n Let_def
      by (simp add: low_byte_plain)
  next
    case 2
    then have "cp div 0x40 < 0x20" "cp mod 0x40 < 0x40" by simp_all
    then have "plain (char_of (0xC0 + cp div 0x40))" "plain (char_of (0x80 + cp mod 0x40))"
      by (intro high_byte_plain; simp)+
    with 2 show ?thesis
      unfolding append_codepoint_as_utf8_def n Let_def by simp
  next
    case 3
    then have "cp div 0x1000 < 0x10" "cp div 0x40 mod 0x40 < 0x40" "cp mod 0x40 < 0x40"
      by simp_all
    then have "plain (char_of (0xE0 + cp div 0x1000))"
      "plain (char_of (0x80 + cp div 0x40 mod 0x40))" "plain (char_of (0x80 + cp mod 0x40))"
      by (intro high_byte_plain; simp)+
    with 3 show ?thesis
      unfolding append_codepoint_as_utf8_def n Let_def by simp
  next
    case 4
    with assms(1) have "cp div 0x40000 < 0x10" "cp div 0x1000 mod 0x40 < 0x40"
      "cp div 0x40 mod 0x40 < 0x40" "cp mod 0x40 < 0x40"
      by simp_all
    then have "plain (char_of (0xF0 + cp div 0x40000))"
      "plain (char_of (0x80 + cp div 0x1000 mod 0x40))"
      "plain (char_of (0x80 + cp div 0x40 mod 0x40))" "plain (char_of (0x80 + cp mod 0x40))"
      by (intro high_byte_plain; simp)+
    with 4 show ?thesis
      unfolding append_codepoint_as_utf8_def n Let_def by simp
  qed
qed

lemma opl_parse_string_percent_error:
  "peek s i = CHR ''%'' \<Longrightarrow> opl_parse_escaped s (Suc i) result = Inl e \<Longrightarrow>
     opl_parse_string s i result = Inl e"
  by (subst opl_parse_string.simps) (simp add: NUL_def TAB_def)

lemma opl_parse_string_escape:
  assumes hex: "list_all is_hex ds" and len: "length ds \<le> 7"
  shows "opl_parse_string (pre @ (CHR ''%'' # ds @ ''%'') @ rest) (length pre) result
         = opl_parse_string ((pre @ CHR ''%'' # ds @ ''%'') @ rest)
             (length (pre @ CHR ''%'' # ds @ ''%''))
             (result @ append_codepoint_as_utf8 (of_nat (hexadecimal ds)))"
proof -
  let ?s = "pre @ (CHR ''%'' # ds @ ''%'') @ rest"
  have s: "?s = (pre @ ''%'') @ ds @ CHR ''%'' # rest"
    by simp
  have "opl_parse_escaped ?s (Suc (length pre)) result
      = Inr (length (pre @ ''%'') + length ds + 1,
             result @ append_codepoint_as_utf8 (of_nat (hexadecimal ds)))"
    unfolding s opl_parse_escaped_def
    using opl_parse_escaped_loop_digits [OF hex, of 0 "pre @ ''%''" rest 0 result] len
    by (simp add: max_length_def)
  then have "opl_parse_string ?s (length pre) result
      = opl_parse_string ?s (length (pre @ ''%'') + length ds + 1)
          (result @ append_codepoint_as_utf8 (of_nat (hexadecimal ds)))"
    by (intro opl_parse_string_percent) simp_all
  then show ?thesis
    by simp
qed

lemma opl_parse_string_eight_digits:
  assumes hex: "list_all is_hex ds" and len: "length ds = 8"
  shows "opl_parse_string (pre @ (CHR ''%'' # ds @ ''%'') @ rest) (length pre) result
         = Inl (opl_error ''hex escape too long'' (Some (length pre + 9)))"
proof -
  let ?s = "pre @ (CHR ''%'' # ds @ ''%'') @ rest"
  have s: "?s = (pre @ ''%'') @ ds @ CHR ''%'' # rest"
    by simp
  have "opl_parse_escaped ?s (Suc (length pre)) result
      = Inl (opl_error ''hex escape too long'' (Some (length pre + 9)))"
    unfolding s opl_parse_escaped_def
    using opl_parse_escaped_loop_long [OF hex, of 0 "pre @ ''%''" "CHR ''%'' # rest" 0 result] len
    by (simp add: max_length_def add.commute)
  then show ?thesis
    by (intro opl_parse_string_percent_error) simp_all
qed

lemma opl_parse_string_piece:
  assumes "escaped_ok p" and "hex_length p \<le> 7"
  shows "opl_parse_string (pre @ escaped_bytes p @ rest) (length pre) result
         = opl_parse_string ((pre @ escaped_bytes p) @ rest)
             (length (pre @ escaped_bytes p))
             (result @ append_codepoint_as_utf8 (of_nat (codepoint p)))"
proof (cases p)
  case (Verbatim cp)
  with assms(1) have "cp < 0x110000" "cp \<notin> {0, 9, 32, 37, 44, 61}"
    by (simp_all add: reserved_def)
  from utf8_plain [OF this] Verbatim show ?thesis
    by (simp only: escaped_bytes.simps codepoint.simps opl_parse_string_run)
next
  case (Percent ds)
  with assms have "list_all is_hex ds" "length ds \<le> 7"
    by simp_all
  from opl_parse_string_escape [OF this, of pre rest result] Percent show ?thesis
    by simp
qed

lemma opl_parse_string_pieces:
  assumes "list_all escaped_ok ps" and "\<forall>p\<in>set ps. hex_length p \<le> 7"
  shows "opl_parse_string (pre @ opl_escaped ps @ rest) (length pre) result
         = opl_parse_string ((pre @ opl_escaped ps) @ rest) (length (pre @ opl_escaped ps))
             (result @ utf8_string (map codepoint ps))"
  using assms
proof (induction ps arbitrary: pre result)
  case Nil
  show ?case
    by (simp add: opl_escaped_def utf8_string_def)
next
  case (Cons p ps)
  then have p: "escaped_ok p" "hex_length p \<le> 7"
    and ps: "list_all escaped_ok ps" "\<forall>p\<in>set ps. hex_length p \<le> 7"
    by simp_all
  let ?e = "escaped_bytes p"
  have "opl_parse_string (pre @ opl_escaped (p # ps) @ rest) (length pre) result
      = opl_parse_string (pre @ ?e @ (opl_escaped ps @ rest)) (length pre) result"
    by (simp add: opl_escaped_def)
  also have "\<dots> = opl_parse_string ((pre @ ?e) @ opl_escaped ps @ rest) (length (pre @ ?e))
      (result @ append_codepoint_as_utf8 (of_nat (codepoint p)))"
    using p by (rule opl_parse_string_piece)
  also have "\<dots> = opl_parse_string (((pre @ ?e) @ opl_escaped ps) @ rest)
      (length ((pre @ ?e) @ opl_escaped ps))
      ((result @ append_codepoint_as_utf8 (of_nat (codepoint p))) @ utf8_string (map codepoint ps))"
    by (rule Cons.IH [OF ps])
  finally show ?case
    by (simp add: opl_escaped_def utf8_string_def)
qed

text \<open>
  An encoding whose escapes have at most 7 digits is parsed to the string it
  encodes, the cursor left on the terminating byte.
\<close>

lemma opl_parse_string_round_trip:
  assumes "opl_encoding ps u" and "\<forall>p\<in>set ps. hex_length p \<le> 7"
    and "terminator (peek rest 0)"
  shows "opl_parse_string (pre @ opl_escaped ps @ rest) (length pre) result
         = Inr (length pre + length (opl_escaped ps), result @ utf8_string u)"
proof -
  from assms(1) have ok: "list_all escaped_ok ps" and u: "map codepoint ps = u"
    by (simp_all add: opl_encoding_def)
  from assms(3) have "terminator (peek ((pre @ opl_escaped ps) @ rest)
      (length (pre @ opl_escaped ps)))"
    using peek_behind [of pre "opl_escaped ps" rest] by simp
  then show ?thesis
    unfolding opl_parse_string_pieces [OF ok assms(2)] u
    by (simp add: opl_parse_string_stop del: append_assoc)
qed

text \<open>
  An encoding with an escape of 8 digits is not parsed: the parser fails on the
  \<open>%\<close> that closes the first such escape.
\<close>

lemma opl_parse_string_long_escape:
  assumes "list_all escaped_ok ps" and "\<forall>p\<in>set ps. hex_length p \<le> 7"
    and "escaped_ok (Percent ds)" and "length ds = 8"
  shows "opl_parse_string (pre @ opl_escaped (ps @ Percent ds # qs) @ rest) (length pre) result
         = Inl (opl_error ''hex escape too long''
                  (Some (length pre + length (opl_escaped ps) + 9)))"
proof -
  from assms(3) have hex: "list_all is_hex ds" by simp
  have "opl_parse_string (pre @ opl_escaped (ps @ Percent ds # qs) @ rest) (length pre) result
      = opl_parse_string (pre @ opl_escaped ps @ (escaped_bytes (Percent ds) @ opl_escaped qs @ rest))
          (length pre) result"
    by (simp add: opl_escaped_def)
  also have "\<dots> = opl_parse_string
      ((pre @ opl_escaped ps) @ (CHR ''%'' # ds @ ''%'') @ opl_escaped qs @ rest)
      (length (pre @ opl_escaped ps)) (result @ utf8_string (map codepoint ps))"
    unfolding opl_parse_string_pieces [OF assms(1,2)] by simp
  also have "\<dots> = Inl (opl_error ''hex escape too long''
      (Some (length (pre @ opl_escaped ps) + 9)))"
    using hex assms(4) by (rule opl_parse_string_eight_digits)
  finally show ?thesis by simp
qed

text \<open>
  C8, at an input where the code fails. \<open>Caf%000000e9%\<close> is an encoding of
  \<open>Caf\<close>, U+00E9 as the spec has it, the escape with 8 hexadecimal digits; the
  string is the bytes \<open>Caf\<close>, \<open>0xC3 0xA9\<close>. The parser does not yield it: it
  throws \<open>hex escape too long\<close> on the \<open>%\<close> that closes the escape, alone and
  in the line \<open>n1 Tname=Caf%000000e9%\<close>. With one leading zero less the same
  string is parsed.
\<close>

theorem opl_string_eight_digit_escape:
  "opl_encoding [Verbatim 67, Verbatim 97, Verbatim 102, Percent ''000000e9''] [67, 97, 102, 233]
   \<and> opl_escaped [Verbatim 67, Verbatim 97, Verbatim 102, Percent ''000000e9'']
     = ''Caf%000000e9%''
   \<and> utf8_string [67, 97, 102, 233] = ''Caf'' @ [CHR 0xC3, CHR 0xA9]
   \<and> opl_parse_string ''Caf%000000e9%'' 0 []
     = Inl (opl_error ''hex escape too long'' (Some 12))
   \<and> opl_parse_line osmium_ext 1 ''n1 Tname=Caf%000000e9%'' empty_buffer {node_bit}
     = Inl (\<lparr>line = 1, column = 21, data = Some 21,
             msg = ''OPL error: hex escape too long on line 1 column 21''\<rparr>,
           \<lparr>committed = [],
            written = [NodeBuilder, set_id 1, set_user [], TagListBuilder]\<rparr>)
   \<and> opl_encoding [Verbatim 67, Verbatim 97, Verbatim 102, Percent ''00000e9''] [67, 97, 102, 233]
   \<and> opl_parse_string (opl_escaped [Verbatim 67, Verbatim 97, Verbatim 102, Percent ''00000e9'']) 0 []
     = Inr (12, ''Caf'' @ [CHR 0xC3, CHR 0xA9])"
proof -
  have hex: "hexadecimal ''000000e9'' = 233" "hexadecimal ''00000e9'' = 233"
    "is_hex CHR ''0''" "is_hex CHR ''e''" "is_hex CHR ''9''"
    by code_simp+
  have enc: "opl_encoding [Verbatim 67, Verbatim 97, Verbatim 102, Percent ''000000e9'']
      [67, 97, 102, 233]"
    "opl_encoding [Verbatim 67, Verbatim 97, Verbatim 102, Percent ''00000e9'']
      [67, 97, 102, 233]"
    by (simp_all add: opl_encoding_def reserved_def hex)
  have bytes: "opl_escaped [Verbatim 67, Verbatim 97, Verbatim 102, Percent ''000000e9'']
      = ''Caf%000000e9%''"
    "opl_escaped [Verbatim 67, Verbatim 97, Verbatim 102, Percent ''00000e9'']
      = ''Caf%00000e9%''"
    by (simp_all add: opl_escaped_def append_codepoint_as_utf8_def unat_of_nat char_of_eq_iff)
  have dec: "utf8_string [67, 97, 102, 233] = ''Caf'' @ [CHR 0xC3, CHR 0xA9]"
    by (simp add: utf8_string_def append_codepoint_as_utf8_def unat_of_nat char_of_eq_iff)
  have long: "opl_parse_string ''Caf%000000e9%'' 0 []
      = Inl (opl_error ''hex escape too long'' (Some 12))"
    by code_simp
  have thrown: "opl_parse_line osmium_ext 1 ''n1 Tname=Caf%000000e9%'' empty_buffer {node_bit}
     = Inl (\<lparr>line = 1, column = 21, data = Some 21,
             msg = ''OPL error: hex escape too long on line 1 column 21''\<rparr>,
           \<lparr>committed = [],
            written = [NodeBuilder, set_id 1, set_user [], TagListBuilder]\<rparr>)"
    by code_simp
  have short: "opl_parse_string ''Caf%00000e9%'' 0 [] = Inr (12, ''Caf'' @ [CHR 0xC3, CHR 0xA9])"
    by code_simp
  from enc bytes dec long thrown short show ?thesis
    by simp
qed

end
